theory Spec2Isabelle
  imports Complex_Main
begin

section \<open>Scalars\<close>

text \<open>
  The notebooks compute on tensors of double-precision floating-point numbers (the
  inputs of their checks are created with \<open>dtype = torch.double\<close>). An entry is modelled
  as an exact real number or one of the three special values of IEEE arithmetic;
  rounding, overflow and the sign of zero are not modelled. The operations below follow
  the IEEE rules for the special values: a nonzero number divided by zero is an infinity,
  \<open>0/0\<close>, \<open>inf - inf\<close>, \<open>0 * inf\<close> and \<open>inf/inf\<close> are NaN, \<open>log 0\<close> is \<open>-inf\<close>,
  the logarithm of a negative number is NaN, and NaN propagates.

  Since an operation on exact numbers never overflows, a statement that a result is
  finite says something about the notebooks only where the exact values stay in the range
  of double precision; \<open>max_double\<close>, the largest double-precision number, is there for
  the hypotheses that say so.
\<close>

datatype fl = Fin real | PInf | NInf | NaN


fun is_finite :: "fl \<Rightarrow> bool" where
  "is_finite (Fin a) = True"
| "is_finite _ = False"

fun real_of_fl :: "fl \<Rightarrow> real" where
  "real_of_fl (Fin a) = a"
| "real_of_fl _ = 0"

fun fneg :: "fl \<Rightarrow> fl" where
  "fneg (Fin a) = Fin (- a)"
| "fneg PInf = NInf"
| "fneg NInf = PInf"
| "fneg NaN = NaN"

fun fadd :: "fl \<Rightarrow> fl \<Rightarrow> fl" where
  "fadd (Fin a) (Fin b) = Fin (a + b)"
| "fadd NaN _ = NaN"
| "fadd _ NaN = NaN"
| "fadd PInf NInf = NaN"
| "fadd NInf PInf = NaN"
| "fadd PInf _ = PInf"
| "fadd NInf _ = NInf"
| "fadd _ PInf = PInf"
| "fadd _ NInf = NInf"

definition fsub :: "fl \<Rightarrow> fl \<Rightarrow> fl" where
  "fsub x y = fadd x (fneg y)"

text \<open>An infinity with the sign of a nonzero real, NaN for zero.\<close>

definition inf_signed :: "real \<Rightarrow> fl" where
  "inf_signed a = (if a > 0 then PInf else if a < 0 then NInf else NaN)"

fun fmul :: "fl \<Rightarrow> fl \<Rightarrow> fl" where
  "fmul (Fin a) (Fin b) = Fin (a * b)"
| "fmul NaN _ = NaN"
| "fmul _ NaN = NaN"
| "fmul PInf (Fin b) = inf_signed b"
| "fmul NInf (Fin b) = inf_signed (- b)"
| "fmul (Fin a) PInf = inf_signed a"
| "fmul (Fin a) NInf = inf_signed (- a)"
| "fmul PInf PInf = PInf"
| "fmul NInf NInf = PInf"
| "fmul PInf NInf = NInf"
| "fmul NInf PInf = NInf"

fun fdiv :: "fl \<Rightarrow> fl \<Rightarrow> fl" where
  "fdiv (Fin a) (Fin b) = (if b = 0 then inf_signed a else Fin (a / b))"
| "fdiv NaN _ = NaN"
| "fdiv _ NaN = NaN"
| "fdiv PInf (Fin b) = (if b < 0 then NInf else PInf)"
| "fdiv NInf (Fin b) = (if b < 0 then PInf else NInf)"
| "fdiv (Fin a) _ = Fin 0"
| "fdiv _ _ = NaN"

fun flog :: "fl \<Rightarrow> fl" where
  "flog (Fin a) = (if a > 0 then Fin (ln a) else if a = 0 then NInf else NaN)"
| "flog PInf = PInf"
| "flog _ = NaN"

text \<open>\<open>clamp(x, lo, hi)\<close> is \<open>min(max(x, lo), hi)\<close>; NaN stays NaN.\<close>

fun fclamp :: "real \<Rightarrow> real \<Rightarrow> fl \<Rightarrow> fl" where
  "fclamp lo hi (Fin a) = Fin (min (max a lo) hi)"
| "fclamp lo hi PInf = Fin hi"
| "fclamp lo hi NInf = Fin (min lo hi)"
| "fclamp lo hi NaN = NaN"

text \<open>\<open>clamp(min=lo)\<close>, with no upper bound.\<close>

fun fclamp_min :: "real \<Rightarrow> fl \<Rightarrow> fl" where
  "fclamp_min lo (Fin a) = Fin (max a lo)"
| "fclamp_min lo PInf = PInf"
| "fclamp_min lo NInf = Fin lo"
| "fclamp_min lo NaN = NaN"

text \<open>\<open>x < c\<close>; every comparison with NaN is false.\<close>

fun flt :: "fl \<Rightarrow> real \<Rightarrow> bool" where
  "flt (Fin a) c = (a < c)"
| "flt NInf c = True"
| "flt _ c = False"

section \<open>Tensors\<close>

text \<open>
  A tensor is its shape and its entries in row-major order. It is well formed when the
  number of entries is the product of the dimensions; a 0-dimensional tensor (a scalar
  tensor) has shape \<open>[]\<close> and one entry.
\<close>

record 'a tensor =
  shape :: "nat list"
  data :: "'a list"

definition numel :: "nat list \<Rightarrow> nat" where
  "numel s = prod_list s"

definition wf :: "'a tensor \<Rightarrow> bool" where
  "wf t = (length (data t) = numel (shape t))"

text \<open>
  The errors of the model. \<open>IndexError\<close>: \<open>shape[0]\<close> of a 0-dimensional tensor, or a
  boolean mask that does not fit. \<open>RuntimeError\<close>: torch operands that do not broadcast.
  \<open>ValueError\<close>: numpy operands that do not broadcast, or a tuple unpacked into the wrong
  number of names. \<open>TypeError\<close>: a call with the wrong arguments. \<open>AttributeError\<close>:
  an attribute of the context that was never set. \<open>Dangling\<close> belongs to the model
  only: a reference to no object, which Python cannot produce.
\<close>

datatype error = IndexError | RuntimeError | ValueError | AttributeError | TypeError | Dangling

subsection \<open>Broadcasting\<close>

text \<open>
  Two shapes are aligned at their last dimensions; two aligned dimensions must be equal,
  or one of them is 1; the shorter shape is filled with leading ones.
\<close>

fun broadcast_rev :: "nat list \<Rightarrow> nat list \<Rightarrow> nat list option" where
  "broadcast_rev [] ys = Some ys"
| "broadcast_rev (x # xs) [] = Some (x # xs)"
| "broadcast_rev (x # xs) (y # ys) =
     (if x = y \<or> y = 1 then map_option (Cons x) (broadcast_rev xs ys)
      else if x = 1 then map_option (Cons y) (broadcast_rev xs ys)
      else None)"

definition broadcast_shapes :: "nat list \<Rightarrow> nat list \<Rightarrow> nat list option" where
  "broadcast_shapes s1 s2 = map_option rev (broadcast_rev (rev s1) (rev s2))"

definition pad :: "nat \<Rightarrow> nat list \<Rightarrow> nat list" where
  "pad n s = replicate (n - length s) 1 @ s"

definition chunks :: "nat \<Rightarrow> nat \<Rightarrow> 'a list \<Rightarrow> 'a list list" where
  "chunks n k xs = map (\<lambda>i. take n (drop (i * n) xs)) [0..<k]"

text \<open>
  \<open>expand s t xs\<close>: the entries \<open>xs\<close> of a tensor of shape \<open>s\<close>, expanded to the shape \<open>t\<close>
  of the same length. A dimension of \<open>s\<close> that equals the one of \<open>t\<close> is traversed, a
  dimension 1 is repeated.
\<close>

fun expand :: "nat list \<Rightarrow> nat list \<Rightarrow> 'a list \<Rightarrow> 'a list" where
  "expand (s # ss) (t # ts) xs =
     (if s = t then concat (map (expand ss ts) (chunks (numel ss) s xs))
      else concat (replicate t (expand ss ts xs)))"
| "expand _ _ xs = xs"

text \<open>\<open>fits s t\<close>: a tensor of shape \<open>s\<close> can be expanded to the shape \<open>t\<close> of the same length.\<close>

definition fits :: "nat list \<Rightarrow> nat list \<Rightarrow> bool" where
  "fits s t = list_all2 (\<lambda>x y. x = y \<or> x = 1) s t"

definition broadcast_to :: "nat list \<Rightarrow> 'a tensor \<Rightarrow> 'a list" where
  "broadcast_to t a = expand (pad (length t) (shape a)) t (data a)"

text \<open>An elementwise binary operation with broadcasting; \<open>e\<close> is the library's error.\<close>

definition binop :: "error \<Rightarrow> ('a \<Rightarrow> 'b \<Rightarrow> 'c) \<Rightarrow> 'a tensor \<Rightarrow> 'b tensor \<Rightarrow> error + 'c tensor" where
  "binop e f a b =
     (case broadcast_shapes (shape a) (shape b) of
        None \<Rightarrow> Inl e
      | Some s \<Rightarrow> Inr \<lparr>shape = s, data = map2 f (broadcast_to s a) (broadcast_to s b)\<rparr>)"

definition unop :: "('a \<Rightarrow> 'b) \<Rightarrow> 'a tensor \<Rightarrow> 'b tensor" where
  "unop f a = \<lparr>shape = shape a, data = map f (data a)\<rparr>"

definition tsum :: "fl tensor \<Rightarrow> fl tensor" where
  "tsum a = \<lparr>shape = [], data = [foldl fadd (Fin 0) (data a)]\<rparr>"

definition ones_like :: "'a tensor \<Rightarrow> fl tensor" where
  "ones_like a = \<lparr>shape = shape a, data = replicate (numel (shape a)) (Fin 1)\<rparr>"

text \<open>\<open>t.shape[0]\<close>\<close>

definition shape0 :: "'a tensor \<Rightarrow> error + nat" where
  "shape0 a = (case shape a of [] \<Rightarrow> Inl IndexError | n # _ \<Rightarrow> Inr n)"

text \<open>
  \<open>t[mask] = v\<close> for a boolean mask: the shape of the mask must be the beginning of the
  shape of \<open>t\<close>, and every true entry of the mask selects the block of \<open>t\<close> under it.
\<close>

fun fill :: "nat \<Rightarrow> bool list \<Rightarrow> 'a list \<Rightarrow> 'a \<Rightarrow> 'a list" where
  "fill c [] xs v = xs"
| "fill c (b # bs) xs v =
     (if b then replicate (length (take c xs)) v else take c xs) @ fill c bs (drop c xs) v"

definition mask_assign :: "'a tensor \<Rightarrow> bool tensor \<Rightarrow> 'a \<Rightarrow> error + 'a tensor" where
  "mask_assign t m v =
     (if take (length (shape m)) (shape t) = shape m
      then Inr (t\<lparr>data := fill (numel (drop (length (shape m)) (shape t))) (data m) (data t) v\<rparr>)
      else Inl IndexError)"

section \<open>Objects and the store\<close>

text \<open>
  Python variables hold references to tensor objects. The store is the list of the tensor
  objects created so far and a reference is a position in it. Every torch or numpy
  operation of the notebooks creates a new object for its result; only the indexed
  assignment \<open>t[mask] = v\<close> writes into an existing one. A program takes the store and
  returns an error, or a result and the new store.
\<close>

type_synonym ref = nat
type_synonym store = "fl tensor list"
type_synonym 'a prog = "store \<Rightarrow> error + ('a \<times> store)"

definition ret :: "'a \<Rightarrow> 'a prog" where
  "ret x h = Inr (x, h)"

definition raise :: "error \<Rightarrow> 'a prog" where
  "raise e h = Inl e"

definition bnd :: "'a prog \<Rightarrow> ('a \<Rightarrow> 'b prog) \<Rightarrow> 'b prog" where
  "bnd m f h = (case m h of Inl e \<Rightarrow> Inl e | Inr (x, h') \<Rightarrow> f x h')"

definition lift :: "error + 'a \<Rightarrow> 'a prog" where
  "lift r = (case r of Inl e \<Rightarrow> raise e | Inr x \<Rightarrow> ret x)"

definition new :: "fl tensor \<Rightarrow> ref prog" where
  "new t h = Inr (length h, h @ [t])"

definition get :: "ref \<Rightarrow> fl tensor prog" where
  "get r h = (if r < length h then Inr (h ! r, h) else Inl Dangling)"

definition put :: "ref \<Rightarrow> fl tensor \<Rightarrow> unit prog" where
  "put r t h = (if r < length h then Inr ((), h[r := t]) else Inl Dangling)"

subsection \<open>The operations of torch and numpy that the notebooks call\<close>

definition t_unop :: "(fl \<Rightarrow> fl) \<Rightarrow> ref \<Rightarrow> ref prog" where
  "t_unop f a = bnd (get a) (\<lambda>va. new (unop f va))"

definition t_binop :: "error \<Rightarrow> (fl \<Rightarrow> fl \<Rightarrow> fl) \<Rightarrow> ref \<Rightarrow> ref \<Rightarrow> ref prog" where
  "t_binop e f a b =
     bnd (get a) (\<lambda>va. bnd (get b) (\<lambda>vb. bnd (lift (binop e f va vb)) new))"

text \<open>\<open>a * b\<close>, \<open>a - b\<close>, \<open>a / b\<close> of two torch tensors; \<open>a * b\<close> of two numpy arrays.\<close>

definition t_mul :: "ref \<Rightarrow> ref \<Rightarrow> ref prog" where
  "t_mul = t_binop RuntimeError fmul"

definition t_sub :: "ref \<Rightarrow> ref \<Rightarrow> ref prog" where
  "t_sub = t_binop RuntimeError fsub"

definition t_div :: "ref \<Rightarrow> ref \<Rightarrow> ref prog" where
  "t_div = t_binop RuntimeError fdiv"

definition np_mul :: "ref \<Rightarrow> ref \<Rightarrow> ref prog" where
  "np_mul = t_binop ValueError fmul"

text \<open>\<open>-a\<close>, \<open>log(a)\<close>, \<open>a.clamp(min=lo)\<close>, \<open>clamp(a, lo, hi)\<close>, \<open>a.sum()\<close>, \<open>ones_like(a)\<close>, \<open>a.clone()\<close>\<close>

definition t_neg :: "ref \<Rightarrow> ref prog" where
  "t_neg = t_unop fneg"

definition t_log :: "ref \<Rightarrow> ref prog" where
  "t_log = t_unop flog"

definition t_clamp_min :: "ref \<Rightarrow> real \<Rightarrow> ref prog" where
  "t_clamp_min a lo = t_unop (fclamp_min lo) a"

definition t_clamp :: "ref \<Rightarrow> real \<Rightarrow> real \<Rightarrow> ref prog" where
  "t_clamp a lo hi = t_unop (fclamp lo hi) a"

definition t_sum :: "ref \<Rightarrow> ref prog" where
  "t_sum a = bnd (get a) (\<lambda>va. new (tsum va))"

definition t_ones_like :: "ref \<Rightarrow> ref prog" where
  "t_ones_like a = bnd (get a) (\<lambda>va. new (ones_like va))"

definition t_clone :: "ref \<Rightarrow> ref prog" where
  "t_clone a = bnd (get a) new"

text \<open>
  \<open>torch.tensor(a, dtype = d)\<close> copies \<open>a\<close> and converts the copy to the type \<open>d\<close>. The
  entries of this model carry no type of their own, so the element type that the source
  reads from a tensor (\<open>y_true.dtype\<close>) is a parameter of the function that reads it. Two
  kinds of element type are told apart: a floating-point type keeps a value as it is
  (up to rounding), an integer type drops the fractional part of a finite value, rounding
  towards zero, and refuses an infinity and NaN with a \<open>RuntimeError\<close> (the value cannot
  be converted). The range of the integer type is not modelled.
\<close>

datatype dtype = Floating | Integral

definition trunc :: "real \<Rightarrow> real" where
  "trunc a = (if 0 \<le> a then of_int \<lfloor>a\<rfloor> else of_int \<lceil>a\<rceil>)"

definition as_dtype :: "dtype \<Rightarrow> fl tensor \<Rightarrow> error + fl tensor" where
  "as_dtype d a =
     (case d of
        Floating \<Rightarrow> Inr a
      | Integral \<Rightarrow>
          if list_all is_finite (data a) then Inr (unop (\<lambda>x. Fin (trunc (real_of_fl x))) a)
          else Inl RuntimeError)"

definition t_tensor :: "ref \<Rightarrow> dtype \<Rightarrow> ref prog" where
  "t_tensor a d = bnd (get a) (\<lambda>va. bnd (lift (as_dtype d va)) new)"

text \<open>A tensor and a Python number: \<open>c * a\<close>, \<open>a * c\<close>, \<open>a / n\<close>.\<close>

definition t_rmul_scalar :: "fl \<Rightarrow> ref \<Rightarrow> ref prog" where
  "t_rmul_scalar c a = t_unop (\<lambda>x. fmul x c) a"

definition t_mul_scalar :: "ref \<Rightarrow> fl \<Rightarrow> ref prog" where
  "t_mul_scalar a c = t_unop (\<lambda>x. fmul x c) a"

definition t_div_scalar :: "ref \<Rightarrow> nat \<Rightarrow> ref prog" where
  "t_div_scalar a n = t_unop (\<lambda>x. fdiv x (Fin (real n))) a"

text \<open>
  \<open>a < c\<close> gives a boolean tensor, a temporary that nothing else refers to; it is kept as
  a value outside the store.
\<close>

definition t_lt :: "ref \<Rightarrow> real \<Rightarrow> bool tensor prog" where
  "t_lt a c = bnd (get a) (\<lambda>va. ret (unop (\<lambda>x. flt x c) va))"

text \<open>\<open>t[m] = v\<close> writes into the object \<open>t\<close> itself.\<close>

definition t_mask_assign :: "ref \<Rightarrow> bool tensor \<Rightarrow> fl \<Rightarrow> unit prog" where
  "t_mask_assign t m v = bnd (get t) (\<lambda>vt. bnd (lift (mask_assign vt m v)) (put t))"

definition t_shape0 :: "ref \<Rightarrow> nat prog" where
  "t_shape0 a = bnd (get a) (\<lambda>va. lift (shape0 va))"

section \<open>The custom autograd functions\<close>

text \<open>
  The context object \<open>ctx\<close> of one forward/backward pair: the tensors stored with
  \<open>save_for_backward\<close> and the attribute \<open>ctx.constant\<close>, the field \<open>ctx_constant\<close>
  (unset until assigned). \<open>backward\<close> returns one entry for each input of \<open>forward\<close>:
  a tensor, or Python's \<open>None\<close>.
\<close>

record ctx =
  saved_tensors :: "ref list"
  ctx_constant :: "fl option"

definition empty_ctx :: ctx where
  "empty_ctx = \<lparr>saved_tensors = [], ctx_constant = None\<rparr>"

subsection \<open>MyReLU\<close>

definition MyReLU_forward :: "ctx \<Rightarrow> ref \<Rightarrow> (ctx \<times> ref) prog" where
  "MyReLU_forward c inputs =
     bnd (t_clamp_min inputs 0) (\<lambda>out.
     ret (c\<lparr>saved_tensors := [inputs]\<rparr>, out))"

definition MyReLU_backward :: "ctx \<Rightarrow> ref \<Rightarrow> ref option list prog" where
  "MyReLU_backward c grad_output =
     (case saved_tensors c of
        [inputs] \<Rightarrow>
          bnd (t_clone grad_output) (\<lambda>grad_input.
          bnd (t_lt inputs 0) (\<lambda>m.
          bnd (t_mask_assign grad_input m (Fin 0)) (\<lambda>_.
          ret [Some grad_input])))
      | _ \<Rightarrow> raise ValueError)"

subsection \<open>MatrixSum\<close>

definition MatrixSum_forward :: "ctx \<Rightarrow> ref \<Rightarrow> (ctx \<times> ref) prog" where
  "MatrixSum_forward c inputs =
     bnd (t_sum inputs) (\<lambda>out.
     ret (c\<lparr>saved_tensors := [inputs]\<rparr>, out))"

definition MatrixSum_backward :: "ctx \<Rightarrow> ref \<Rightarrow> ref option list prog" where
  "MatrixSum_backward c grad_outputs =
     (case saved_tensors c of
        [inputs] \<Rightarrow>
          bnd (t_ones_like inputs) (\<lambda>dsumdx.
          bnd (t_mul grad_outputs dsumdx) (\<lambda>dinputs.
          ret [Some dinputs]))
      | _ \<Rightarrow> raise ValueError)"

subsection \<open>MySub\<close>

text \<open>
  \<open>forward(inp, other, alpha = 1)\<close> takes no context; \<open>alpha\<close> is a Python number and
  \<open>None\<close> below stands for the omitted argument. \<open>setup_context\<close> receives the tuple of
  the inputs, here a list of tensors and numbers, and unpacks it into three names.
\<close>

datatype arg = T ref | S fl

definition MySub_forward :: "ref \<Rightarrow> ref \<Rightarrow> fl option \<Rightarrow> ref prog" where
  "MySub_forward inp other alpha_opt =
     (let alpha = (case alpha_opt of None \<Rightarrow> Fin 1 | Some a \<Rightarrow> a) in
      bnd (t_rmul_scalar alpha other) (\<lambda>t.
      bnd (t_sub inp t) (\<lambda>output.
      ret output)))"

definition MySub_setup_context :: "ctx \<Rightarrow> arg list \<Rightarrow> ref \<Rightarrow> ctx prog" where
  "MySub_setup_context c inp output =
     (case inp of
        [T inp', T other, S alpha] \<Rightarrow>
          ret (c\<lparr>saved_tensors := [inp', other], ctx_constant := Some alpha\<rparr>)
      | _ \<Rightarrow> raise ValueError)"

definition MySub_backward :: "ctx \<Rightarrow> ref \<Rightarrow> ref option list prog" where
  "MySub_backward c grad_out =
     (case saved_tensors c of
        [inputs, other] \<Rightarrow>
          (case ctx_constant c of
             None \<Rightarrow> raise AttributeError
           | Some alpha \<Rightarrow>
               bnd (t_ones_like inputs) (\<lambda>ones_inputs.
               bnd (t_mul grad_out ones_inputs) (\<lambda>dinputs.
               bnd (t_mul_scalar grad_out (fneg alpha)) (\<lambda>scaled.
               bnd (t_ones_like other) (\<lambda>ones_other.
               bnd (t_mul scaled ones_other) (\<lambda>dother.
               ret [Some dinputs, Some dother, None]))))))
      | _ \<Rightarrow> raise ValueError)"

text \<open>
  \<open>MySub.apply\<close> is the framework's: for a function that defines \<open>setup_context\<close> it
  fills in the default arguments of \<open>forward\<close>, calls \<open>forward\<close>, and then
  \<open>setup_context\<close> with a fresh context, the tuple of the arguments and the output.
\<close>

definition MySub_apply :: "ref \<Rightarrow> ref \<Rightarrow> fl option \<Rightarrow> (ctx \<times> ref) prog" where
  "MySub_apply inp other alpha_opt =
     (let alpha = (case alpha_opt of None \<Rightarrow> Fin 1 | Some a \<Rightarrow> a) in
      bnd (MySub_forward inp other (Some alpha)) (\<lambda>output.
      bnd (MySub_setup_context empty_ctx [T inp, T other, S alpha] output) (\<lambda>c.
      ret (c, output))))"

subsection \<open>NonDiffCrossEntropy\<close>

definition eps :: real where
  "eps = 1 / 10000000"

text \<open>
  \<open>y.detach().numpy()\<close> is an array on the memory of \<open>y\<close>: the same object of the store.
  \<open>np.clip\<close>, \<open>np.log\<close>, negation, product and \<open>np.sum\<close> return new arrays, and
  \<open>torch.tensor\<close> copies its argument and converts it to the element type of \<open>y_true\<close>,
  the parameter \<open>y_true_dtype\<close>.
\<close>

definition nondiff_crossentropyloss :: "dtype \<Rightarrow> ref \<Rightarrow> ref \<Rightarrow> ref prog" where
  "nondiff_crossentropyloss y_true_dtype y_true y_pred =
     (let y_true_numpy = y_true; y_pred_numpy = y_pred in
      bnd (t_clamp y_pred_numpy eps (1 - eps)) (\<lambda>y_pred_numpy_clipped.
      bnd (t_neg y_true_numpy) (\<lambda>neg_true.
      bnd (t_log y_pred_numpy_clipped) (\<lambda>logs.
      bnd (np_mul neg_true logs) (\<lambda>prods.
      bnd (t_sum prods) (\<lambda>np_loss.
      bnd (t_tensor np_loss y_true_dtype) (\<lambda>loss_tensor.
      bnd (t_shape0 y_true) (\<lambda>n.
      bnd (t_div_scalar loss_tensor n) (\<lambda>loss.
      ret loss)))))))))"

definition NonDiffCrossEntropy_forward ::
  "dtype \<Rightarrow> ctx \<Rightarrow> ref \<Rightarrow> ref \<Rightarrow> (ctx \<times> ref) prog" where
  "NonDiffCrossEntropy_forward y_true_dtype c y_true y_pred =
     bnd (nondiff_crossentropyloss y_true_dtype y_true y_pred) (\<lambda>out.
     ret (c\<lparr>saved_tensors := [y_true, y_pred]\<rparr>, out))"

definition NonDiffCrossEntropy_backward :: "ctx \<Rightarrow> ref \<Rightarrow> ref option list prog" where
  "NonDiffCrossEntropy_backward c grad_output =
     (case saved_tensors c of
        [y_true, y_pred] \<Rightarrow>
          bnd (t_shape0 y_true) (\<lambda>N.
          bnd (t_neg y_true) (\<lambda>neg_true.
          bnd (t_div neg_true y_pred) (\<lambda>quot.
          bnd (t_div_scalar quot N) (\<lambda>dy_pred.
          bnd (t_mul dy_pred grad_output) (\<lambda>res.
          ret [None, Some res])))))
      | _ \<Rightarrow> raise ValueError)"

subsection \<open>CustomLoss\<close>

definition CustomLoss_forward :: "ctx \<Rightarrow> ref \<Rightarrow> ref \<Rightarrow> (ctx \<times> ref) prog" where
  "CustomLoss_forward c y_pred y_true =
     bnd (t_clamp y_pred eps (1 - eps)) (\<lambda>y_pred_clipped.
     bnd (t_neg y_true) (\<lambda>neg_true.
     bnd (t_log y_pred_clipped) (\<lambda>logs.
     bnd (t_mul neg_true logs) (\<lambda>prods.
     bnd (t_sum prods) (\<lambda>total.
     bnd (t_shape0 y_true) (\<lambda>n.
     bnd (t_div_scalar total n) (\<lambda>loss.
     ret (c\<lparr>saved_tensors := [y_pred, y_true]\<rparr>, loss))))))))"

definition CustomLoss_backward :: "ctx \<Rightarrow> ref \<Rightarrow> ref option list prog" where
  "CustomLoss_backward c grad_output =
     (case saved_tensors c of
        [y_pred, y_true] \<Rightarrow>
          bnd (t_shape0 y_true) (\<lambda>N.
          bnd (t_neg y_true) (\<lambda>neg_true.
          bnd (t_div neg_true y_pred) (\<lambda>quot.
          bnd (t_div_scalar quot N) (\<lambda>dy_pred.
          bnd (t_mul grad_output dy_pred) (\<lambda>res.
          ret [Some res, None])))))
      | _ \<Rightarrow> raise ValueError)"

subsection \<open>The five functions behind one interface\<close>

text \<open>
  The framework calls every function the same way: \<open>F.apply(args)\<close> runs \<open>forward\<close> with
  a fresh context, and later \<open>backward\<close> runs with that context and the gradient of the
  output. \<open>n_inputs\<close> is the number of parameters of \<open>forward\<close>, the context apart.
  \<open>fn_apply\<close> is the call on floating-point tensors, as the notebooks make it (their
  tensors are \<open>torch.double\<close>); a call of \<open>NonDiffCrossEntropy\<close> with labels of an integer
  type is \<open>NonDiffCrossEntropy_forward Integral\<close>.
\<close>

datatype fn = MyReLU | MatrixSum | MySub | NonDiffCrossEntropy | CustomLoss

fun n_inputs :: "fn \<Rightarrow> nat" where
  "n_inputs MyReLU = 1"
| "n_inputs MatrixSum = 1"
| "n_inputs MySub = 3"
| "n_inputs NonDiffCrossEntropy = 2"
| "n_inputs CustomLoss = 2"

fun fn_apply :: "fn \<Rightarrow> arg list \<Rightarrow> (ctx \<times> ref) prog" where
  "fn_apply MyReLU [T inputs] = MyReLU_forward empty_ctx inputs"
| "fn_apply MatrixSum [T inputs] = MatrixSum_forward empty_ctx inputs"
| "fn_apply MySub [T inp, T other] = MySub_apply inp other None"
| "fn_apply MySub [T inp, T other, S alpha] = MySub_apply inp other (Some alpha)"
| "fn_apply NonDiffCrossEntropy [T y_true, T y_pred] =
     NonDiffCrossEntropy_forward Floating empty_ctx y_true y_pred"
| "fn_apply CustomLoss [T y_pred, T y_true] = CustomLoss_forward empty_ctx y_pred y_true"
| "fn_apply _ _ = raise TypeError"

fun fn_backward :: "fn \<Rightarrow> ctx \<Rightarrow> ref \<Rightarrow> ref option list prog" where
  "fn_backward MyReLU = MyReLU_backward"
| "fn_backward MatrixSum = MatrixSum_backward"
| "fn_backward MySub = MySub_backward"
| "fn_backward NonDiffCrossEntropy = NonDiffCrossEntropy_backward"
| "fn_backward CustomLoss = CustomLoss_backward"

subsection \<open>The values the programs compute\<close>

text \<open>
  The tensors that the cross-entropy code creates, as a function of the values of
  \<open>y_true\<close> and \<open>y_pred\<close>: \<open>ce_loss\<close> for the forward pass (the last one is the loss),
  \<open>ce_grad\<close> for the backward pass before the product with \<open>grad_output\<close>. The lemmas
  \<open>CustomLoss_forward_run\<close> to \<open>NonDiffCrossEntropy_backward_run\<close> below prove that the
  programs above create exactly these. \<open>alpha_of\<close> is the value of \<open>alpha\<close> after the
  default is filled in.
\<close>

definition alpha_of :: "fl option \<Rightarrow> fl" where
  "alpha_of ao = (case ao of None \<Rightarrow> Fin 1 | Some a \<Rightarrow> a)"

definition ce_loss :: "error \<Rightarrow> fl tensor \<Rightarrow> fl tensor \<Rightarrow> error + (fl tensor list)" where
  "ce_loss e yt yp =
     (case binop e fmul (unop fneg yt) (unop flog (unop (fclamp eps (1 - eps)) yp)) of
        Inl err \<Rightarrow> Inl err
      | Inr prods \<Rightarrow>
         (case shape0 yt of
            Inl err \<Rightarrow> Inl err
          | Inr n \<Rightarrow> Inr [unop (fclamp eps (1 - eps)) yp, unop fneg yt,
                          unop flog (unop (fclamp eps (1 - eps)) yp), prods, tsum prods,
                          unop (\<lambda>x. fdiv x (Fin (real n))) (tsum prods)]))"

definition ce_grad :: "fl tensor \<Rightarrow> fl tensor \<Rightarrow> error + (fl tensor list)" where
  "ce_grad yt yp =
     (case shape0 yt of
        Inl e \<Rightarrow> Inl e
      | Inr n \<Rightarrow>
         (case binop RuntimeError fdiv (unop fneg yt) yp of
            Inl e \<Rightarrow> Inl e
          | Inr q \<Rightarrow> Inr [unop fneg yt, q, unop (\<lambda>x. fdiv x (Fin (real n))) q]))"

text \<open>
  \<open>ce_dy g N y_true y_pred\<close> is the gradient as the specification writes it: the tensor of
  the shape of \<open>y_pred\<close> with the entries \<open>g * (-y_true / (y_pred * N))\<close>. \<open>is_ce\<close> lists the
  two cross-entropy functions with the order of their arguments: \<open>CustomLoss\<close> takes
  \<open>(y_pred, y_true)\<close> and \<open>NonDiffCrossEntropy\<close> takes \<open>(y_true, y_pred)\<close>.
\<close>

definition ce_dy :: "fl \<Rightarrow> nat \<Rightarrow> fl tensor \<Rightarrow> fl tensor \<Rightarrow> fl tensor" where
  "ce_dy gv n yt yp =
     \<lparr>shape = shape yp,
      data = map2 (\<lambda>t p. fmul gv (fdiv (fneg t) (fmul p (Fin (real n))))) (data yt) (data yp)\<rparr>"

definition is_ce :: "fn \<Rightarrow> arg list \<Rightarrow> ref \<Rightarrow> ref \<Rightarrow> bool" where
  "is_ce f args yt yp =
     (f = CustomLoss \<and> args = [T yp, T yt] \<or> f = NonDiffCrossEntropy \<and> args = [T yt, T yp])"

text \<open>
  The tensors among the arguments of a call, and the shape to which a list of shapes
  broadcasts together.
\<close>

fun tensor_args :: "arg list \<Rightarrow> ref list" where
  "tensor_args [] = []"
| "tensor_args (T x # as) = x # tensor_args as"
| "tensor_args (S c # as) = tensor_args as"

fun broadcast_all :: "nat list list \<Rightarrow> nat list option" where
  "broadcast_all [] = Some []"
| "broadcast_all (s # ss) =
     (case broadcast_all ss of None \<Rightarrow> None | Some t \<Rightarrow> broadcast_shapes s t)"

subsection \<open>First-order behaviour of forward\<close>

text \<open>
  To compare \<open>backward\<close> with the derivative of \<open>forward\<close> in one argument:
  \<open>perturbed a j t\<close> is the tensor \<open>a\<close> with entry \<open>j\<close> replaced by the real number \<open>t\<close>;
  \<open>output_of m h\<close> is the list of the entries of the output of the forward call \<open>m\<close> run on
  the store \<open>h\<close>, as real numbers; \<open>forward_at f args h i x j t\<close> is the output of
  \<open>forward\<close> when argument \<open>i\<close>, the tensor \<open>x\<close>, is replaced by a new tensor, the copy of
  \<open>x\<close> with entry \<open>j\<close> set to \<open>t\<close>, and the other arguments stay what they are (also when
  one of them is the object \<open>x\<close> itself). \<open>weighted g ys\<close> is the sum of the \<open>g\<^sub>k * ys\<^sub>k\<close>, the
  scalar whose derivative in an input is what \<open>backward\<close> has to return for the upstream
  gradient \<open>g\<close>.

  \<open>applied_to G d\<close> is a gradient \<open>G\<close> applied to a change \<open>d\<close> of the input: the sum of
  the \<open>G\<^sub>k * d\<^sub>k\<close>, where \<open>d\<close> is first broadcast to the shape of \<open>G\<close>, as \<open>forward\<close>
  broadcasts the input. When \<open>G\<close> has the shape of the input this is the sum over the
  entries of the input; when \<open>forward\<close> has broadcast the input, it is the sum that the
  autograd engine forms when it reduces \<open>G\<close> to the shape of the input. \<open>unit_at a j\<close> is
  the change of \<open>a\<close> in entry \<open>j\<close> alone: 1 at entry \<open>j\<close> and 0 elsewhere. \<open>positions s a\<close>
  lists, for every entry of a tensor of shape \<open>s\<close> to which \<open>a\<close> is broadcast, the entry of
  \<open>a\<close> that it copies.
\<close>

definition perturbed :: "fl tensor \<Rightarrow> nat \<Rightarrow> real \<Rightarrow> fl tensor" where
  "perturbed a j t = a\<lparr>data := (data a)[j := Fin t]\<rparr>"

definition unit_at :: "fl tensor \<Rightarrow> nat \<Rightarrow> fl tensor" where
  "unit_at a j = \<lparr>shape = shape a, data = (replicate (length (data a)) (Fin 0))[j := Fin 1]\<rparr>"

definition output_of :: "(ctx \<times> ref) prog \<Rightarrow> store \<Rightarrow> real list" where
  "output_of m h =
     (case m h of
        Inl e \<Rightarrow> []
      | Inr ((c, out), h') \<Rightarrow> map real_of_fl (data (h' ! out)))"

definition forward_at :: "fn \<Rightarrow> arg list \<Rightarrow> store \<Rightarrow> nat \<Rightarrow> ref \<Rightarrow> nat \<Rightarrow> real \<Rightarrow> real list" where
  "forward_at f args h i x j t =
     output_of (fn_apply f (args[i := T (length h)])) (h @ [perturbed (h ! x) j t])"

definition weighted :: "real list \<Rightarrow> real list \<Rightarrow> real" where
  "weighted g ys = sum_list (map2 (*) g ys)"

definition applied_to :: "fl tensor \<Rightarrow> fl tensor \<Rightarrow> real" where
  "applied_to G d =
     weighted (map real_of_fl (data G)) (map real_of_fl (broadcast_to (shape G) d))"

definition positions :: "nat list \<Rightarrow> 'a tensor \<Rightarrow> nat list" where
  "positions s a = broadcast_to s \<lparr>shape = shape a, data = [0..<length (data a)]\<rparr>"

section \<open>Properties of the tensor operations\<close>

lemma broadcast_rev_same: "broadcast_rev xs xs = Some xs"
  by (induction xs) auto

lemma broadcast_rev_Nil2: "broadcast_rev xs [] = Some xs"
  by (cases xs) auto

lemma broadcast_shapes_same: "broadcast_shapes s s = Some s"
  by (simp add: broadcast_shapes_def broadcast_rev_same)

lemma broadcast_shapes_Nil1: "broadcast_shapes [] s = Some s"
  by (simp add: broadcast_shapes_def)

lemma broadcast_shapes_Nil2: "broadcast_shapes s [] = Some s"
  by (simp add: broadcast_shapes_def broadcast_rev_Nil2)

lemma pad_same: "pad (length s) s = s"
  by (simp add: pad_def)

lemma pad_Nil: "pad n [] = replicate n 1"
  by (simp add: pad_def)

lemma numel_Nil: "numel [] = 1" by (simp add: numel_def)
lemma numel_Cons: "numel (n # s) = n * numel s" by (simp add: numel_def)
lemma numel_ones: "numel (replicate k (Suc 0)) = 1" by (induction k) (simp_all add: numel_def)

lemma concat_chunks: "length xs = k * n \<Longrightarrow> concat (chunks n k xs) = xs"
proof (induction k arbitrary: xs)
  case 0 then show ?case by (simp add: chunks_def)
next
  case (Suc k)
  have len: "length (take (k * n) xs) = k * n" using Suc.prems by simp
  have "chunks n (Suc k) xs = chunks n k xs @ [take n (drop (k * n) xs)]"
    by (simp add: chunks_def)
  moreover have "chunks n k xs = chunks n k (take (k * n) xs)"
    unfolding chunks_def
  proof (rule map_cong[OF refl])
    fix i assume "i \<in> set [0..<k]"
    then have "i < k" by simp
    then have "i * n + n \<le> k * n"
      by (metis Suc_leI mult_Suc mult_le_mono1 add.commute)
    then show "take n (drop (i * n) xs) = take n (drop (i * n) (take (k * n) xs))"
      by (simp add: drop_take take_take min_def)
  qed
  moreover have "take n (drop (k * n) xs) = drop (k * n) xs" using Suc.prems by simp
  ultimately show ?case using Suc.IH[OF len] by simp
qed

lemma length_chunk: "length xs = k * n \<Longrightarrow> c \<in> set (chunks n k xs) \<Longrightarrow> length c = n"
proof -
  assume a: "length xs = k * n" and "c \<in> set (chunks n k xs)"
  then obtain i where i: "i < k" "c = take n (drop (i * n) xs)" by (auto simp: chunks_def)
  then have "i * n + n \<le> k * n" by (metis Suc_leI mult_Suc mult_le_mono1 add.commute)
  with a i show ?thesis by simp
qed

lemma expand_same: "length xs = numel s \<Longrightarrow> expand s s xs = xs"
proof (induction s arbitrary: xs)
  case Nil then show ?case by simp
next
  case (Cons n s)
  have l: "length xs = n * numel s" using Cons.prems by (simp add: numel_Cons)
  have "map (expand s s) (chunks (numel s) n xs) = chunks (numel s) n xs"
    by (rule map_idI) (auto intro: Cons.IH dest: length_chunk[OF l])
  then show ?case using concat_chunks[OF l] by simp
qed

lemma concat_replicate_replicate: "concat (replicate n (replicate m x)) = replicate (n * m) x"
  by (induction n) (simp_all add: replicate_add)

lemma expand_scalar: "length s = k \<Longrightarrow> expand (replicate k 1) s [x] = replicate (numel s) x"
proof (induction s arbitrary: k)
  case Nil then show ?case by (simp add: numel_Nil)
next
  case (Cons n s)
  then obtain k' where k: "k = Suc k'" "length s = k'" by (cases k) auto
  have ih: "expand (replicate k' 1) s [x] = replicate (numel s) x" using Cons.IH k by simp
  show ?case
  proof (cases "n = 1")
    case True
    then show ?thesis using ih k by (simp add: chunks_def numel_ones numel_Cons)
  next
    case False
    then show ?thesis using ih k by (auto simp add: numel_Cons concat_replicate_replicate)
  qed
qed

lemma binop_same_shape:
  "wf a \<Longrightarrow> wf b \<Longrightarrow> shape a = shape b \<Longrightarrow>
   binop e f a b = Inr \<lparr>shape = shape a, data = map2 f (data a) (data b)\<rparr>"
  by (simp add: binop_def broadcast_shapes_same broadcast_to_def pad_same expand_same wf_def)

lemma broadcast_to_scalar:
  "shape a = [] \<Longrightarrow> data a = [x] \<Longrightarrow> broadcast_to s a = replicate (numel s) x"
  using expand_scalar[OF refl, of s x] by (simp add: broadcast_to_def pad_Nil)

lemma broadcast_to_same: "wf a \<Longrightarrow> broadcast_to (shape a) a = data a"
  by (simp add: broadcast_to_def pad_same expand_same wf_def)

lemma map2_replicate_left: "length ys = n \<Longrightarrow> map2 f (replicate n x) ys = map (f x) ys"
  by (induction ys arbitrary: n) auto

lemma map2_replicate_right: "length xs = n \<Longrightarrow> map2 f xs (replicate n y) = map (\<lambda>x. f x y) xs"
  by (induction xs arbitrary: n) auto

lemma binop_scalar_left:
  "shape a = [] \<Longrightarrow> data a = [x] \<Longrightarrow> wf b \<Longrightarrow>
   binop e f a b = Inr \<lparr>shape = shape b, data = map (f x) (data b)\<rparr>"
  by (simp add: binop_def broadcast_shapes_Nil1 broadcast_to_scalar broadcast_to_same
      map2_replicate_left wf_def)

lemma binop_scalar_right:
  "shape b = [] \<Longrightarrow> data b = [y] \<Longrightarrow> wf a \<Longrightarrow>
   binop e f a b = Inr \<lparr>shape = shape a, data = map (\<lambda>x. f x y) (data a)\<rparr>"
  by (simp add: binop_def broadcast_shapes_Nil2 broadcast_to_scalar broadcast_to_same
      map2_replicate_right wf_def)

lemma fmul_one: "fmul x (Fin 1) = x"
  by (cases x) (simp_all add: inf_signed_def)

lemma set_chunk: "c \<in> set (chunks n k xs) \<Longrightarrow> set c \<subseteq> set xs"
  by (auto simp: chunks_def dest: in_set_takeD in_set_dropD)

lemma set_expand: "set (expand s t xs) \<subseteq> set xs"
proof (induction s t xs rule: expand.induct)
  case (1 s ss t ts xs)
  show ?case
  proof (cases "s = t")
    case True
    then show ?thesis using 1(1) set_chunk[of _ "numel ss" s xs] by fastforce
  next
    case False
    then show ?thesis using 1(2) by (cases t) auto
  qed
qed simp_all

lemma sum_list_const: "(\<And>x. x \<in> set xs \<Longrightarrow> f x = c) \<Longrightarrow> sum_list (map f xs) = length xs * (c::nat)"
  by (induction xs) auto

lemma length_chunks: "length (chunks n k xs) = k"
  by (simp add: chunks_def)

lemma length_expand:
  "fits s t \<Longrightarrow> length xs = numel s \<Longrightarrow> length (expand s t xs) = numel t"
  unfolding fits_def
proof (induction s t arbitrary: xs rule: list_all2_induct)
  case Nil
  then show ?case by simp
next
  case (Cons x s y t)
  show ?case
  proof (cases "x = y")
    case True
    have l: "length xs = y * numel s" using Cons.prems True by (simp add: numel_Cons)
    have "\<And>c. c \<in> set (chunks (numel s) y xs) \<Longrightarrow> length (expand s t c) = numel t"
      using Cons.IH length_chunk[OF l] by blast
    then have "sum_list (map (length \<circ> expand s t) (chunks (numel s) y xs)) = y * numel t"
      using sum_list_const[of "chunks (numel s) y xs" "length \<circ> expand s t" "numel t"]
      by (simp add: length_chunks)
    then show ?thesis using True by (simp add: length_concat numel_Cons comp_def)
  next
    case False
    then have x1: "x = 1" using Cons.hyps by simp
    then have "length xs = numel s" using Cons.prems by (simp add: numel_Cons)
    then have "length (expand s t xs) = numel t" by (rule Cons.IH)
    then show ?thesis using False x1 by (simp add: length_concat numel_Cons sum_list_replicate)
  qed
qed

lemma list_all2_ones: "list_all2 (\<lambda>x y. x = y \<or> x = Suc 0) (replicate (length ys) (Suc 0)) ys"
  by (induction ys) auto

lemma list_all2_same: "list_all2 (\<lambda>x y. x = y \<or> x = Suc 0) ys ys"
  by (induction ys) auto

lemma broadcast_rev_fits:
  "broadcast_rev xs ys = Some zs \<Longrightarrow>
   list_all2 (\<lambda>x y. x = y \<or> x = Suc 0) (xs @ replicate (length zs - length xs) (Suc 0)) zs \<and>
   list_all2 (\<lambda>x y. x = y \<or> x = Suc 0) (ys @ replicate (length zs - length ys) (Suc 0)) zs"
proof (induction xs ys arbitrary: zs rule: broadcast_rev.induct)
  case (1 ys)
  then show ?case by (auto simp: list_all2_ones list_all2_same)
next
  case (2 x xs)
  then show ?case using list_all2_ones[of "x # xs"] list_all2_same[of "x # xs"] by auto
next
  case (3 x xs y ys)
  then show ?case by (auto split: if_splits)
qed

lemma fits_pad:
  assumes "broadcast_shapes a b = Some s"
  shows "fits (pad (length s) a) s" "fits (pad (length s) b) s"
proof -
  from assms obtain zs where z: "broadcast_rev (rev a) (rev b) = Some zs" "s = rev zs"
    by (auto simp: broadcast_shapes_def)
  from broadcast_rev_fits[OF z(1)]
  have "list_all2 (\<lambda>x y. x = y \<or> x = Suc 0) (rev (pad (length s) a)) (rev s)"
    "list_all2 (\<lambda>x y. x = y \<or> x = Suc 0) (rev (pad (length s) b)) (rev s)"
    using z(2) by (simp_all add: pad_def)
  then show "fits (pad (length s) a) s" "fits (pad (length s) b) s"
    by (simp_all add: fits_def list_all2_rev)
qed

lemma numel_pad: "numel (pad n s) = numel s"
  by (simp add: pad_def numel_def)

lemma length_broadcast_to_left:
  "wf a \<Longrightarrow> broadcast_shapes (shape a) sb = Some s \<Longrightarrow> length (broadcast_to s a) = numel s"
  by (simp add: broadcast_to_def length_expand fits_pad(1) numel_pad wf_def)

lemma length_broadcast_to_right:
  "wf b \<Longrightarrow> broadcast_shapes sa (shape b) = Some s \<Longrightarrow> length (broadcast_to s b) = numel s"
  by (simp add: broadcast_to_def length_expand fits_pad(2) numel_pad wf_def)

lemma broadcast_rev_absorb:
  "broadcast_rev xs ys = Some zs \<Longrightarrow>
   broadcast_rev zs xs = Some zs \<and> broadcast_rev zs ys = Some zs"
proof (induction xs ys arbitrary: zs rule: broadcast_rev.induct)
  case (1 ys)
  then show ?case by (simp add: broadcast_rev_Nil2 broadcast_rev_same)
next
  case (2 x xs)
  then show ?case using broadcast_rev_same[of "x # xs"] by (auto simp: broadcast_rev_Nil2)
next
  case (3 x xs y ys)
  then show ?case by (auto split: if_splits)
qed

lemma broadcast_shapes_absorb:
  assumes "broadcast_shapes a b = Some s"
  shows "broadcast_shapes s a = Some s" "broadcast_shapes s b = Some s"
  using assms broadcast_rev_absorb[of "rev a" "rev b"]
  by (auto simp: broadcast_shapes_def)

lemma replicate_eqI: "length xs = n \<Longrightarrow> set xs \<subseteq> {x} \<Longrightarrow> xs = replicate n x"
  by (induction xs arbitrary: n) auto

lemma broadcast_to_ones_like:
  assumes "broadcast_shapes sa (shape b) = Some s"
  shows "broadcast_to s (ones_like b) = replicate (numel s) (Fin 1)"
proof (rule replicate_eqI)
  show "length (broadcast_to s (ones_like b)) = numel s"
    using assms length_broadcast_to_right[of "ones_like b" sa s]
    by (simp add: wf_def ones_like_def)
  show "set (broadcast_to s (ones_like b)) \<subseteq> {Fin 1}"
    using set_expand[of "pad (length s) (shape b)" s "replicate (numel (shape b)) (Fin 1)"]
    by (auto simp: broadcast_to_def ones_like_def)
qed

lemma binop_mul_ones_like:
  assumes "wf g" "broadcast_shapes (shape g) (shape b) = Some s"
  shows "binop e fmul g (ones_like b) = Inr \<lparr>shape = s, data = broadcast_to s g\<rparr>"
proof -
  have "shape (ones_like b) = shape b" by (simp add: ones_like_def)
  moreover have "map2 fmul (broadcast_to s g) (replicate (numel s) (Fin 1)) = broadcast_to s g"
    using length_broadcast_to_left[OF assms]
    by (simp add: map2_replicate_right fmul_one)
  ultimately show ?thesis using assms(2)
    by (simp add: binop_def broadcast_to_ones_like[OF assms(2)])
qed

section \<open>Running the programs\<close>

lemmas prog_defs = bnd_def ret_def raise_def lift_def new_def get_def put_def
lemmas op_defs = t_unop_def t_binop_def t_mul_def t_sub_def t_div_def np_mul_def t_neg_def t_log_def
  t_clamp_min_def t_clamp_def t_sum_def t_ones_like_def t_clone_def t_rmul_scalar_def t_mul_scalar_def
  t_div_scalar_def t_lt_def t_mask_assign_def t_shape0_def

lemma MyReLU_forward_run:
  "x < length h \<Longrightarrow>
   MyReLU_forward c x h =
     Inr ((c\<lparr>saved_tensors := [x]\<rparr>, length h), h @ [unop (fclamp_min 0) (h ! x)])"
  by (simp add: MyReLU_forward_def prog_defs op_defs)

lemma MyReLU_backward_run:
  assumes "saved_tensors c = [x]" "x < length h" "g < length h"
  shows "MyReLU_backward c g h =
     (case mask_assign (h ! g) (unop (\<lambda>v. flt v 0) (h ! x)) (Fin 0) of
        Inl e \<Rightarrow> Inl e
      | Inr t \<Rightarrow> Inr ([Some (length h)], h @ [t]))"
  using assms
  by (simp add: MyReLU_backward_def prog_defs op_defs nth_append split: sum.splits)

lemma MatrixSum_forward_run:
  "x < length h \<Longrightarrow>
   MatrixSum_forward c x h = Inr ((c\<lparr>saved_tensors := [x]\<rparr>, length h), h @ [tsum (h ! x)])"
  by (simp add: MatrixSum_forward_def prog_defs op_defs)

lemma MatrixSum_backward_run:
  assumes "saved_tensors c = [x]" "x < length h" "g < length h"
  shows "MatrixSum_backward c g h =
     (case binop RuntimeError fmul (h ! g) (ones_like (h ! x)) of
        Inl e \<Rightarrow> Inl e
      | Inr r \<Rightarrow> Inr ([Some (Suc (length h))], h @ [ones_like (h ! x), r]))"
  using assms
  by (simp add: MatrixSum_backward_def prog_defs op_defs nth_append split: sum.splits)

lemma MySub_apply_run:
  assumes "a < length h" "b < length h"
  shows "MySub_apply a b ao h =
     (case binop RuntimeError fsub (h ! a) (unop (\<lambda>x. fmul x (alpha_of ao)) (h ! b)) of
        Inl e \<Rightarrow> Inl e
      | Inr t \<Rightarrow> Inr ((\<lparr>saved_tensors = [a, b], ctx_constant = Some (alpha_of ao)\<rparr>, Suc (length h)),
                     h @ [unop (\<lambda>x. fmul x (alpha_of ao)) (h ! b), t]))"
  using assms
  by (simp add: MySub_apply_def MySub_forward_def MySub_setup_context_def empty_ctx_def alpha_of_def
      prog_defs op_defs nth_append Let_def split: sum.splits option.splits)

lemma MySub_backward_run:
  assumes "saved_tensors c = [a, b]" "ctx_constant c = Some alpha"
    "a < length h" "b < length h" "g < length h"
  shows "MySub_backward c g h =
     (case binop RuntimeError fmul (h ! g) (ones_like (h ! a)) of
        Inl e \<Rightarrow> Inl e
      | Inr d1 \<Rightarrow>
         (case binop RuntimeError fmul (unop (\<lambda>x. fmul x (fneg alpha)) (h ! g)) (ones_like (h ! b)) of
            Inl e \<Rightarrow> Inl e
          | Inr d2 \<Rightarrow> Inr ([Some (length h + 1), Some (length h + 4), None],
                h @ [ones_like (h ! a), d1, unop (\<lambda>x. fmul x (fneg alpha)) (h ! g),
                     ones_like (h ! b), d2])))"
  using assms
  by (simp add: MySub_backward_def prog_defs op_defs nth_append split: sum.splits)


lemma CustomLoss_forward_run:
  assumes "yp < length h" "yt < length h"
  shows "CustomLoss_forward c yp yt h =
     (case ce_loss RuntimeError (h ! yt) (h ! yp) of
        Inl e \<Rightarrow> Inl e
      | Inr ts \<Rightarrow> Inr ((c\<lparr>saved_tensors := [yp, yt]\<rparr>, length h + 5), h @ ts))"
proof (cases "binop RuntimeError fmul (unop fneg (h ! yt))
                (unop flog (unop (fclamp eps (1 - eps)) (h ! yp)))")
  case (Inl err)
  then show ?thesis using assms
    by (simp add: CustomLoss_forward_def ce_loss_def prog_defs op_defs nth_append)
next
  case (Inr prods)
  show ?thesis
  proof (cases "shape0 (h ! yt)")
    case (Inl err)
    then show ?thesis using assms Inr
      by (simp add: CustomLoss_forward_def ce_loss_def prog_defs op_defs nth_append)
  next
    case (Inr n)
    then show ?thesis using assms \<open>binop _ _ _ _ = Inr prods\<close>
      by (simp add: CustomLoss_forward_def ce_loss_def prog_defs op_defs nth_append)
  qed
qed

lemma NonDiffCrossEntropy_forward_run:
  assumes "yp < length h" "yt < length h"
  shows "NonDiffCrossEntropy_forward Floating c yt yp h =
     (case ce_loss ValueError (h ! yt) (h ! yp) of
        Inl e \<Rightarrow> Inl e
      | Inr ts \<Rightarrow> Inr ((c\<lparr>saved_tensors := [yt, yp]\<rparr>, length h + 6),
                      h @ take 5 ts @ [ts ! 4, ts ! 5]))"
proof (cases "binop ValueError fmul (unop fneg (h ! yt))
                (unop flog (unop (fclamp eps (1 - eps)) (h ! yp)))")
  case (Inl err)
  then show ?thesis using assms
    by (simp add: NonDiffCrossEntropy_forward_def nondiff_crossentropyloss_def ce_loss_def
        t_tensor_def as_dtype_def
        prog_defs op_defs nth_append Let_def)
next
  case (Inr prods)
  show ?thesis
  proof (cases "shape0 (h ! yt)")
    case (Inl err)
    then show ?thesis using assms Inr
      by (simp add: NonDiffCrossEntropy_forward_def nondiff_crossentropyloss_def ce_loss_def
        t_tensor_def as_dtype_def
        prog_defs op_defs nth_append Let_def)
  next
    case (Inr n)
    then show ?thesis using assms \<open>binop _ _ _ _ = Inr prods\<close>
      by (simp add: NonDiffCrossEntropy_forward_def nondiff_crossentropyloss_def ce_loss_def
        t_tensor_def as_dtype_def
        prog_defs op_defs nth_append Let_def)
  qed
qed

lemma CustomLoss_backward_run:
  assumes "saved_tensors c = [yp, yt]" "yp < length h" "yt < length h" "g < length h"
  shows "CustomLoss_backward c g h =
     (case ce_grad (h ! yt) (h ! yp) of
        Inl e \<Rightarrow> Inl e
      | Inr ts \<Rightarrow>
         (case binop RuntimeError fmul (h ! g) (ts ! 2) of
            Inl e \<Rightarrow> Inl e
          | Inr r \<Rightarrow> Inr ([Some (length h + 3), None], h @ ts @ [r])))"
proof (cases "shape0 (h ! yt)")
  case (Inl err)
  then show ?thesis using assms
    by (simp add: CustomLoss_backward_def ce_grad_def prog_defs op_defs nth_append)
next
  case n: (Inr n)
  show ?thesis
  proof (cases "binop RuntimeError fdiv (unop fneg (h ! yt)) (h ! yp)")
    case (Inl err)
    then show ?thesis using assms n
      by (simp add: CustomLoss_backward_def ce_grad_def prog_defs op_defs nth_append)
  next
    case q: (Inr q)
    show ?thesis
      using assms n q
      by (cases "binop RuntimeError fmul (h ! g) (unop (\<lambda>x. fdiv x (Fin (real n))) q)")
         (simp_all add: CustomLoss_backward_def ce_grad_def prog_defs op_defs nth_append)
  qed
qed

lemma NonDiffCrossEntropy_backward_run:
  assumes "saved_tensors c = [yt, yp]" "yp < length h" "yt < length h" "g < length h"
  shows "NonDiffCrossEntropy_backward c g h =
     (case ce_grad (h ! yt) (h ! yp) of
        Inl e \<Rightarrow> Inl e
      | Inr ts \<Rightarrow>
         (case binop RuntimeError fmul (ts ! 2) (h ! g) of
            Inl e \<Rightarrow> Inl e
          | Inr r \<Rightarrow> Inr ([None, Some (length h + 3)], h @ ts @ [r])))"
proof (cases "shape0 (h ! yt)")
  case (Inl err)
  then show ?thesis using assms
    by (simp add: NonDiffCrossEntropy_backward_def ce_grad_def prog_defs op_defs nth_append)
next
  case n: (Inr n)
  show ?thesis
  proof (cases "binop RuntimeError fdiv (unop fneg (h ! yt)) (h ! yp)")
    case (Inl err)
    then show ?thesis using assms n
      by (simp add: NonDiffCrossEntropy_backward_def ce_grad_def prog_defs op_defs nth_append)
  next
    case q: (Inr q)
    show ?thesis
      using assms n q
      by (cases "binop RuntimeError fmul (unop (\<lambda>x. fdiv x (Fin (real n))) q) (h ! g)")
         (simp_all add: NonDiffCrossEntropy_backward_def ce_grad_def prog_defs op_defs nth_append)
  qed
qed

section \<open>The claims\<close>

subsection \<open>C6: the gradient of MatrixSum\<close>

lemma wf_ones_like: "wf (ones_like a)"
  by (simp add: wf_def ones_like_def)

text \<open>
  Claim C6. \<open>MatrixSum.forward\<close> returns the sum of the entries of its input \<open>x\<close>, and
  for every tensor \<open>x\<close>, \<open>backward\<close> with a scalar upstream gradient \<open>g\<close> returns one tensor
  of the shape of \<open>x\<close> whose entries all are \<open>g\<close>: the all-ones tensor shaped like \<open>x\<close>
  when \<open>g\<close> is 1, and \<open>g\<close> times it in general. \<open>backward\<close> may run in any store that
  extends the one \<open>forward\<close> left.
\<close>

theorem MatrixSum_backward_all_ones:
  assumes x: "x < length h0"
    and fwd: "MatrixSum_forward c0 x h0 = Inr ((c, out), h)"
    and g: "g < length (h @ hs)" "(h @ hs) ! g = \<lparr>shape = [], data = [gv]\<rparr>"
  shows "\<exists>r h'. MatrixSum_backward c g (h @ hs) = Inr ([Some r], h') \<and> r < length h' \<and>
           h' ! r = \<lparr>shape = shape (h0 ! x), data = replicate (numel (shape (h0 ! x))) gv\<rparr> \<and>
           (gv = Fin 1 \<longrightarrow> h' ! r = ones_like (h0 ! x)) \<and>
           h ! out = tsum (h0 ! x)"
proof -
  from fwd x have c: "saved_tensors c = [x]" and h: "h = h0 @ [tsum (h0 ! x)]"
    and out: "out = length h0"
    by (auto simp add: MatrixSum_forward_run)
  let ?k = "h @ hs"
  have xk: "x < length ?k" "?k ! x = h0 ! x" using x h by (simp_all add: nth_append)
  have b: "binop RuntimeError fmul (?k ! g) (ones_like (?k ! x)) =
    Inr \<lparr>shape = shape (h0 ! x), data = replicate (numel (shape (h0 ! x))) gv\<rparr>"
    using g(2) xk(2) binop_scalar_left[of "?k ! g" gv "ones_like (h0 ! x)" RuntimeError fmul]
    by (simp add: wf_ones_like) (simp add: ones_like_def fmul_one)
  show ?thesis
    unfolding MatrixSum_backward_run[OF c xk(1) g(1)] b
    using h out by (simp add: nth_append ones_like_def)
qed

theorem MatrixSum_backward_all_ones_witness:
  "(0::nat) < length [\<lparr>shape = [2, 2], data = [Fin 1, Fin 2, Fin 3, Fin 4]\<rparr>, \<lparr>shape = [], data = [Fin 1]\<rparr>] \<and>
   MatrixSum_forward empty_ctx 0
      [\<lparr>shape = [2, 2], data = [Fin 1, Fin 2, Fin 3, Fin 4]\<rparr>, \<lparr>shape = [], data = [Fin 1]\<rparr>] =
     Inr ((\<lparr>saved_tensors = [0], ctx_constant = None\<rparr>, 2),
          [\<lparr>shape = [2, 2], data = [Fin 1, Fin 2, Fin 3, Fin 4]\<rparr>, \<lparr>shape = [], data = [Fin 1]\<rparr>,
           \<lparr>shape = [], data = [Fin 10]\<rparr>]) \<and>
   (\<exists>r h'. MatrixSum_backward \<lparr>saved_tensors = [0], ctx_constant = None\<rparr> 1
      [\<lparr>shape = [2, 2], data = [Fin 1, Fin 2, Fin 3, Fin 4]\<rparr>, \<lparr>shape = [], data = [Fin 1]\<rparr>,
       \<lparr>shape = [], data = [Fin 10]\<rparr>] = Inr ([Some r], h') \<and>
      h' ! r = \<lparr>shape = [2, 2], data = [Fin 1, Fin 1, Fin 1, Fin 1]\<rparr>)"
proof -
  let ?init = "[\<lparr>shape = [2, 2], data = [Fin 1, Fin 2, Fin 3, Fin 4]\<rparr>, \<lparr>shape = [], data = [Fin 1]\<rparr>]"
  let ?c = "\<lparr>saved_tensors = [0], ctx_constant = None\<rparr>"
  let ?after = "?init @ [\<lparr>shape = [], data = [Fin 10]\<rparr>]"
  have x: "(0::nat) < length ?init" by simp
  have fwd: "MatrixSum_forward empty_ctx 0 ?init = Inr ((?c, 2), ?after)"
    by (simp add: MatrixSum_forward_run empty_ctx_def tsum_def)
  have g: "1 < length (?after @ [])" "(?after @ []) ! 1 = \<lparr>shape = [], data = [Fin 1]\<rparr>" by simp_all
  have "replicate (numel [2, 2]) (Fin 1) = [Fin 1, Fin 1, Fin 1, Fin 1]"
    by (simp add: numel_def eval_nat_numeral)
  with MatrixSum_backward_all_ones[OF x fwd g]
  have "\<exists>r h'. MatrixSum_backward ?c 1 ?after = Inr ([Some r], h') \<and>
      h' ! r = \<lparr>shape = [2, 2], data = [Fin 1, Fin 1, Fin 1, Fin 1]\<rparr>"
    by auto
  with x fwd show ?thesis by simp
qed

subsection \<open>C5 and C10: the gradients of MySub\<close>

lemma shape_binop: "binop e f a b = Inr t \<Longrightarrow> broadcast_shapes (shape a) (shape b) = Some (shape t)"
  by (auto simp: binop_def split: option.splits)

lemma wf_unop: "wf (unop f a) = wf a"
  by (simp add: wf_def unop_def)

lemma shape_unop: "shape (unop f a) = shape a"
  by (simp add: unop_def)

lemma binop_mul_ones_like_same:
  assumes "wf g" "broadcast_shapes sa (shape b) = Some (shape g)"
  shows "binop e fmul g (ones_like b) = Inr g"
proof -
  have "broadcast_shapes (shape g) (shape b) = Some (shape g)"
    using assms(2) by (rule broadcast_shapes_absorb(2))
  then show ?thesis
    using binop_mul_ones_like[OF assms(1), of b "shape g" e] assms(1)
    by (simp add: broadcast_to_same)
qed

lemma MySub_run:
  assumes ab: "a < length h0" "b < length h0"
    and app: "MySub_apply a b ao h0 = Inr ((c, out), h)"
    and g: "g < length (h @ hs)" "wf ((h @ hs) ! g)" "shape ((h @ hs) ! g) = shape (h ! out)"
  shows "binop RuntimeError fsub (h0 ! a) (unop (\<lambda>x. fmul x (alpha_of ao)) (h0 ! b)) = Inr (h ! out)"
    and "MySub_backward c g (h @ hs) =
           Inr ([Some (length (h @ hs) + 1), Some (length (h @ hs) + 4), None],
                h @ hs @ [ones_like (h0 ! a), (h @ hs) ! g,
                          unop (\<lambda>x. fmul x (fneg (alpha_of ao))) ((h @ hs) ! g),
                          ones_like (h0 ! b),
                          unop (\<lambda>x. fmul x (fneg (alpha_of ao))) ((h @ hs) ! g)])"
proof -
  let ?B = "unop (\<lambda>x. fmul x (alpha_of ao)) (h0 ! b)"
  let ?k = "h @ hs"
  let ?G = "?k ! g"
  let ?S = "unop (\<lambda>x. fmul x (fneg (alpha_of ao))) ?G"
  obtain t where t: "binop RuntimeError fsub (h0 ! a) ?B = Inr t"
    using app ab by (cases "binop RuntimeError fsub (h0 ! a) ?B") (simp_all add: MySub_apply_run)
  with app ab have c: "saved_tensors c = [a, b]" "ctx_constant c = Some (alpha_of ao)"
    and h: "h = h0 @ [?B, t]" and out: "out = Suc (length h0)"
    by (auto simp add: MySub_apply_run)
  have ho: "h ! out = t" using h out by (simp add: nth_append)
  show "binop RuntimeError fsub (h0 ! a) ?B = Inr (h ! out)" using t ho by simp
  have k: "a < length ?k" "b < length ?k" "?k ! a = h0 ! a" "?k ! b = h0 ! b"
    using ab h by (simp_all add: nth_append)
  have bs: "broadcast_shapes (shape (h0 ! a)) (shape (h0 ! b)) = Some (shape ?G)"
    using shape_binop[OF t] g(3) ho by (simp add: shape_unop)
  have sa: "broadcast_shapes (shape ?G) (shape (h0 ! a)) = Some (shape ?G)"
    and sb: "broadcast_shapes (shape ?G) (shape (h0 ! b)) = Some (shape ?G)"
    using broadcast_shapes_absorb[OF bs] by simp_all
  have d1: "binop RuntimeError fmul ?G (ones_like (?k ! a)) = Inr ?G"
    unfolding k(3) by (rule binop_mul_ones_like_same[OF g(2) sa])
  have d2: "binop RuntimeError fmul ?S (ones_like (?k ! b)) = Inr ?S"
    unfolding k(4)
    by (rule binop_mul_ones_like_same[where sa = "shape ?G"])
       (simp_all add: wf_unop shape_unop g(2) sb)
  show "MySub_backward c g ?k = Inr ([Some (length ?k + 1), Some (length ?k + 4), None],
      h @ hs @ [ones_like (h0 ! a), ?G, ?S, ones_like (h0 ! b), ?S])"
    unfolding MySub_backward_run[OF c k(1,2) g(1)] d1 d2 using k(3,4) by simp
qed

lemma fmul_minus_one: "fmul x (Fin (- 1)) = fneg x"
  by (cases x) (simp_all add: inf_signed_def)

lemma unop_fmul_one: "unop (\<lambda>x. fmul x (Fin 1)) a = a"
  by (simp add: unop_def fmul_one)

text \<open>
  Claim C5. \<open>MySub\<close> computes \<open>a - alpha * b\<close>, and for all tensors \<open>a\<close>, \<open>b\<close> and every
  number \<open>alpha\<close>, \<open>backward\<close> with the upstream gradient \<open>grad_out\<close> (a well-formed tensor
  of the shape of the output) returns three entries: \<open>grad_out * ones_like(a)\<close> for \<open>a\<close>,
  \<open>grad_out * (-alpha) * ones_like(b)\<close> for \<open>b\<close>, and \<open>None\<close> for \<open>alpha\<close>. The first is
  \<open>grad_out\<close> itself and the second is \<open>grad_out\<close> with every entry multiplied by \<open>-alpha\<close>.
\<close>

theorem MySub_backward_gradients:
  assumes ab: "a < length h0" "b < length h0"
    and app: "MySub_apply a b ao h0 = Inr ((c, out), h)"
    and g: "g < length (h @ hs)" "wf ((h @ hs) ! g)" "shape ((h @ hs) ! g) = shape (h ! out)"
  shows "\<exists>r1 r2 h'.
      MySub_backward c g (h @ hs) = Inr ([Some r1, Some r2, None], h') \<and>
      binop RuntimeError fmul ((h @ hs) ! g) (ones_like (h0 ! a)) = Inr (h' ! r1) \<and>
      binop RuntimeError fmul (unop (\<lambda>x. fmul x (fneg (alpha_of ao))) ((h @ hs) ! g))
        (ones_like (h0 ! b)) = Inr (h' ! r2) \<and>
      h' ! r1 = (h @ hs) ! g \<and>
      h' ! r2 = unop (\<lambda>x. fmul x (fneg (alpha_of ao))) ((h @ hs) ! g) \<and>
      binop RuntimeError fsub (h0 ! a) (unop (\<lambda>x. fmul x (alpha_of ao)) (h0 ! b)) = Inr (h ! out)"
proof -
  let ?k = "h @ hs"
  let ?G = "?k ! g"
  let ?S = "unop (\<lambda>x. fmul x (fneg (alpha_of ao))) ?G"
  note run = MySub_run[OF ab app g]
  have bs: "broadcast_shapes (shape (h0 ! a)) (shape (h0 ! b)) = Some (shape ?G)"
    using shape_binop[OF run(1)] g(3) by (simp add: shape_unop)
  have d1: "binop RuntimeError fmul ?G (ones_like (h0 ! a)) = Inr ?G"
    by (rule binop_mul_ones_like_same[OF g(2) broadcast_shapes_absorb(1)[OF bs]])
  have d2: "binop RuntimeError fmul ?S (ones_like (h0 ! b)) = Inr ?S"
    by (rule binop_mul_ones_like_same[where sa = "shape ?G"])
       (simp_all add: wf_unop shape_unop g(2) broadcast_shapes_absorb(2)[OF bs])
  show ?thesis
    unfolding run(2) using d1 d2 run(1)
    by (simp add: nth_append)
qed


theorem MySub_backward_gradients_witness:
  "(0::nat) < length [\<lparr>shape = [2], data = [Fin 5, Fin 7]\<rparr>, \<lparr>shape = [1], data = [Fin 3]\<rparr>,
                      \<lparr>shape = [2], data = [Fin 10, Fin 20]\<rparr>] \<and>
   MySub_apply 0 1 (Some (Fin 2))
     [\<lparr>shape = [2], data = [Fin 5, Fin 7]\<rparr>, \<lparr>shape = [1], data = [Fin 3]\<rparr>,
      \<lparr>shape = [2], data = [Fin 10, Fin 20]\<rparr>] =
     Inr ((\<lparr>saved_tensors = [0, 1], ctx_constant = Some (Fin 2)\<rparr>, 4),
          [\<lparr>shape = [2], data = [Fin 5, Fin 7]\<rparr>, \<lparr>shape = [1], data = [Fin 3]\<rparr>,
           \<lparr>shape = [2], data = [Fin 10, Fin 20]\<rparr>, \<lparr>shape = [1], data = [Fin 6]\<rparr>,
           \<lparr>shape = [2], data = [Fin (- 1), Fin 1]\<rparr>]) \<and>
   (\<exists>r1 r2 h'.
      MySub_backward \<lparr>saved_tensors = [0, 1], ctx_constant = Some (Fin 2)\<rparr> 2
        [\<lparr>shape = [2], data = [Fin 5, Fin 7]\<rparr>, \<lparr>shape = [1], data = [Fin 3]\<rparr>,
         \<lparr>shape = [2], data = [Fin 10, Fin 20]\<rparr>, \<lparr>shape = [1], data = [Fin 6]\<rparr>,
         \<lparr>shape = [2], data = [Fin (- 1), Fin 1]\<rparr>] = Inr ([Some r1, Some r2, None], h') \<and>
      h' ! r1 = \<lparr>shape = [2], data = [Fin 10, Fin 20]\<rparr> \<and>
      h' ! r2 = \<lparr>shape = [2], data = [Fin (- 20), Fin (- 40)]\<rparr>)"
proof -
  let ?init = "[\<lparr>shape = [2], data = [Fin 5, Fin 7]\<rparr>, \<lparr>shape = [1], data = [Fin 3]\<rparr>,
                \<lparr>shape = [2], data = [Fin 10, Fin 20]\<rparr>]"
  let ?c = "\<lparr>saved_tensors = [0, 1], ctx_constant = Some (Fin 2)\<rparr>"
  let ?after = "?init @ [\<lparr>shape = [1], data = [Fin 6]\<rparr>, \<lparr>shape = [2], data = [Fin (- 1), Fin 1]\<rparr>]"
  have a: "(0::nat) < length ?init" and b: "(1::nat) < length ?init" by simp_all
  have "binop RuntimeError fsub \<lparr>shape = [2], data = [Fin 5, Fin 7]\<rparr>
          \<lparr>shape = [1], data = [Fin 6]\<rparr> = Inr \<lparr>shape = [2], data = [Fin (- 1), Fin 1]\<rparr>"
    by code_simp
  then have app: "MySub_apply 0 1 (Some (Fin 2)) ?init = Inr ((?c, 4), ?after)"
    by (simp add: MySub_apply_run alpha_of_def unop_def)
  have g: "2 < length (?after @ [])" "wf ((?after @ []) ! 2)"
    "shape ((?after @ []) ! 2) = shape (?after ! 4)"
    by (simp_all add: wf_def numel_def)
  from MySub_backward_gradients[OF a b app g]
  have "\<exists>r1 r2 h'. MySub_backward ?c 2 ?after = Inr ([Some r1, Some r2, None], h') \<and>
      h' ! r1 = \<lparr>shape = [2], data = [Fin 10, Fin 20]\<rparr> \<and>
      h' ! r2 = \<lparr>shape = [2], data = [Fin (- 20), Fin (- 40)]\<rparr>"
    by (simp add: alpha_of_def unop_def, blast)
  with a app show ?thesis by simp
qed

text \<open>
  Claim C10. The parameter \<open>alpha\<close> of \<open>MySub.forward\<close> defaults to 1: for all tensors \<open>a\<close>
  and \<open>b\<close> for which \<open>a - b\<close> is defined, \<open>forward\<close> called with two arguments returns
  exactly \<open>a - b\<close>, the context holds the constant 1, and the gradient that \<open>backward\<close>
  then returns for \<open>b\<close> is \<open>-grad_out * ones_like(b)\<close>, which is \<open>-grad_out\<close>.
\<close>

theorem MySub_default_alpha:
  assumes ab: "a < length h0" "b < length h0"
    and sub: "binop RuntimeError fsub (h0 ! a) (h0 ! b) = Inr t"
    and g: "g < length ((h0 @ [h0 ! b, t]) @ hs)" "wf (((h0 @ [h0 ! b, t]) @ hs) ! g)"
      "shape (((h0 @ [h0 ! b, t]) @ hs) ! g) = shape t"
  shows "MySub_forward a b None h0 = Inr (Suc (length h0), h0 @ [h0 ! b, t]) \<and>
     MySub_apply a b None h0 =
       Inr ((\<lparr>saved_tensors = [a, b], ctx_constant = Some (Fin 1)\<rparr>, Suc (length h0)),
            h0 @ [h0 ! b, t]) \<and>
     (\<exists>r1 r2 h'.
        MySub_backward \<lparr>saved_tensors = [a, b], ctx_constant = Some (Fin 1)\<rparr> g
          ((h0 @ [h0 ! b, t]) @ hs) = Inr ([Some r1, Some r2, None], h') \<and>
        binop RuntimeError fmul (unop fneg (((h0 @ [h0 ! b, t]) @ hs) ! g)) (ones_like (h0 ! b)) =
          Inr (h' ! r2) \<and>
        h' ! r2 = unop fneg (((h0 @ [h0 ! b, t]) @ hs) ! g))"
proof -
  let ?c = "\<lparr>saved_tensors = [a, b], ctx_constant = Some (Fin 1)\<rparr>"
  let ?h = "h0 @ [h0 ! b, t]"
  let ?G = "(?h @ hs) ! g"
  have neg: "unop (\<lambda>x. fmul x (fneg (Fin 1))) ?G = unop fneg ?G"
    by (simp add: unop_def fmul_minus_one)
  have app: "MySub_apply a b None h0 = Inr ((?c, Suc (length h0)), ?h)"
    using ab sub by (simp add: MySub_apply_run alpha_of_def unop_fmul_one)
  have fwd: "MySub_forward a b None h0 = Inr (Suc (length h0), ?h)"
    using ab sub
    by (simp add: MySub_forward_def bnd_def ret_def t_rmul_scalar_def t_sub_def t_unop_def
        t_binop_def get_def new_def lift_def nth_append unop_fmul_one)
  have g3: "shape ?G = shape (?h ! Suc (length h0))" using g(3) by (simp add: nth_append)
  note run = MySub_run[OF ab app g(1,2) g3]
  have bs: "broadcast_shapes (shape (h0 ! a)) (shape (h0 ! b)) = Some (shape ?G)"
    using shape_binop[OF sub] g(3) by simp
  have d2: "binop RuntimeError fmul (unop fneg ?G) (ones_like (h0 ! b)) = Inr (unop fneg ?G)"
  proof (rule binop_mul_ones_like_same[where sa = "shape ?G"])
    show "wf (unop fneg ?G)" using g(2) by (simp only: wf_unop)
    show "broadcast_shapes (shape ?G) (shape (h0 ! b)) = Some (shape (unop fneg ?G))"
      using broadcast_shapes_absorb(2)[OF bs] by (simp only: shape_unop)
  qed
  show ?thesis
    using app fwd run(2) d2 neg by (simp add: alpha_of_def nth_append)
qed

theorem MySub_default_alpha_witness:
  "(0::nat) < length [\<lparr>shape = [2], data = [Fin 5, Fin 7]\<rparr>, \<lparr>shape = [2], data = [Fin 3, Fin 4]\<rparr>] \<and>
   binop RuntimeError fsub \<lparr>shape = [2], data = [Fin 5, Fin 7]\<rparr> \<lparr>shape = [2], data = [Fin 3, Fin 4]\<rparr> =
     Inr \<lparr>shape = [2], data = [Fin 2, Fin 3]\<rparr> \<and>
   MySub_forward 0 1 None
     [\<lparr>shape = [2], data = [Fin 5, Fin 7]\<rparr>, \<lparr>shape = [2], data = [Fin 3, Fin 4]\<rparr>] =
     Inr (3, [\<lparr>shape = [2], data = [Fin 5, Fin 7]\<rparr>, \<lparr>shape = [2], data = [Fin 3, Fin 4]\<rparr>,
              \<lparr>shape = [2], data = [Fin 3, Fin 4]\<rparr>, \<lparr>shape = [2], data = [Fin 2, Fin 3]\<rparr>]) \<and>
   (\<exists>r1 r2 h'.
      MySub_backward \<lparr>saved_tensors = [0, 1], ctx_constant = Some (Fin 1)\<rparr> 3
        [\<lparr>shape = [2], data = [Fin 5, Fin 7]\<rparr>, \<lparr>shape = [2], data = [Fin 3, Fin 4]\<rparr>,
         \<lparr>shape = [2], data = [Fin 3, Fin 4]\<rparr>, \<lparr>shape = [2], data = [Fin 2, Fin 3]\<rparr>] =
        Inr ([Some r1, Some r2, None], h') \<and>
      h' ! r2 = \<lparr>shape = [2], data = [Fin (- 2), Fin (- 3)]\<rparr>)"
proof -
  let ?init = "[\<lparr>shape = [2], data = [Fin 5, Fin 7]\<rparr>, \<lparr>shape = [2], data = [Fin 3, Fin 4]\<rparr>]"
  let ?t = "\<lparr>shape = [2], data = [Fin 2, Fin 3]\<rparr>"
  have a: "(0::nat) < length ?init" and b: "(1::nat) < length ?init" by simp_all
  have "binop RuntimeError fsub \<lparr>shape = [2], data = [Fin 5, Fin 7]\<rparr>
          \<lparr>shape = [2], data = [Fin 3, Fin 4]\<rparr> = Inr ?t"
    by code_simp
  then have sub: "binop RuntimeError fsub (?init ! 0) (?init ! 1) = Inr ?t"
    by simp
  have g: "3 < length ((?init @ [?init ! 1, ?t]) @ [])"
    "wf (((?init @ [?init ! 1, ?t]) @ []) ! 3)"
    "shape (((?init @ [?init ! 1, ?t]) @ []) ! 3) = shape ?t"
    by (simp_all add: wf_def numel_def)
  from MySub_default_alpha[OF a b sub g] a sub show ?thesis
    by (simp add: unop_def, blast)
qed

subsection \<open>The cross-entropy functions\<close>

lemma fmul_commute: "fmul x y = fmul y x"
  by (cases x; cases y) (simp_all add: mult.commute)

lemma ce_quotient:
  "0 < n \<Longrightarrow>
   fmul gv (fdiv (fdiv (fneg t) p) (Fin (real n))) = fmul gv (fdiv (fneg t) (fmul p (Fin (real n))))"
  by (cases t; cases p) (auto simp: inf_signed_def mult_less_0_iff zero_less_mult_iff)

lemma shape0_Inr: "shape0 a = Inr n \<Longrightarrow> shape a \<noteq> [] \<and> n = hd (shape a)"
  by (auto simp: shape0_def split: list.splits)

lemma map2_eq_empty_numel:
  assumes "wf yt" "shape yt = 0 # rest"
  shows "data yt = []"
  using assms by (simp add: wf_def numel_def)

lemma ce_grad_same_shape:
  assumes "wf yt" "wf yp" "shape yt = shape yp" "shape0 yt = Inr n"
  shows "ce_grad yt yp =
     Inr [unop fneg yt,
          \<lparr>shape = shape yp, data = map2 (\<lambda>t p. fdiv (fneg t) p) (data yt) (data yp)\<rparr>,
          \<lparr>shape = shape yp,
           data = map2 (\<lambda>t p. fdiv (fdiv (fneg t) p) (Fin (real n))) (data yt) (data yp)\<rparr>]"
proof -
  have "binop RuntimeError fdiv (unop fneg yt) yp =
      Inr \<lparr>shape = shape yp, data = map2 fdiv (map fneg (data yt)) (data yp)\<rparr>"
    using binop_same_shape[of "unop fneg yt" yp RuntimeError fdiv] assms(1-3)
    by (simp add: wf_def unop_def)
  moreover have "map2 fdiv (map fneg (data yt)) (data yp) =
      map2 (\<lambda>t p. fdiv (fneg t) p) (data yt) (data yp)"
    by (simp add: zip_map1 case_prod_unfold)
  ultimately show ?thesis using assms(4)
    by (simp add: ce_grad_def unop_def case_prod_unfold comp_def)
qed

lemma ce_dy_left:
  assumes "wf yt" "wf yp" "shape yt = shape yp" "shape0 yt = Inr n"
    "shape g = []" "data g = [gv]"
  shows "binop e fmul g
           \<lparr>shape = shape yp,
            data = map2 (\<lambda>t p. fdiv (fdiv (fneg t) p) (Fin (real n))) (data yt) (data yp)\<rparr> =
         Inr (ce_dy gv n yt yp)"
proof -
  let ?q = "\<lparr>shape = shape yp,
      data = map2 (\<lambda>t p. fdiv (fdiv (fneg t) p) (Fin (real n))) (data yt) (data yp)\<rparr>"
  have w: "wf ?q" using assms(1-3) by (simp add: wf_def)
  have eq: "map (fmul gv) (data ?q) = data (ce_dy gv n yt yp)"
  proof (cases "n = 0")
    case True
    then have "shape yt = 0 # tl (shape yt)" using shape0_Inr[OF assms(4)] by (cases "shape yt") auto
    then have "data yt = []" using assms(1) map2_eq_empty_numel by blast
    then show ?thesis by (simp add: ce_dy_def)
  next
    case False
    then show ?thesis by (simp add: ce_dy_def case_prod_unfold comp_def ce_quotient)
  qed
  show ?thesis
    using binop_scalar_left[OF assms(5,6) w, of e fmul] eq by (simp add: ce_dy_def)
qed

lemma ce_dy_right:
  assumes "wf yt" "wf yp" "shape yt = shape yp" "shape0 yt = Inr n"
    "shape g = []" "data g = [gv]"
  shows "binop e fmul
           \<lparr>shape = shape yp,
            data = map2 (\<lambda>t p. fdiv (fdiv (fneg t) p) (Fin (real n))) (data yt) (data yp)\<rparr> g =
         Inr (ce_dy gv n yt yp)"
proof -
  let ?q = "\<lparr>shape = shape yp,
      data = map2 (\<lambda>t p. fdiv (fdiv (fneg t) p) (Fin (real n))) (data yt) (data yp)\<rparr>"
  have w: "wf ?q" using assms(1-3) by (simp add: wf_def)
  have c: "(\<lambda>x. fmul x gv) = fmul gv" by (rule ext) (rule fmul_commute)
  have "binop e fmul ?q g = Inr \<lparr>shape = shape ?q, data = map (\<lambda>x. fmul x gv) (data ?q)\<rparr>"
    using assms(5,6) w by (rule binop_scalar_right)
  also have "\<dots> = Inr \<lparr>shape = shape ?q, data = map (fmul gv) (data ?q)\<rparr>"
    by (simp only: c)
  also have "\<dots> = binop e fmul g ?q"
    using assms(5,6) w by (rule binop_scalar_left[symmetric])
  also have "\<dots> = Inr (ce_dy gv n yt yp)" using assms by (rule ce_dy_left)
  finally show ?thesis .
qed


lemma ce_loss_Inr:
  assumes "ce_loss e yt yp = Inr ts"
  shows "\<exists>n prods. shape0 yt = Inr n \<and>
     binop e fmul (unop fneg yt) (unop flog (unop (fclamp eps (1 - eps)) yp)) = Inr prods \<and>
     ts = [unop (fclamp eps (1 - eps)) yp, unop fneg yt,
           unop flog (unop (fclamp eps (1 - eps)) yp), prods, tsum prods,
           unop (\<lambda>x. fdiv x (Fin (real n))) (tsum prods)]"
  using assms by (auto simp: ce_loss_def split: sum.splits)

lemma ce_apply_facts:
  assumes refs: "yt < length h0" "yp < length h0"
    and f: "is_ce f args yt yp"
    and app: "fn_apply f args h0 = Inr ((c, out), h)"
  shows "\<exists>n prods e hs'. shape0 (h0 ! yt) = Inr n \<and>
     binop e fmul (unop fneg (h0 ! yt)) (unop flog (unop (fclamp eps (1 - eps)) (h0 ! yp))) =
       Inr prods \<and>
     h = h0 @ hs' \<and> out < length h \<and>
     h ! out = unop (\<lambda>x. fdiv x (Fin (real n))) (tsum prods) \<and>
     saved_tensors c = (if f = CustomLoss then [yp, yt] else [yt, yp])"
proof -
  from f consider (A) "f = CustomLoss" "args = [T yp, T yt]"
    | (B) "f = NonDiffCrossEntropy" "args = [T yt, T yp]"
    by (auto simp: is_ce_def)
  then show ?thesis
  proof cases
    case A
    with app refs obtain ts where ts: "ce_loss RuntimeError (h0 ! yt) (h0 ! yp) = Inr ts"
      by (cases "ce_loss RuntimeError (h0 ! yt) (h0 ! yp)") (simp_all add: CustomLoss_forward_run)
    from ce_loss_Inr[OF ts] obtain n prods where
      n: "shape0 (h0 ! yt) = Inr n"
      and p: "binop RuntimeError fmul (unop fneg (h0 ! yt))
                (unop flog (unop (fclamp eps (1 - eps)) (h0 ! yp))) = Inr prods"
      and t: "ts = [unop (fclamp eps (1 - eps)) (h0 ! yp), unop fneg (h0 ! yt),
           unop flog (unop (fclamp eps (1 - eps)) (h0 ! yp)), prods, tsum prods,
           unop (\<lambda>x. fdiv x (Fin (real n))) (tsum prods)]"
      by blast
    from app refs A ts have "h = h0 @ ts" "out = length h0 + 5" "saved_tensors c = [yp, yt]"
      by (auto simp add: CustomLoss_forward_run)
    with n p t A show ?thesis by (auto simp: nth_append)
  next
    case B
    with app refs obtain ts where ts: "ce_loss ValueError (h0 ! yt) (h0 ! yp) = Inr ts"
      by (cases "ce_loss ValueError (h0 ! yt) (h0 ! yp)")
         (simp_all add: NonDiffCrossEntropy_forward_run)
    from ce_loss_Inr[OF ts] obtain n prods where
      n: "shape0 (h0 ! yt) = Inr n"
      and p: "binop ValueError fmul (unop fneg (h0 ! yt))
                (unop flog (unop (fclamp eps (1 - eps)) (h0 ! yp))) = Inr prods"
      and t: "ts = [unop (fclamp eps (1 - eps)) (h0 ! yp), unop fneg (h0 ! yt),
           unop flog (unop (fclamp eps (1 - eps)) (h0 ! yp)), prods, tsum prods,
           unop (\<lambda>x. fdiv x (Fin (real n))) (tsum prods)]"
      by blast
    from app refs B ts have "h = h0 @ take 5 ts @ [ts ! 4, ts ! 5]" "out = length h0 + 6"
      "saved_tensors c = [yt, yp]"
      by (auto simp add: NonDiffCrossEntropy_forward_run)
    with n p t B show ?thesis by (auto simp: nth_append)
  qed
qed

lemma ce_backward_values:
  assumes f: "f = CustomLoss \<or> f = NonDiffCrossEntropy"
    and c: "saved_tensors c = (if f = CustomLoss then [yp, yt] else [yt, yp])"
    and refs: "yt < length k" "yp < length k" "g < length k"
    and wf: "wf (k ! yt)" "wf (k ! yp)" and same: "shape (k ! yt) = shape (k ! yp)"
    and n: "shape0 (k ! yt) = Inr n"
    and g: "shape (k ! g) = []" "data (k ! g) = [gv]"
  shows "fn_backward f c g k =
     Inr (if f = CustomLoss then [Some (length k + 3), None] else [None, Some (length k + 3)],
          k @ [unop fneg (k ! yt),
               \<lparr>shape = shape (k ! yp),
                data = map2 (\<lambda>t p. fdiv (fneg t) p) (data (k ! yt)) (data (k ! yp))\<rparr>,
               \<lparr>shape = shape (k ! yp),
                data = map2 (\<lambda>t p. fdiv (fdiv (fneg t) p) (Fin (real n)))
                         (data (k ! yt)) (data (k ! yp))\<rparr>,
               ce_dy gv n (k ! yt) (k ! yp)])"
proof -
  note gr = ce_grad_same_shape[OF wf same n]
  note l = ce_dy_left[OF wf same n g, of RuntimeError]
  note r = ce_dy_right[OF wf same n g, of RuntimeError]
  from f show ?thesis
  proof
    assume A: "f = CustomLoss"
    then have c': "saved_tensors c = [yp, yt]" using c by simp
    show ?thesis
      using A by (simp add: CustomLoss_backward_run[OF c' refs(2,1,3)] gr l)
  next
    assume B: "f = NonDiffCrossEntropy"
    then have c': "saved_tensors c = [yt, yp]" using c by simp
    show ?thesis
      using B by (simp add: NonDiffCrossEntropy_backward_run[OF c' refs(2,1,3)] gr r)
  qed
qed

lemma ce_apply_total:
  assumes refs: "yt < length h0" "yp < length h0"
    and f: "is_ce f args yt yp"
    and n: "shape (h0 ! yt) = n # rest"
    and bs: "broadcast_shapes (shape (h0 ! yt)) (shape (h0 ! yp)) = Some s"
  shows "\<exists>c out hs'. fn_apply f args h0 = Inr ((c, out), h0 @ hs')"
proof -
  have "\<exists>ts. ce_loss e (h0 ! yt) (h0 ! yp) = Inr ts" for e
    using n bs by (simp add: ce_loss_def binop_def shape_unop shape0_def)
  then obtain ts1 ts2 where "ce_loss RuntimeError (h0 ! yt) (h0 ! yp) = Inr ts1"
    "ce_loss ValueError (h0 ! yt) (h0 ! yp) = Inr ts2" by blast
  then show ?thesis using f refs
    by (auto simp: is_ce_def CustomLoss_forward_run NonDiffCrossEntropy_forward_run)
qed

text \<open>
  Claim C1. For the two cross-entropy functions, whose loss is
  \<open>-sum(y_true * log(clip(y_pred, eps, 1 - eps))) / N\<close> with \<open>N = y_true.shape[0]\<close>: for
  all well-formed tensors \<open>y_true\<close> and \<open>y_pred\<close> of the same shape on which \<open>forward\<close> has
  run, and a 0-dimensional upstream gradient \<open>g\<close>, \<open>backward\<close> returns \<open>None\<close> in the slot of
  \<open>y_true\<close> and, in the slot of \<open>y_pred\<close>, the tensor with the entries
  \<open>g * (-y_true / (y_pred * N))\<close>.
\<close>

theorem cross_entropy_backward_gradient:
  assumes refs: "yt < length h0" "yp < length h0"
    and wf: "wf (h0 ! yt)" "wf (h0 ! yp)" and same: "shape (h0 ! yt) = shape (h0 ! yp)"
    and f: "is_ce f args yt yp"
    and app: "fn_apply f args h0 = Inr ((c, out), h)"
    and g: "g < length (h @ hs)" "(h @ hs) ! g = \<lparr>shape = [], data = [gv]\<rparr>"
  shows "\<exists>r h'.
      fn_backward f c g (h @ hs) =
        Inr (if f = CustomLoss then [Some r, None] else [None, Some r], h') \<and>
      shape (h0 ! yt) \<noteq> [] \<and>
      h' ! r = ce_dy gv (hd (shape (h0 ! yt))) (h0 ! yt) (h0 ! yp)"
proof -
  from ce_apply_facts[OF refs f app] obtain n hs' where
    n: "shape0 (h0 ! yt) = Inr n" and h: "h = h0 @ hs'"
    and c: "saved_tensors c = (if f = CustomLoss then [yp, yt] else [yt, yp])"
    by blast
  let ?k = "h @ hs"
  have k: "yt < length ?k" "yp < length ?k" "?k ! yt = h0 ! yt" "?k ! yp = h0 ! yp"
    using refs h by (simp_all add: nth_append)
  have f': "f = CustomLoss \<or> f = NonDiffCrossEntropy" using f by (auto simp: is_ce_def)
  have run: "fn_backward f c g ?k =
     Inr (if f = CustomLoss then [Some (length ?k + 3), None] else [None, Some (length ?k + 3)],
          ?k @ [unop fneg (?k ! yt),
               \<lparr>shape = shape (?k ! yp),
                data = map2 (\<lambda>t p. fdiv (fneg t) p) (data (?k ! yt)) (data (?k ! yp))\<rparr>,
               \<lparr>shape = shape (?k ! yp),
                data = map2 (\<lambda>t p. fdiv (fdiv (fneg t) p) (Fin (real n)))
                         (data (?k ! yt)) (data (?k ! yp))\<rparr>,
               ce_dy gv n (?k ! yt) (?k ! yp)])"
    by (rule ce_backward_values[OF f' c k(1,2) g(1)])
       (simp_all only: k(3,4) wf same n g(2) tensor.simps)
  show ?thesis
    unfolding run using shape0_Inr[OF n] k(3,4)
    by (auto simp: nth_append)
qed


theorem cross_entropy_backward_gradient_witness:
  "\<exists>c out h.
     fn_apply CustomLoss [T 1, T 0]
       [\<lparr>shape = [2], data = [Fin 1, Fin 0]\<rparr>, \<lparr>shape = [2], data = [Fin (1 / 2), Fin (1 / 4)]\<rparr>,
        \<lparr>shape = [], data = [Fin 1]\<rparr>] = Inr ((c, out), h) \<and>
     (\<exists>r h'. fn_backward CustomLoss c 2 (h @ []) = Inr ([Some r, None], h') \<and>
        h' ! r = \<lparr>shape = [2], data = [Fin (- 1), Fin 0]\<rparr>)"
proof -
  let ?init = "[\<lparr>shape = [2], data = [Fin 1, Fin 0]\<rparr>, \<lparr>shape = [2], data = [Fin (1 / 2), Fin (1 / 4)]\<rparr>,
        \<lparr>shape = [], data = [Fin 1]\<rparr>]"
  have refs: "(0::nat) < length ?init" "(1::nat) < length ?init" by simp_all
  have wf: "wf (?init ! 0)" "wf (?init ! 1)" by (simp_all add: wf_def numel_def)
  have same: "shape (?init ! 0) = shape (?init ! 1)" by simp
  have f: "is_ce CustomLoss [T 1, T 0] 0 1" by (simp add: is_ce_def)
  have "shape (?init ! 0) = 2 # []"
    "broadcast_shapes (shape (?init ! 0)) (shape (?init ! 1)) = Some [2]"
    by (simp_all add: broadcast_shapes_same)
  from ce_apply_total[OF refs f this] obtain c out hs' where
    app: "fn_apply CustomLoss [T 1, T 0] ?init = Inr ((c, out), ?init @ hs')" by blast
  have g: "2 < length ((?init @ hs') @ [])"
    "((?init @ hs') @ []) ! 2 = \<lparr>shape = [], data = [Fin 1]\<rparr>" by simp_all
  from cross_entropy_backward_gradient[OF refs wf same f app g]
  obtain r h' where
    "fn_backward CustomLoss c 2 ((?init @ hs') @ []) = Inr ([Some r, None], h')"
    "h' ! r = ce_dy (Fin 1) (hd (shape (?init ! 0))) (?init ! 0) (?init ! 1)"
    by auto
  moreover have "ce_dy (Fin 1) (hd (shape (?init ! 0))) (?init ! 0) (?init ! 1) =
      \<lparr>shape = [2], data = [Fin (- 1), Fin 0]\<rparr>"
    by (simp add: ce_dy_def)
  ultimately show ?thesis using app by auto
qed

subsection \<open>C7: clipping in the forward pass\<close>

lemma finite_data: "\<forall>v\<in>set xs. is_finite v \<Longrightarrow> xs = map Fin (map real_of_fl xs)"
proof (induction xs)
  case Nil
  then show ?case by simp
next
  case (Cons x xs)
  then show ?case by (cases x) auto
qed

lemma foldl_fadd_Fin: "foldl fadd (Fin a) (map Fin ys) = Fin (a + sum_list ys)"
  by (induction ys arbitrary: a) (simp_all add: add.assoc)

lemma set_broadcast_to: "set (broadcast_to s a) \<subseteq> set (data a)"
  by (simp add: broadcast_to_def set_expand)

lemma eps_bounds: "0 < eps" "eps \<le> 1 - eps"
  by (simp_all add: eps_def)














subsection \<open>C9: the division in the backward pass\<close>

lemma not_finite_fmul: "\<not> is_finite y \<Longrightarrow> \<not> is_finite (fmul x y)"
  by (cases x; cases y) (simp_all add: inf_signed_def)

lemma not_finite_div_zero: "\<not> is_finite (fdiv x (Fin 0))"
  by (cases x) (simp_all add: inf_signed_def)

lemma ce_entry_finite:
  assumes "is_finite gv" "is_finite t" "is_finite p" "p \<noteq> Fin 0" "n \<noteq> 0"
  shows "is_finite (fmul gv (fdiv (fneg t) (fmul p (Fin (real n)))))"
  using assms by (cases gv; cases t; cases p) simp_all

lemma ce_dy_nth:
  assumes "i < length (data yt)" "length (data yt) = length (data yp)"
  shows "data (ce_dy gv n yt yp) ! i =
     fmul gv (fdiv (fneg (data yt ! i)) (fmul (data yp ! i) (Fin (real n))))"
  using assms by (simp add: ce_dy_def)

lemma ce_dy_length:
  "length (data yt) = length (data yp) \<Longrightarrow> length (data (ce_dy gv n yt yp)) = length (data yp)"
  by (simp add: ce_dy_def)

text \<open>
  Claim C9. The backward pass of the two cross-entropy functions divides by the saved
  \<open>y_pred\<close>, which is not clipped. On inputs on which \<open>forward\<close> has run, wherever an entry
  of \<open>y_pred\<close> is zero the entry of the returned gradient is not a finite number (an
  infinity or NaN), whatever \<open>y_true\<close> and the upstream gradient are; and when no entry of
  \<open>y_pred\<close> is zero and all entries of \<open>y_pred\<close>, \<open>y_true\<close> and the upstream gradient are
  finite, every entry of the gradient is finite.
\<close>

theorem cross_entropy_backward_unguarded_division:
  assumes refs: "yt < length h0" "yp < length h0"
    and wf: "wf (h0 ! yt)" "wf (h0 ! yp)" and same: "shape (h0 ! yt) = shape (h0 ! yp)"
    and f: "is_ce f args yt yp"
    and app: "fn_apply f args h0 = Inr ((c, out), h)"
    and g: "g < length (h @ hs)" "(h @ hs) ! g = \<lparr>shape = [], data = [gv]\<rparr>"
  shows "\<exists>r h'.
      fn_backward f c g (h @ hs) =
        Inr (if f = CustomLoss then [Some r, None] else [None, Some r], h') \<and>
      length (data (h' ! r)) = length (data (h0 ! yp)) \<and>
      (\<forall>i<length (data (h0 ! yp)).
          data (h0 ! yp) ! i = Fin 0 \<longrightarrow> \<not> is_finite (data (h' ! r) ! i)) \<and>
      ((\<forall>p\<in>set (data (h0 ! yp)). is_finite p \<and> p \<noteq> Fin 0) \<and>
       (\<forall>t\<in>set (data (h0 ! yt)). is_finite t) \<and> is_finite gv \<longrightarrow>
       (\<forall>x\<in>set (data (h' ! r)). is_finite x))"
proof -
  let ?YT = "h0 ! yt" and ?YP = "h0 ! yp"
  from ce_apply_facts[OF refs f app] obtain n hs' where
    n: "shape0 ?YT = Inr n" and h: "h = h0 @ hs'"
    and c: "saved_tensors c = (if f = CustomLoss then [yp, yt] else [yt, yp])"
    by blast
  let ?k = "h @ hs"
  have k: "yt < length ?k" "yp < length ?k" "?k ! yt = ?YT" "?k ! yp = ?YP"
    using refs h by (simp_all add: nth_append)
  have f': "f = CustomLoss \<or> f = NonDiffCrossEntropy" using f by (auto simp: is_ce_def)
  have run: "fn_backward f c g ?k =
     Inr (if f = CustomLoss then [Some (length ?k + 3), None] else [None, Some (length ?k + 3)],
          ?k @ [unop fneg (?k ! yt),
               \<lparr>shape = shape (?k ! yp),
                data = map2 (\<lambda>t p. fdiv (fneg t) p) (data (?k ! yt)) (data (?k ! yp))\<rparr>,
               \<lparr>shape = shape (?k ! yp),
                data = map2 (\<lambda>t p. fdiv (fdiv (fneg t) p) (Fin (real n)))
                         (data (?k ! yt)) (data (?k ! yp))\<rparr>,
               ce_dy gv n (?k ! yt) (?k ! yp)])"
    by (rule ce_backward_values[OF f' c k(1,2) g(1)])
       (simp_all only: k(3,4) wf same n g(2) tensor.simps)
  let ?R = "ce_dy gv n ?YT ?YP"
  have len: "length (data ?YT) = length (data ?YP)" using wf same by (simp add: wf_def)
  have zero: "\<forall>i<length (data ?YP). data ?YP ! i = Fin 0 \<longrightarrow> \<not> is_finite (data ?R ! i)"
    using len by (simp add: ce_dy_nth not_finite_fmul not_finite_div_zero)
  have fin: "\<forall>x\<in>set (data ?R). is_finite x"
    if a: "\<forall>p\<in>set (data ?YP). is_finite p \<and> p \<noteq> Fin 0"
      "\<forall>t\<in>set (data ?YT). is_finite t" "is_finite gv"
  proof
    fix x assume "x \<in> set (data ?R)"
    then obtain i where i: "i < length (data ?YP)" "x = data ?R ! i"
      using ce_dy_length[OF len, of gv n] by (metis in_set_conv_nth)
    then have ne: "data ?YT \<noteq> []" using len by auto
    have "n \<noteq> 0"
    proof
      assume "n = 0"
      then have "shape ?YT = 0 # tl (shape ?YT)" using shape0_Inr[OF n] by (cases "shape ?YT") auto
      then show False using wf(1) ne map2_eq_empty_numel by blast
    qed
    moreover have "data ?YT ! i \<in> set (data ?YT)" "data ?YP ! i \<in> set (data ?YP)"
      using i(1) len by simp_all
    ultimately show "is_finite x"
      using a i len by (simp add: ce_dy_nth ce_entry_finite)
  qed
  define r where "r = length ?k + 3"
  define h' where "h' = ?k @ [unop fneg ?YT,
               \<lparr>shape = shape ?YP,
                data = map2 (\<lambda>t p. fdiv (fneg t) p) (data ?YT) (data ?YP)\<rparr>,
               \<lparr>shape = shape ?YP,
                data = map2 (\<lambda>t p. fdiv (fdiv (fneg t) p) (Fin (real n)))
                         (data ?YT) (data ?YP)\<rparr>, ?R]"
  have run': "fn_backward f c g ?k =
      Inr (if f = CustomLoss then [Some r, None] else [None, Some r], h')"
    unfolding run k(3,4) r_def h'_def ..
  have res: "h' ! r = ?R" by (simp add: h'_def r_def nth_append)
  have P1: "length (data (h' ! r)) = length (data ?YP)"
    unfolding res by (rule ce_dy_length[OF len])
  have P2: "\<forall>i<length (data ?YP). data ?YP ! i = Fin 0 \<longrightarrow> \<not> is_finite (data (h' ! r) ! i)"
    unfolding res by (rule zero)
  have P3: "(\<forall>p\<in>set (data ?YP). is_finite p \<and> p \<noteq> Fin 0) \<and>
       (\<forall>t\<in>set (data ?YT). is_finite t) \<and> is_finite gv \<longrightarrow>
       (\<forall>x\<in>set (data (h' ! r)). is_finite x)"
    unfolding res using fin by blast
  from run' P1 P2 P3 show ?thesis by blast
qed

theorem cross_entropy_backward_unguarded_division_witness:
  "\<exists>c out h.
     fn_apply NonDiffCrossEntropy [T 0, T 1]
       [\<lparr>shape = [2], data = [Fin 1, Fin 0]\<rparr>, \<lparr>shape = [2], data = [Fin 0, Fin 1]\<rparr>,
        \<lparr>shape = [], data = [Fin 1]\<rparr>] = Inr ((c, out), h) \<and>
     (\<exists>r h'. fn_backward NonDiffCrossEntropy c 2 (h @ []) = Inr ([None, Some r], h') \<and>
        \<not> is_finite (data (h' ! r) ! 0))"
proof -
  let ?init = "[\<lparr>shape = [2], data = [Fin 1, Fin 0]\<rparr>, \<lparr>shape = [2], data = [Fin 0, Fin 1]\<rparr>,
        \<lparr>shape = [], data = [Fin 1]\<rparr>]"
  have refs: "(0::nat) < length ?init" "(1::nat) < length ?init" by simp_all
  have wf: "wf (?init ! 0)" "wf (?init ! 1)" by (simp_all add: wf_def numel_def)
  have same: "shape (?init ! 0) = shape (?init ! 1)" by simp
  have f: "is_ce NonDiffCrossEntropy [T 0, T 1] 0 1" by (simp add: is_ce_def)
  have "shape (?init ! 0) = 2 # []"
    "broadcast_shapes (shape (?init ! 0)) (shape (?init ! 1)) = Some [2]"
    by (simp_all add: broadcast_shapes_same)
  from ce_apply_total[OF refs f this] obtain c out hs' where
    app: "fn_apply NonDiffCrossEntropy [T 0, T 1] ?init = Inr ((c, out), ?init @ hs')" by blast
  have g: "2 < length ((?init @ hs') @ [])"
    "((?init @ hs') @ []) ! 2 = \<lparr>shape = [], data = [Fin 1]\<rparr>" by simp_all
  from cross_entropy_backward_unguarded_division[OF refs wf same f app g]
  obtain r h' where
    "fn_backward NonDiffCrossEntropy c 2 ((?init @ hs') @ []) = Inr ([None, Some r], h')"
    "\<forall>i<length (data (?init ! 1)).
          data (?init ! 1) ! i = Fin 0 \<longrightarrow> \<not> is_finite (data (h' ! r) ! i)"
    by auto
  then have "fn_backward NonDiffCrossEntropy c 2 ((?init @ hs') @ []) = Inr ([None, Some r], h')"
    "\<not> is_finite (data (h' ! r) ! 0)"
    by simp_all
  then show ?thesis using app by blast
qed

subsection \<open>C3: one entry for each input\<close>

lemma bnd_InrE:
  assumes "bnd m f h = Inr r"
  obtains x h1 where "m h = Inr (x, h1)" "f x h1 = Inr r"
  using assms by (auto simp: bnd_def split: sum.splits)

lemma ret_Inr: "ret x h = Inr r \<Longrightarrow> r = (x, h)"
  by (simp add: ret_def)

lemma raise_Inr: "raise e h = Inr r \<Longrightarrow> False"
  by (simp add: raise_def)

lemma backward_slots:
  assumes "fn_backward f c g k = Inr (gs, h')"
  shows "case f of
           MyReLU \<Rightarrow> \<exists>r. gs = [Some r]
         | MatrixSum \<Rightarrow> \<exists>r. gs = [Some r]
         | MySub \<Rightarrow> \<exists>r1 r2. gs = [Some r1, Some r2, None]
         | NonDiffCrossEntropy \<Rightarrow> \<exists>r. gs = [None, Some r]
         | CustomLoss \<Rightarrow> \<exists>r. gs = [Some r, None]"
proof (cases f)
  case MyReLU
  then show ?thesis using assms
    by (auto simp: MyReLU_backward_def split: list.splits
        elim!: bnd_InrE dest!: ret_Inr raise_Inr)
next
  case MatrixSum
  then show ?thesis using assms
    by (auto simp: MatrixSum_backward_def split: list.splits
        elim!: bnd_InrE dest!: ret_Inr raise_Inr)
next
  case MySub
  then show ?thesis using assms
    by (auto simp: MySub_backward_def split: list.splits option.splits
        elim!: bnd_InrE dest!: ret_Inr raise_Inr)
next
  case NonDiffCrossEntropy
  then show ?thesis using assms
    by (auto simp: NonDiffCrossEntropy_backward_def split: list.splits
        elim!: bnd_InrE dest!: ret_Inr raise_Inr)
next
  case CustomLoss
  then show ?thesis using assms
    by (auto simp: CustomLoss_backward_def split: list.splits
        elim!: bnd_InrE dest!: ret_Inr raise_Inr)
qed

lemma apply_arity:
  assumes "fn_apply f args h = Inr r"
  shows "length args = n_inputs f \<or> f = MySub \<and> length args = 2"
  using assms
  by (induction f args rule: fn_apply.induct) (simp_all add: raise_def)


lemma MySub_broadcast_example:
  "MySub_apply 0 1 None
     [\<lparr>shape = [2], data = [Fin 5, Fin 6]\<rparr>, \<lparr>shape = [2, 2], data = [Fin 1, Fin 2, Fin 3, Fin 4]\<rparr>,
      \<lparr>shape = [2, 2], data = [Fin 1, Fin 1, Fin 1, Fin 1]\<rparr>] =
     Inr ((\<lparr>saved_tensors = [0, 1], ctx_constant = Some (Fin 1)\<rparr>, 4),
     [\<lparr>shape = [2], data = [Fin 5, Fin 6]\<rparr>, \<lparr>shape = [2, 2], data = [Fin 1, Fin 2, Fin 3, Fin 4]\<rparr>,
      \<lparr>shape = [2, 2], data = [Fin 1, Fin 1, Fin 1, Fin 1]\<rparr>, \<lparr>shape = [2, 2], data = [Fin 1, Fin 2, Fin 3, Fin 4]\<rparr>,
      \<lparr>shape = [2, 2], data = [Fin 4, Fin 4, Fin 2, Fin 2]\<rparr>])"
  "MySub_backward \<lparr>saved_tensors = [0, 1], ctx_constant = Some (Fin 1)\<rparr> 2
     [\<lparr>shape = [2], data = [Fin 5, Fin 6]\<rparr>, \<lparr>shape = [2, 2], data = [Fin 1, Fin 2, Fin 3, Fin 4]\<rparr>,
      \<lparr>shape = [2, 2], data = [Fin 1, Fin 1, Fin 1, Fin 1]\<rparr>, \<lparr>shape = [2, 2], data = [Fin 1, Fin 2, Fin 3, Fin 4]\<rparr>,
      \<lparr>shape = [2, 2], data = [Fin 4, Fin 4, Fin 2, Fin 2]\<rparr>] =
     Inr ([Some 6, Some 9, None],
     [\<lparr>shape = [2], data = [Fin 5, Fin 6]\<rparr>, \<lparr>shape = [2, 2], data = [Fin 1, Fin 2, Fin 3, Fin 4]\<rparr>,
      \<lparr>shape = [2, 2], data = [Fin 1, Fin 1, Fin 1, Fin 1]\<rparr>, \<lparr>shape = [2, 2], data = [Fin 1, Fin 2, Fin 3, Fin 4]\<rparr>,
      \<lparr>shape = [2, 2], data = [Fin 4, Fin 4, Fin 2, Fin 2]\<rparr>,
      \<lparr>shape = [2], data = [Fin 1, Fin 1]\<rparr>, \<lparr>shape = [2, 2], data = [Fin 1, Fin 1, Fin 1, Fin 1]\<rparr>,
      \<lparr>shape = [2, 2], data = [Fin (- 1), Fin (- 1), Fin (- 1), Fin (- 1)]\<rparr>,
      \<lparr>shape = [2, 2], data = [Fin 1, Fin 1, Fin 1, Fin 1]\<rparr>,
      \<lparr>shape = [2, 2], data = [Fin (- 1), Fin (- 1), Fin (- 1), Fin (- 1)]\<rparr>])"
proof -
  have s: "binop RuntimeError fsub \<lparr>shape = [2], data = [Fin 5, Fin 6]\<rparr>
      \<lparr>shape = [2, 2], data = [Fin 1, Fin 2, Fin 3, Fin 4]\<rparr> = Inr \<lparr>shape = [2, 2], data = [Fin 4, Fin 4, Fin 2, Fin 2]\<rparr>"
    by code_simp
  show "MySub_apply 0 1 None
     [\<lparr>shape = [2], data = [Fin 5, Fin 6]\<rparr>, \<lparr>shape = [2, 2], data = [Fin 1, Fin 2, Fin 3, Fin 4]\<rparr>,
      \<lparr>shape = [2, 2], data = [Fin 1, Fin 1, Fin 1, Fin 1]\<rparr>] =
     Inr ((\<lparr>saved_tensors = [0, 1], ctx_constant = Some (Fin 1)\<rparr>, 4),
     [\<lparr>shape = [2], data = [Fin 5, Fin 6]\<rparr>, \<lparr>shape = [2, 2], data = [Fin 1, Fin 2, Fin 3, Fin 4]\<rparr>,
      \<lparr>shape = [2, 2], data = [Fin 1, Fin 1, Fin 1, Fin 1]\<rparr>, \<lparr>shape = [2, 2], data = [Fin 1, Fin 2, Fin 3, Fin 4]\<rparr>,
      \<lparr>shape = [2, 2], data = [Fin 4, Fin 4, Fin 2, Fin 2]\<rparr>])"
    using s by (simp add: MySub_apply_run alpha_of_def unop_def)
  have o: "ones_like \<lparr>shape = [2], data = [Fin 5, Fin 6]\<rparr> = \<lparr>shape = [2], data = [Fin 1, Fin 1]\<rparr>"
    "ones_like \<lparr>shape = [2, 2], data = [Fin 1, Fin 2, Fin 3, Fin 4]\<rparr> = \<lparr>shape = [2, 2], data = [Fin 1, Fin 1, Fin 1, Fin 1]\<rparr>"
    by code_simp+
  have d1: "binop RuntimeError fmul \<lparr>shape = [2, 2], data = [Fin 1, Fin 1, Fin 1, Fin 1]\<rparr>
      \<lparr>shape = [2], data = [Fin 1, Fin 1]\<rparr> = Inr \<lparr>shape = [2, 2], data = [Fin 1, Fin 1, Fin 1, Fin 1]\<rparr>"
    by code_simp
  have d2: "binop RuntimeError fmul \<lparr>shape = [2, 2], data = [Fin (- 1), Fin (- 1), Fin (- 1), Fin (- 1)]\<rparr>
      \<lparr>shape = [2, 2], data = [Fin 1, Fin 1, Fin 1, Fin 1]\<rparr> =
      Inr \<lparr>shape = [2, 2], data = [Fin (- 1), Fin (- 1), Fin (- 1), Fin (- 1)]\<rparr>"
    by code_simp
  show "MySub_backward \<lparr>saved_tensors = [0, 1], ctx_constant = Some (Fin 1)\<rparr> 2
     [\<lparr>shape = [2], data = [Fin 5, Fin 6]\<rparr>, \<lparr>shape = [2, 2], data = [Fin 1, Fin 2, Fin 3, Fin 4]\<rparr>,
      \<lparr>shape = [2, 2], data = [Fin 1, Fin 1, Fin 1, Fin 1]\<rparr>, \<lparr>shape = [2, 2], data = [Fin 1, Fin 2, Fin 3, Fin 4]\<rparr>,
      \<lparr>shape = [2, 2], data = [Fin 4, Fin 4, Fin 2, Fin 2]\<rparr>] =
     Inr ([Some 6, Some 9, None],
     [\<lparr>shape = [2], data = [Fin 5, Fin 6]\<rparr>, \<lparr>shape = [2, 2], data = [Fin 1, Fin 2, Fin 3, Fin 4]\<rparr>,
      \<lparr>shape = [2, 2], data = [Fin 1, Fin 1, Fin 1, Fin 1]\<rparr>, \<lparr>shape = [2, 2], data = [Fin 1, Fin 2, Fin 3, Fin 4]\<rparr>,
      \<lparr>shape = [2, 2], data = [Fin 4, Fin 4, Fin 2, Fin 2]\<rparr>,
      \<lparr>shape = [2], data = [Fin 1, Fin 1]\<rparr>, \<lparr>shape = [2, 2], data = [Fin 1, Fin 1, Fin 1, Fin 1]\<rparr>,
      \<lparr>shape = [2, 2], data = [Fin (- 1), Fin (- 1), Fin (- 1), Fin (- 1)]\<rparr>,
      \<lparr>shape = [2, 2], data = [Fin 1, Fin 1, Fin 1, Fin 1]\<rparr>,
      \<lparr>shape = [2, 2], data = [Fin (- 1), Fin (- 1), Fin (- 1), Fin (- 1)]\<rparr>])"
    using d1 d2 by (simp add: MySub_backward_run unop_def o)
qed

text \<open>
  Claim C3. For each of the five functions, \<open>backward\<close> returns as many entries as
  \<open>forward\<close> has inputs, in the order of the inputs, and \<open>None\<close> in exactly the slots of
  the inputs that take no gradient: one tensor for the one input of \<open>MyReLU\<close> and of
  \<open>MatrixSum\<close>; two tensors and \<open>None\<close> for the inputs \<open>(a, b, alpha)\<close> of \<open>MySub\<close>;
  \<open>None\<close> and a tensor for \<open>(y_true, y_pred)\<close> of \<open>NonDiffCrossEntropy\<close>; a tensor and
  \<open>None\<close> for \<open>(y_pred, y_true)\<close> of \<open>CustomLoss\<close>. \<open>forward\<close> accepts exactly
  \<open>n_inputs\<close> arguments, or two for \<open>MySub\<close>, whose third has a default.
\<close>

theorem backward_one_entry_per_input:
  assumes "fn_backward f c g k = Inr (gs, h')"
  shows "length gs = n_inputs f \<and>
     (case f of
        MyReLU \<Rightarrow> \<exists>r. gs = [Some r]
      | MatrixSum \<Rightarrow> \<exists>r. gs = [Some r]
      | MySub \<Rightarrow> \<exists>r1 r2. gs = [Some r1, Some r2, None]
      | NonDiffCrossEntropy \<Rightarrow> \<exists>r. gs = [None, Some r]
      | CustomLoss \<Rightarrow> \<exists>r. gs = [Some r, None]) \<and>
     (\<forall>args h0 res. fn_apply f args h0 = Inr res \<longrightarrow>
        length args = n_inputs f \<or> f = MySub \<and> length args = 2)"
  using backward_slots[OF assms] apply_arity[of f]
  by (cases f) auto

theorem backward_one_entry_per_input_witness:
  "fn_backward MySub \<lparr>saved_tensors = [0, 1], ctx_constant = Some (Fin 1)\<rparr> 2
     [\<lparr>shape = [2], data = [Fin 5, Fin 6]\<rparr>, \<lparr>shape = [2, 2], data = [Fin 1, Fin 2, Fin 3, Fin 4]\<rparr>,
      \<lparr>shape = [2, 2], data = [Fin 1, Fin 1, Fin 1, Fin 1]\<rparr>, \<lparr>shape = [2, 2], data = [Fin 1, Fin 2, Fin 3, Fin 4]\<rparr>,
      \<lparr>shape = [2, 2], data = [Fin 4, Fin 4, Fin 2, Fin 2]\<rparr>] =
     Inr ([Some 6, Some 9, None],
     [\<lparr>shape = [2], data = [Fin 5, Fin 6]\<rparr>, \<lparr>shape = [2, 2], data = [Fin 1, Fin 2, Fin 3, Fin 4]\<rparr>,
      \<lparr>shape = [2, 2], data = [Fin 1, Fin 1, Fin 1, Fin 1]\<rparr>, \<lparr>shape = [2, 2], data = [Fin 1, Fin 2, Fin 3, Fin 4]\<rparr>,
      \<lparr>shape = [2, 2], data = [Fin 4, Fin 4, Fin 2, Fin 2]\<rparr>,
      \<lparr>shape = [2], data = [Fin 1, Fin 1]\<rparr>, \<lparr>shape = [2, 2], data = [Fin 1, Fin 1, Fin 1, Fin 1]\<rparr>,
      \<lparr>shape = [2, 2], data = [Fin (- 1), Fin (- 1), Fin (- 1), Fin (- 1)]\<rparr>,
      \<lparr>shape = [2, 2], data = [Fin 1, Fin 1, Fin 1, Fin 1]\<rparr>,
      \<lparr>shape = [2, 2], data = [Fin (- 1), Fin (- 1), Fin (- 1), Fin (- 1)]\<rparr>]) \<and>
   length [Some (6::nat), Some 9, None] = n_inputs MySub"
proof -
  have b: "fn_backward MySub \<lparr>saved_tensors = [0, 1], ctx_constant = Some (Fin 1)\<rparr> 2
     [\<lparr>shape = [2], data = [Fin 5, Fin 6]\<rparr>, \<lparr>shape = [2, 2], data = [Fin 1, Fin 2, Fin 3, Fin 4]\<rparr>,
      \<lparr>shape = [2, 2], data = [Fin 1, Fin 1, Fin 1, Fin 1]\<rparr>, \<lparr>shape = [2, 2], data = [Fin 1, Fin 2, Fin 3, Fin 4]\<rparr>,
      \<lparr>shape = [2, 2], data = [Fin 4, Fin 4, Fin 2, Fin 2]\<rparr>] =
     Inr ([Some 6, Some 9, None],
     [\<lparr>shape = [2], data = [Fin 5, Fin 6]\<rparr>, \<lparr>shape = [2, 2], data = [Fin 1, Fin 2, Fin 3, Fin 4]\<rparr>,
      \<lparr>shape = [2, 2], data = [Fin 1, Fin 1, Fin 1, Fin 1]\<rparr>, \<lparr>shape = [2, 2], data = [Fin 1, Fin 2, Fin 3, Fin 4]\<rparr>,
      \<lparr>shape = [2, 2], data = [Fin 4, Fin 4, Fin 2, Fin 2]\<rparr>,
      \<lparr>shape = [2], data = [Fin 1, Fin 1]\<rparr>, \<lparr>shape = [2, 2], data = [Fin 1, Fin 1, Fin 1, Fin 1]\<rparr>,
      \<lparr>shape = [2, 2], data = [Fin (- 1), Fin (- 1), Fin (- 1), Fin (- 1)]\<rparr>,
      \<lparr>shape = [2, 2], data = [Fin 1, Fin 1, Fin 1, Fin 1]\<rparr>,
      \<lparr>shape = [2, 2], data = [Fin (- 1), Fin (- 1), Fin (- 1), Fin (- 1)]\<rparr>])"
    using MySub_broadcast_example(2) by simp
  from backward_one_entry_per_input[OF b] have "length [Some (6::nat), Some 9, None] = n_inputs MySub"
    by blast
  with b show ?thesis by blast
qed

subsection \<open>C8: no effect on the tensors of the caller\<close>

lemma saved_of_success:
  assumes "fn_backward f c g k = Inr res"
  shows "case f of
           MyReLU \<Rightarrow> \<exists>x. saved_tensors c = [x]
         | MatrixSum \<Rightarrow> \<exists>x. saved_tensors c = [x]
         | MySub \<Rightarrow> \<exists>a b alpha. saved_tensors c = [a, b] \<and> ctx_constant c = Some alpha
         | NonDiffCrossEntropy \<Rightarrow> \<exists>yt yp. saved_tensors c = [yt, yp]
         | CustomLoss \<Rightarrow> \<exists>yp yt. saved_tensors c = [yp, yt]"
  using assms
  by (cases f)
     (auto simp: MyReLU_backward_def MatrixSum_backward_def MySub_backward_def
        NonDiffCrossEntropy_backward_def CustomLoss_backward_def raise_def
        split: list.splits option.splits)

lemma backward_extends:
  assumes g: "g < length k" and s: "\<forall>x\<in>set (saved_tensors c). x < length k"
    and b: "fn_backward f c g k = Inr (gs, h')"
  shows "\<exists>ts. h' = k @ ts \<and>
      (\<forall>r. Some r \<in> set gs \<longrightarrow> length k \<le> r \<and> r < length k + length ts) \<and>
      (\<forall>e. fn_backward f c g (k @ e) =
             Inr (map (map_option (\<lambda>r. r + length e)) gs, k @ e @ ts))"
proof (cases f)
  case MyReLU
  with saved_of_success[OF b] obtain x where c: "saved_tensors c = [x]" by auto
  then have x: "x < length k" using s by simp
  have ext: "x < length (k @ e)" "g < length (k @ e)" "(k @ e) ! x = k ! x" "(k @ e) ! g = k ! g"
    for e using x g by (simp_all add: nth_append)
  from b MyReLU obtain t where
    t: "mask_assign (k ! g) (unop (\<lambda>v. flt v 0) (k ! x)) (Fin 0) = Inr t"
    and r: "gs = [Some (length k)]" "h' = k @ [t]"
    by (cases "mask_assign (k ! g) (unop (\<lambda>v. flt v 0) (k ! x)) (Fin 0)")
       (auto simp: MyReLU_backward_run[OF c x g])
  show ?thesis
    using MyReLU r t by (simp add: MyReLU_backward_run[OF c ext(1,2)] ext(3,4))
next
  case MatrixSum
  with saved_of_success[OF b] obtain x where c: "saved_tensors c = [x]" by auto
  then have x: "x < length k" using s by simp
  have ext: "x < length (k @ e)" "g < length (k @ e)" "(k @ e) ! x = k ! x" "(k @ e) ! g = k ! g"
    for e using x g by (simp_all add: nth_append)
  from b MatrixSum obtain t where
    t: "binop RuntimeError fmul (k ! g) (ones_like (k ! x)) = Inr t"
    and r: "gs = [Some (Suc (length k))]" "h' = k @ [ones_like (k ! x), t]"
    by (cases "binop RuntimeError fmul (k ! g) (ones_like (k ! x))")
       (auto simp: MatrixSum_backward_run[OF c x g])
  show ?thesis
    using MatrixSum r t by (simp add: MatrixSum_backward_run[OF c ext(1,2)] ext(3,4))
next
  case MySub
  with saved_of_success[OF b] obtain x y alpha where
    c: "saved_tensors c = [x, y]" "ctx_constant c = Some alpha" by auto
  then have x: "x < length k" "y < length k" using s by simp_all
  have ext: "x < length (k @ e)" "y < length (k @ e)" "g < length (k @ e)"
    "(k @ e) ! x = k ! x" "(k @ e) ! y = k ! y" "(k @ e) ! g = k ! g"
    for e using x g by (simp_all add: nth_append)
  let ?S = "unop (\<lambda>v. fmul v (fneg alpha)) (k ! g)"
  from b MySub obtain d1 d2 where
    t: "binop RuntimeError fmul (k ! g) (ones_like (k ! x)) = Inr d1"
       "binop RuntimeError fmul ?S (ones_like (k ! y)) = Inr d2"
    and r: "gs = [Some (length k + 1), Some (length k + 4), None]"
      "h' = k @ [ones_like (k ! x), d1, ?S, ones_like (k ! y), d2]"
    by (cases "binop RuntimeError fmul (k ! g) (ones_like (k ! x))";
        cases "binop RuntimeError fmul ?S (ones_like (k ! y))")
       (auto simp: MySub_backward_run[OF c x g])
  show ?thesis
    using MySub r t by (simp add: MySub_backward_run[OF c ext(1,2,3)] ext(4,5,6))
next
  case NonDiffCrossEntropy
  with saved_of_success[OF b] obtain yt yp where c: "saved_tensors c = [yt, yp]" by auto
  then have x: "yp < length k" "yt < length k" using s by simp_all
  have ext: "yp < length (k @ e)" "yt < length (k @ e)" "g < length (k @ e)"
    "(k @ e) ! yt = k ! yt" "(k @ e) ! yp = k ! yp" "(k @ e) ! g = k ! g"
    for e using x g by (simp_all add: nth_append)
  from b NonDiffCrossEntropy obtain ts where ts: "ce_grad (k ! yt) (k ! yp) = Inr ts"
    by (cases "ce_grad (k ! yt) (k ! yp)") (auto simp: NonDiffCrossEntropy_backward_run[OF c x g])
  then have l: "length ts = 3" by (auto simp: ce_grad_def split: sum.splits)
  from b NonDiffCrossEntropy ts obtain t where
    t: "binop RuntimeError fmul (ts ! 2) (k ! g) = Inr t"
    and r: "gs = [None, Some (length k + 3)]" "h' = k @ ts @ [t]"
    by (cases "binop RuntimeError fmul (ts ! 2) (k ! g)")
       (auto simp: NonDiffCrossEntropy_backward_run[OF c x g])
  show ?thesis
    using NonDiffCrossEntropy r t ts l
    by (simp add: NonDiffCrossEntropy_backward_run[OF c ext(1,2,3)] ext(4,5,6))
next
  case CustomLoss
  with saved_of_success[OF b] obtain yp yt where c: "saved_tensors c = [yp, yt]" by auto
  then have x: "yp < length k" "yt < length k" using s by simp_all
  have ext: "yp < length (k @ e)" "yt < length (k @ e)" "g < length (k @ e)"
    "(k @ e) ! yt = k ! yt" "(k @ e) ! yp = k ! yp" "(k @ e) ! g = k ! g"
    for e using x g by (simp_all add: nth_append)
  from b CustomLoss obtain ts where ts: "ce_grad (k ! yt) (k ! yp) = Inr ts"
    by (cases "ce_grad (k ! yt) (k ! yp)") (auto simp: CustomLoss_backward_run[OF c x g])
  then have l: "length ts = 3" by (auto simp: ce_grad_def split: sum.splits)
  from b CustomLoss ts obtain t where
    t: "binop RuntimeError fmul (k ! g) (ts ! 2) = Inr t"
    and r: "gs = [Some (length k + 3), None]" "h' = k @ ts @ [t]"
    by (cases "binop RuntimeError fmul (k ! g) (ts ! 2)")
       (auto simp: CustomLoss_backward_run[OF c x g])
  show ?thesis
    using CustomLoss r t ts l
    by (simp add: CustomLoss_backward_run[OF c ext(1,2,3)] ext(4,5,6))
qed


lemma apply_cases:
  assumes "fn_apply f args h0 = Inr res"
  obtains (ReLU) x where "f = MyReLU" "args = [T x]"
  | (Sum) x where "f = MatrixSum" "args = [T x]"
  | (Sub) a b ao where "f = MySub" "args = [T a, T b] \<and> ao = None \<or> (\<exists>al. args = [T a, T b, S al] \<and> ao = Some al)"
  | (NonDiff) yt yp where "f = NonDiffCrossEntropy" "args = [T yt, T yp]"
  | (Custom) yp yt where "f = CustomLoss" "args = [T yp, T yt]"
  using assms
  by (induction f args rule: fn_apply.induct) (auto simp: raise_def)


lemma apply_extends:
  assumes a: "\<forall>x. T x \<in> set args \<longrightarrow> x < length h0"
    and app: "fn_apply f args h0 = Inr ((c, out), h)"
  shows "\<exists>ts. h = h0 @ ts \<and> length h0 \<le> out \<and> out < length h0 + length ts \<and>
      (\<forall>x\<in>set (saved_tensors c). x < length h0) \<and>
      (\<forall>e. fn_apply f args (h0 @ e) = Inr ((c, out + length e), h0 @ e @ ts))"
  using app
proof (cases rule: apply_cases)
  case (ReLU x)
  then have x: "x < length h0" using a by simp
  have ext: "x < length (h0 @ e)" "(h0 @ e) ! x = h0 ! x" for e
    using x by (simp_all add: nth_append)
  show ?thesis
    using app ReLU x by (auto simp: MyReLU_forward_run ext)
next
  case (Sum x)
  then have x: "x < length h0" using a by simp
  have ext: "x < length (h0 @ e)" "(h0 @ e) ! x = h0 ! x" for e
    using x by (simp_all add: nth_append)
  show ?thesis
    using app Sum x by (auto simp: MatrixSum_forward_run ext)
next
  case (Sub x y ao)
  then have ap: "fn_apply f args = MySub_apply x y ao" by auto
  have x: "x < length h0" "y < length h0" using a Sub by auto
  have ext: "x < length (h0 @ e)" "y < length (h0 @ e)"
    "(h0 @ e) ! x = h0 ! x" "(h0 @ e) ! y = h0 ! y" for e
    using x by (simp_all add: nth_append)
  let ?B = "unop (\<lambda>v. fmul v (alpha_of ao)) (h0 ! y)"
  from app obtain t where t: "binop RuntimeError fsub (h0 ! x) ?B = Inr t"
    and r: "c = \<lparr>saved_tensors = [x, y], ctx_constant = Some (alpha_of ao)\<rparr>"
      "out = Suc (length h0)" "h = h0 @ [?B, t]"
    unfolding ap by (cases "binop RuntimeError fsub (h0 ! x) ?B") (auto simp: MySub_apply_run[OF x])
  show ?thesis
    unfolding ap using r t x by (simp add: MySub_apply_run[OF ext(1,2)] ext(3,4))
next
  case (NonDiff yt yp)
  then have x: "yp < length h0" "yt < length h0" using a by simp_all
  have ext: "yp < length (h0 @ e)" "yt < length (h0 @ e)"
    "(h0 @ e) ! yt = h0 ! yt" "(h0 @ e) ! yp = h0 ! yp" for e
    using x by (simp_all add: nth_append)
  from app NonDiff obtain ts where ts: "ce_loss ValueError (h0 ! yt) (h0 ! yp) = Inr ts"
    and r: "c = empty_ctx\<lparr>saved_tensors := [yt, yp]\<rparr>" "out = length h0 + 6"
      "h = h0 @ take 5 ts @ [ts ! 4, ts ! 5]"
    by (cases "ce_loss ValueError (h0 ! yt) (h0 ! yp)")
       (auto simp: NonDiffCrossEntropy_forward_run[OF x])
  from ce_loss_Inr[OF ts] have l: "length ts = 6" by auto
  show ?thesis
    using NonDiff r ts l x
    by (simp add: NonDiffCrossEntropy_forward_run[OF ext(1,2)] ext(3,4))
next
  case (Custom yp yt)
  then have x: "yp < length h0" "yt < length h0" using a by simp_all
  have ext: "yp < length (h0 @ e)" "yt < length (h0 @ e)"
    "(h0 @ e) ! yt = h0 ! yt" "(h0 @ e) ! yp = h0 ! yp" for e
    using x by (simp_all add: nth_append)
  from app Custom obtain ts where ts: "ce_loss RuntimeError (h0 ! yt) (h0 ! yp) = Inr ts"
    and r: "c = empty_ctx\<lparr>saved_tensors := [yp, yt]\<rparr>" "out = length h0 + 5" "h = h0 @ ts"
    by (cases "ce_loss RuntimeError (h0 ! yt) (h0 ! yp)")
       (auto simp: CustomLoss_forward_run[OF x])
  from ce_loss_Inr[OF ts] have l: "length ts = 6" by auto
  show ?thesis
    using Custom r ts l x
    by (simp add: CustomLoss_forward_run[OF ext(1,2)] ext(3,4))
qed

lemma nth_shifted:
  assumes "length k \<le> r" "r < length k + length ts"
  shows "(k @ ts @ ts) ! (r + length ts) = (k @ ts) ! r"
proof -
  define j where "j = r - length k"
  have j: "r = length k + j" "j < length ts"
    using assms by (simp_all add: j_def)
  then show ?thesis by (simp add: nth_append)
qed

text \<open>
  Claim C8. \<open>forward\<close> and \<open>backward\<close> are pure as the caller sees them. For each of the
  five functions, a call of \<open>forward\<close> and a call of \<open>backward\<close> leave every tensor that
  existed before the call as it was, so \<open>grad_output\<close> and the saved tensors are not
  changed (\<open>MyReLU.backward\<close> writes its zeros into the clone it has just made), and a
  second call with the same arguments returns tensors equal to those of the first call.
\<close>

theorem forward_backward_pure:
  assumes a: "\<forall>x. T x \<in> set args \<longrightarrow> x < length h0"
    and app: "fn_apply f args h0 = Inr ((c, out), h)"
    and g: "g < length (h @ hs)"
    and b: "fn_backward f c g (h @ hs) = Inr (gs, h')"
  shows "take (length h0) h = h0 \<and>
     (\<exists>out2 h2. fn_apply f args h = Inr ((c, out2), h2) \<and> h2 ! out2 = h ! out) \<and>
     take (length (h @ hs)) h' = h @ hs \<and> h' ! g = (h @ hs) ! g \<and>
     (\<forall>x\<in>set (saved_tensors c). h' ! x = h0 ! x) \<and>
     (\<exists>gs2 h2. fn_backward f c g h' = Inr (gs2, h2) \<and>
        map (map_option (\<lambda>r. h2 ! r)) gs2 = map (map_option (\<lambda>r. h' ! r)) gs)"
proof -
  from apply_extends[OF a app] obtain ts where
    h: "h = h0 @ ts" and o: "length h0 \<le> out" "out < length h0 + length ts"
    and s: "\<forall>x\<in>set (saved_tensors c). x < length h0"
    and again: "\<And>e. fn_apply f args (h0 @ e) = Inr ((c, out + length e), h0 @ e @ ts)"
    by blast
  let ?k = "h @ hs"
  have s': "\<forall>x\<in>set (saved_tensors c). x < length ?k" using s h by auto
  from backward_extends[OF g s' b] obtain us where
    h': "h' = ?k @ us"
    and rs: "\<And>r. Some r \<in> set gs \<Longrightarrow> length ?k \<le> r \<and> r < length ?k + length us"
    and bagain: "\<And>e. fn_backward f c g (?k @ e) =
             Inr (map (map_option (\<lambda>r. r + length e)) gs, ?k @ e @ us)"
    by blast
  have 1: "take (length h0) h = h0" using h by simp
  have "fn_apply f args h = Inr ((c, out + length ts), h0 @ ts @ ts)"
    using again[of ts] h by simp
  moreover have "(h0 @ ts @ ts) ! (out + length ts) = h ! out"
    unfolding h using o by (rule nth_shifted)
  ultimately have 2: "\<exists>out2 h2. fn_apply f args h = Inr ((c, out2), h2) \<and> h2 ! out2 = h ! out"
    by blast
  have 3: "take (length ?k) h' = ?k" "h' ! g = ?k ! g"
    using h' g by (simp_all add: nth_append)
  have 4: "\<forall>x\<in>set (saved_tensors c). h' ! x = h0 ! x"
    using s h h' by (auto simp: nth_append)
  have run2: "fn_backward f c g h' =
      Inr (map (map_option (\<lambda>r. r + length us)) gs, ?k @ us @ us)"
    using bagain[of us] h' by simp
  have "map (map_option (\<lambda>r. (?k @ us @ us) ! r)) (map (map_option (\<lambda>r. r + length us)) gs) =
      map (map_option (\<lambda>r. h' ! r)) gs"
  proof -
    have "map_option (\<lambda>r. (?k @ us @ us) ! r) (map_option (\<lambda>r. r + length us) x) =
        map_option (\<lambda>r. h' ! r) x" if "x \<in> set gs" for x
    proof (cases x)
      case None
      then show ?thesis by simp
    next
      case (Some r)
      then show ?thesis using rs[of r] that nth_shifted[of ?k r us] h' by simp
    qed
    then show ?thesis by simp
  qed
  with run2 have 5: "\<exists>gs2 h2. fn_backward f c g h' = Inr (gs2, h2) \<and>
        map (map_option (\<lambda>r. h2 ! r)) gs2 = map (map_option (\<lambda>r. h' ! r)) gs"
    by blast
  from 1 2 3 4 5 show ?thesis by blast
qed


theorem forward_backward_pure_witness:
  "fn_apply MyReLU [T 0] [\<lparr>shape = [2], data = [Fin 1, Fin (- 2)]\<rparr>, \<lparr>shape = [2], data = [Fin 3, Fin 5]\<rparr>] =
     Inr ((\<lparr>saved_tensors = [0], ctx_constant = None\<rparr>, 2), [\<lparr>shape = [2], data = [Fin 1, Fin (- 2)]\<rparr>, \<lparr>shape = [2], data = [Fin 3, Fin 5]\<rparr>, \<lparr>shape = [2], data = [Fin 1, Fin 0]\<rparr>]) \<and>
   fn_backward MyReLU \<lparr>saved_tensors = [0], ctx_constant = None\<rparr> 1
       ([\<lparr>shape = [2], data = [Fin 1, Fin (- 2)]\<rparr>, \<lparr>shape = [2], data = [Fin 3, Fin 5]\<rparr>, \<lparr>shape = [2], data = [Fin 1, Fin 0]\<rparr>] @ []) =
     Inr ([Some 3], [\<lparr>shape = [2], data = [Fin 1, Fin (- 2)]\<rparr>, \<lparr>shape = [2], data = [Fin 3, Fin 5]\<rparr>, \<lparr>shape = [2], data = [Fin 1, Fin 0]\<rparr>, \<lparr>shape = [2], data = [Fin 3, Fin 0]\<rparr>]) \<and>
   [\<lparr>shape = [2], data = [Fin 1, Fin (- 2)]\<rparr>, \<lparr>shape = [2], data = [Fin 3, Fin 5]\<rparr>, \<lparr>shape = [2], data = [Fin 1, Fin 0]\<rparr>, \<lparr>shape = [2], data = [Fin 3, Fin 0]\<rparr>] ! 1 = \<lparr>shape = [2], data = [Fin 3, Fin 5]\<rparr> \<and>
   take (length [\<lparr>shape = [2], data = [Fin 1, Fin (- 2)]\<rparr>, \<lparr>shape = [2], data = [Fin 3, Fin 5]\<rparr>, \<lparr>shape = [2], data = [Fin 1, Fin 0]\<rparr>])
     [\<lparr>shape = [2], data = [Fin 1, Fin (- 2)]\<rparr>, \<lparr>shape = [2], data = [Fin 3, Fin 5]\<rparr>, \<lparr>shape = [2], data = [Fin 1, Fin 0]\<rparr>, \<lparr>shape = [2], data = [Fin 3, Fin 0]\<rparr>] =
     [\<lparr>shape = [2], data = [Fin 1, Fin (- 2)]\<rparr>, \<lparr>shape = [2], data = [Fin 3, Fin 5]\<rparr>, \<lparr>shape = [2], data = [Fin 1, Fin 0]\<rparr>]"
proof -
  let ?init = "[\<lparr>shape = [2], data = [Fin 1, Fin (- 2)]\<rparr>, \<lparr>shape = [2], data = [Fin 3, Fin 5]\<rparr>]"
  let ?after = "[\<lparr>shape = [2], data = [Fin 1, Fin (- 2)]\<rparr>, \<lparr>shape = [2], data = [Fin 3, Fin 5]\<rparr>, \<lparr>shape = [2], data = [Fin 1, Fin 0]\<rparr>]"
  let ?final = "[\<lparr>shape = [2], data = [Fin 1, Fin (- 2)]\<rparr>, \<lparr>shape = [2], data = [Fin 3, Fin 5]\<rparr>, \<lparr>shape = [2], data = [Fin 1, Fin 0]\<rparr>, \<lparr>shape = [2], data = [Fin 3, Fin 0]\<rparr>]"
  have a: "\<forall>x. T x \<in> set [T 0] \<longrightarrow> x < length ?init" by simp
  have app: "fn_apply MyReLU [T 0] ?init = Inr ((\<lparr>saved_tensors = [0], ctx_constant = None\<rparr>, 2), ?after)"
    by (simp add: MyReLU_forward_run empty_ctx_def unop_def)
  have g: "1 < length (?after @ [])" by simp
  have b: "fn_backward MyReLU \<lparr>saved_tensors = [0], ctx_constant = None\<rparr> 1 (?after @ []) = Inr ([Some 3], ?final)"
    by (simp add: MyReLU_backward_run mask_assign_def unop_def numel_def)
  from forward_backward_pure[OF a app g b]
  have "?final ! 1 = (?after @ []) ! 1" "take (length (?after @ [])) ?final = ?after @ []"
    by blast+
  with app b show ?thesis by simp
qed

subsection \<open>C4: the shape of a gradient\<close>

lemma broadcast_rev_commute: "broadcast_rev xs ys = broadcast_rev ys xs"
proof (induction xs ys rule: broadcast_rev.induct)
  case (1 ys)
  then show ?case by (simp add: broadcast_rev_Nil2)
next
  case (2 x xs)
  then show ?case by simp
next
  case (3 x xs y ys)
  then show ?case by auto
qed

lemma broadcast_shapes_commute: "broadcast_shapes a b = broadcast_shapes b a"
  by (simp add: broadcast_shapes_def broadcast_rev_commute)

lemma shape_mask_assign: "mask_assign t m v = Inr t' \<Longrightarrow> shape t' = shape t"
  by (auto simp: mask_assign_def split: if_splits)

lemma shape_tsum: "shape (tsum a) = []"
  by (simp add: tsum_def)

lemma shape_ones_like: "shape (ones_like a) = shape a"
  by (simp add: ones_like_def)

lemma ce_grad_shape:
  assumes "ce_grad yt yp = Inr ts"
  shows "length ts = 3 \<and> broadcast_shapes (shape yt) (shape yp) = Some (shape (ts ! 2))"
proof -
  from assms obtain n q where "binop RuntimeError fdiv (unop fneg yt) yp = Inr q"
    "ts = [unop fneg yt, q, unop (\<lambda>x. fdiv x (Fin (real n))) q]"
    by (auto simp: ce_grad_def split: sum.splits)
  then show ?thesis using shape_binop[of RuntimeError fdiv "unop fneg yt" yp q]
    by (simp add: shape_unop)
qed


text \<open>
  Claim C4 as it is written fails for \<open>MySub\<close> on inputs of different shapes: with \<open>a\<close>
  of shape \<open>[2]\<close>, \<open>b\<close> of shape \<open>[2, 2]\<close> and \<open>grad_output\<close> of the shape \<open>[2, 2]\<close> of
  the output, the gradient returned for \<open>a\<close> has the shape \<open>[2, 2]\<close>, not \<open>[2]\<close>.
\<close>

theorem MySub_gradient_shape_differs:
  "fn_apply MySub [T 0, T 1]
     [\<lparr>shape = [2], data = [Fin 5, Fin 6]\<rparr>,
      \<lparr>shape = [2, 2], data = [Fin 1, Fin 2, Fin 3, Fin 4]\<rparr>,
      \<lparr>shape = [2, 2], data = [Fin 1, Fin 1, Fin 1, Fin 1]\<rparr>] =
     Inr ((\<lparr>saved_tensors = [0, 1], ctx_constant = Some (Fin 1)\<rparr>, 4),
     [\<lparr>shape = [2], data = [Fin 5, Fin 6]\<rparr>,
      \<lparr>shape = [2, 2], data = [Fin 1, Fin 2, Fin 3, Fin 4]\<rparr>,
      \<lparr>shape = [2, 2], data = [Fin 1, Fin 1, Fin 1, Fin 1]\<rparr>,
      \<lparr>shape = [2, 2], data = [Fin 1, Fin 2, Fin 3, Fin 4]\<rparr>,
      \<lparr>shape = [2, 2], data = [Fin 4, Fin 4, Fin 2, Fin 2]\<rparr>]) \<and>
   fn_backward MySub \<lparr>saved_tensors = [0, 1], ctx_constant = Some (Fin 1)\<rparr> 2
     [\<lparr>shape = [2], data = [Fin 5, Fin 6]\<rparr>,
      \<lparr>shape = [2, 2], data = [Fin 1, Fin 2, Fin 3, Fin 4]\<rparr>,
      \<lparr>shape = [2, 2], data = [Fin 1, Fin 1, Fin 1, Fin 1]\<rparr>,
      \<lparr>shape = [2, 2], data = [Fin 1, Fin 2, Fin 3, Fin 4]\<rparr>,
      \<lparr>shape = [2, 2], data = [Fin 4, Fin 4, Fin 2, Fin 2]\<rparr>] =
     Inr ([Some 6, Some 9, None],
     [\<lparr>shape = [2], data = [Fin 5, Fin 6]\<rparr>,
      \<lparr>shape = [2, 2], data = [Fin 1, Fin 2, Fin 3, Fin 4]\<rparr>,
      \<lparr>shape = [2, 2], data = [Fin 1, Fin 1, Fin 1, Fin 1]\<rparr>,
      \<lparr>shape = [2, 2], data = [Fin 1, Fin 2, Fin 3, Fin 4]\<rparr>,
      \<lparr>shape = [2, 2], data = [Fin 4, Fin 4, Fin 2, Fin 2]\<rparr>,
      \<lparr>shape = [2], data = [Fin 1, Fin 1]\<rparr>,
      \<lparr>shape = [2, 2], data = [Fin 1, Fin 1, Fin 1, Fin 1]\<rparr>,
      \<lparr>shape = [2, 2], data = [Fin (- 1), Fin (- 1), Fin (- 1), Fin (- 1)]\<rparr>,
      \<lparr>shape = [2, 2], data = [Fin 1, Fin 1, Fin 1, Fin 1]\<rparr>,
      \<lparr>shape = [2, 2], data = [Fin (- 1), Fin (- 1), Fin (- 1), Fin (- 1)]\<rparr>]) \<and>
   shape ([\<lparr>shape = [2], data = [Fin 5, Fin 6]\<rparr>,
      \<lparr>shape = [2, 2], data = [Fin 1, Fin 2, Fin 3, Fin 4]\<rparr>,
      \<lparr>shape = [2, 2], data = [Fin 1, Fin 1, Fin 1, Fin 1]\<rparr>,
      \<lparr>shape = [2, 2], data = [Fin 1, Fin 2, Fin 3, Fin 4]\<rparr>,
      \<lparr>shape = [2, 2], data = [Fin 4, Fin 4, Fin 2, Fin 2]\<rparr>] ! 2) = shape ([\<lparr>shape = [2], data = [Fin 5, Fin 6]\<rparr>,
      \<lparr>shape = [2, 2], data = [Fin 1, Fin 2, Fin 3, Fin 4]\<rparr>,
      \<lparr>shape = [2, 2], data = [Fin 1, Fin 1, Fin 1, Fin 1]\<rparr>,
      \<lparr>shape = [2, 2], data = [Fin 1, Fin 2, Fin 3, Fin 4]\<rparr>,
      \<lparr>shape = [2, 2], data = [Fin 4, Fin 4, Fin 2, Fin 2]\<rparr>] ! 4) \<and>
   shape ([\<lparr>shape = [2], data = [Fin 5, Fin 6]\<rparr>,
      \<lparr>shape = [2, 2], data = [Fin 1, Fin 2, Fin 3, Fin 4]\<rparr>,
      \<lparr>shape = [2, 2], data = [Fin 1, Fin 1, Fin 1, Fin 1]\<rparr>,
      \<lparr>shape = [2, 2], data = [Fin 1, Fin 2, Fin 3, Fin 4]\<rparr>,
      \<lparr>shape = [2, 2], data = [Fin 4, Fin 4, Fin 2, Fin 2]\<rparr>,
      \<lparr>shape = [2], data = [Fin 1, Fin 1]\<rparr>,
      \<lparr>shape = [2, 2], data = [Fin 1, Fin 1, Fin 1, Fin 1]\<rparr>,
      \<lparr>shape = [2, 2], data = [Fin (- 1), Fin (- 1), Fin (- 1), Fin (- 1)]\<rparr>,
      \<lparr>shape = [2, 2], data = [Fin 1, Fin 1, Fin 1, Fin 1]\<rparr>,
      \<lparr>shape = [2, 2], data = [Fin (- 1), Fin (- 1), Fin (- 1), Fin (- 1)]\<rparr>] ! 6) = [2, 2] \<and>
   shape ([\<lparr>shape = [2], data = [Fin 5, Fin 6]\<rparr>,
      \<lparr>shape = [2, 2], data = [Fin 1, Fin 2, Fin 3, Fin 4]\<rparr>,
      \<lparr>shape = [2, 2], data = [Fin 1, Fin 1, Fin 1, Fin 1]\<rparr>] ! 0) = [2]"
  using MySub_broadcast_example by simp

text \<open>
  Claim C4, amended. For each of the five functions, when \<open>grad_output\<close> has the shape of
  the output of \<open>forward\<close> and the shape of input \<open>i\<close> is the shape to which the shapes
  of all tensor inputs broadcast together (as it is whenever the tensor inputs have the
  same shape, and for the larger input otherwise), the gradient that \<open>backward\<close> returns
  for slot \<open>i\<close> has exactly the shape of input \<open>i\<close>.
\<close>

theorem gradient_has_shape_of_input:
  assumes a: "\<forall>y. T y \<in> set args \<longrightarrow> y < length h0"
    and app: "fn_apply f args h0 = Inr ((c, out), h)"
    and g: "g < length (h @ hs)" "shape ((h @ hs) ! g) = shape (h ! out)"
    and b: "fn_backward f c g (h @ hs) = Inr (gs, h')"
    and i: "i < length args" "args ! i = T x" "gs ! i = Some r"
    and sh: "broadcast_all (map (\<lambda>y. shape (h0 ! y)) (tensor_args args)) = Some (shape (h0 ! x))"
  shows "r < length h' \<and> shape (h' ! r) = shape (h0 ! x)"
  using app
proof (cases rule: apply_cases)
  case (ReLU x')
  then have x: "x' = x" "x < length h0" using a i by auto
  let ?k = "h @ hs"
  from app ReLU x have c: "saved_tensors c = [x]" and h: "h = h0 @ [unop (fclamp_min 0) (h0 ! x)]"
    and out: "out = length h0"
    by (auto simp: MyReLU_forward_run)
  have k: "x < length ?k" using x h by simp
  from b ReLU obtain t where
    t: "mask_assign (?k ! g) (unop (\<lambda>v. flt v 0) (?k ! x)) (Fin 0) = Inr t"
    and r: "gs = [Some (length ?k)]" "h' = ?k @ [t]"
    by (cases "mask_assign (?k ! g) (unop (\<lambda>v. flt v 0) (?k ! x)) (Fin 0)")
       (auto simp: MyReLU_backward_run[OF c k g(1)])
  have st: "shape t = shape (h0 ! x)"
    using shape_mask_assign[OF t] g(2) h out by (simp add: nth_append shape_unop)
  have "r = length ?k" using r(1) i ReLU by simp
  then show ?thesis using st by (simp add: r(2))
next
  case (Sum x')
  then have x: "x' = x" "x < length h0" using a i by auto
  let ?k = "h @ hs"
  from app Sum x have c: "saved_tensors c = [x]" and h: "h = h0 @ [tsum (h0 ! x)]"
    and out: "out = length h0"
    by (auto simp: MatrixSum_forward_run)
  have k: "x < length ?k" "?k ! x = h0 ! x" using x h by (simp_all add: nth_append)
  from b Sum obtain t where
    t: "binop RuntimeError fmul (?k ! g) (ones_like (?k ! x)) = Inr t"
    and r: "gs = [Some (Suc (length ?k))]" "h' = ?k @ [ones_like (?k ! x), t]"
    by (cases "binop RuntimeError fmul (?k ! g) (ones_like (?k ! x))")
       (auto simp: MatrixSum_backward_run[OF c k(1) g(1)])
  have "shape (?k ! g) = []" using g(2) h out by (simp add: nth_append shape_tsum)
  then have st: "shape t = shape (h0 ! x)"
    using shape_binop[OF t] k(2) by (simp add: shape_ones_like broadcast_shapes_Nil1)
  have "r = Suc (length ?k)" using r(1) i Sum by simp
  then show ?thesis using st by (simp add: r(2) nth_append)
next
  case (Sub p q ao)
  then have ap: "fn_apply f args = MySub_apply p q ao" by auto
  have pq: "p < length h0" "q < length h0" using a Sub by auto
  have ta: "tensor_args args = [p, q]" using Sub by auto
  let ?k = "h @ hs"
  let ?B = "unop (\<lambda>v. fmul v (alpha_of ao)) (h0 ! q)"
  from app obtain t where t: "binop RuntimeError fsub (h0 ! p) ?B = Inr t"
    and r0: "saved_tensors c = [p, q]" "ctx_constant c = Some (alpha_of ao)"
      "out = Suc (length h0)" "h = h0 @ [?B, t]"
    unfolding ap by (cases "binop RuntimeError fsub (h0 ! p) ?B") (auto simp: MySub_apply_run[OF pq])
  have k: "p < length ?k" "q < length ?k" "?k ! p = h0 ! p" "?k ! q = h0 ! q"
    using pq r0(4) by (simp_all add: nth_append)
  let ?S = "unop (\<lambda>v. fmul v (fneg (alpha_of ao))) (?k ! g)"
  from b Sub obtain d1 d2 where
    d: "binop RuntimeError fmul (?k ! g) (ones_like (?k ! p)) = Inr d1"
       "binop RuntimeError fmul ?S (ones_like (?k ! q)) = Inr d2"
    and r: "gs = [Some (length ?k + 1), Some (length ?k + 4), None]"
      "h' = ?k @ [ones_like (?k ! p), d1, ?S, ones_like (?k ! q), d2]"
    by (cases "binop RuntimeError fmul (?k ! g) (ones_like (?k ! p))";
        cases "binop RuntimeError fmul ?S (ones_like (?k ! q))")
       (auto simp: MySub_backward_run[OF r0(1,2) k(1,2) g(1)])
  have "broadcast_shapes (shape (h0 ! p)) (shape (h0 ! q)) = Some (shape (h0 ! x))"
    using sh ta by (simp add: broadcast_shapes_Nil2)
  then have st: "shape t = shape (h0 ! x)" using shape_binop[OF t] by (simp add: shape_unop)
  then have sg: "shape (?k ! g) = shape (h0 ! x)" using g(2) r0(3,4) by (simp add: nth_append)
  have i01: "i = 0 \<and> x = p \<or> i = 1 \<and> x = q"
    using i Sub by (auto simp: nth_Cons' split: if_splits)
  then show ?thesis
  proof
    assume "i = 0 \<and> x = p"
    then have "shape d1 = shape (h0 ! x)" and rr: "r = length ?k + 1"
      using shape_binop[OF d(1)] sg k(3) r(1) i(3)
      by (simp_all add: shape_ones_like broadcast_shapes_same)
    moreover have "h' ! r = d1" "r < length h'" unfolding r(2) rr by (simp_all add: nth_append)
    ultimately show ?thesis by simp
  next
    assume "i = 1 \<and> x = q"
    then have "shape d2 = shape (h0 ! x)" and rr: "r = length ?k + 4"
      using shape_binop[OF d(2)] sg k(4) r(1) i(3)
      by (simp_all add: shape_ones_like shape_unop broadcast_shapes_same)
    moreover have "h' ! r = d2" "r < length h'" unfolding r(2) rr by (simp_all add: nth_append)
    ultimately show ?thesis by simp
  qed
next
  case (NonDiff yt yp)
  then have v: "yp < length h0" "yt < length h0" using a by simp_all
  have isce: "is_ce f args yt yp" using NonDiff by (simp add: is_ce_def)
  from ce_apply_facts[OF v(2,1) isce app] obtain n prods hs' where
    h: "h = h0 @ hs'" and o: "h ! out = unop (\<lambda>x. fdiv x (Fin (real n))) (tsum prods)"
    and c: "saved_tensors c = [yt, yp]"
    using NonDiff by auto
  let ?k = "h @ hs"
  have k: "yp < length ?k" "yt < length ?k" "?k ! yt = h0 ! yt" "?k ! yp = h0 ! yp"
    using v h by (simp_all add: nth_append)
  from b NonDiff obtain ts where ts: "ce_grad (?k ! yt) (?k ! yp) = Inr ts"
    by (cases "ce_grad (?k ! yt) (?k ! yp)")
       (auto simp: NonDiffCrossEntropy_backward_run[OF c k(1,2) g(1)])
  from b NonDiff ts obtain t where
    t: "binop RuntimeError fmul (ts ! 2) (?k ! g) = Inr t"
    and r: "gs = [None, Some (length ?k + 3)]" "h' = ?k @ ts @ [t]"
    by (cases "binop RuntimeError fmul (ts ! 2) (?k ! g)")
       (auto simp: NonDiffCrossEntropy_backward_run[OF c k(1,2) g(1)])
  have ix: "i = 1" "x = yp" using i NonDiff r(1) by (auto simp: nth_Cons' split: if_splits)
  have "broadcast_shapes (shape (h0 ! yt)) (shape (h0 ! yp)) = Some (shape (h0 ! x))"
    using sh NonDiff by (simp add: broadcast_shapes_Nil2)
  then have "shape (ts ! 2) = shape (h0 ! x)" and l: "length ts = 3"
    using ce_grad_shape[OF ts] k(3,4) by simp_all
  moreover have "shape (?k ! g) = []" using g(2) o by (simp add: shape_unop shape_tsum)
  ultimately have st: "shape t = shape (h0 ! x)"
    using shape_binop[OF t] by (simp add: broadcast_shapes_Nil2)
  have rr: "r = length ?k + 3" using r(1) i(3) ix by simp
  have "h' ! r = t" "r < length h'" unfolding r(2) rr using l by (simp_all add: nth_append)
  then show ?thesis using st by simp
next
  case (Custom yp yt)
  then have v: "yp < length h0" "yt < length h0" using a by simp_all
  have isce: "is_ce f args yt yp" using Custom by (simp add: is_ce_def)
  from ce_apply_facts[OF v(2,1) isce app] obtain n prods hs' where
    h: "h = h0 @ hs'" and o: "h ! out = unop (\<lambda>x. fdiv x (Fin (real n))) (tsum prods)"
    and c: "saved_tensors c = [yp, yt]"
    using Custom by auto
  let ?k = "h @ hs"
  have k: "yp < length ?k" "yt < length ?k" "?k ! yt = h0 ! yt" "?k ! yp = h0 ! yp"
    using v h by (simp_all add: nth_append)
  from b Custom obtain ts where ts: "ce_grad (?k ! yt) (?k ! yp) = Inr ts"
    by (cases "ce_grad (?k ! yt) (?k ! yp)")
       (auto simp: CustomLoss_backward_run[OF c k(1,2) g(1)])
  from b Custom ts obtain t where
    t: "binop RuntimeError fmul (?k ! g) (ts ! 2) = Inr t"
    and r: "gs = [Some (length ?k + 3), None]" "h' = ?k @ ts @ [t]"
    by (cases "binop RuntimeError fmul (?k ! g) (ts ! 2)")
       (auto simp: CustomLoss_backward_run[OF c k(1,2) g(1)])
  have ix: "i = 0" "x = yp" using i Custom r(1) by (auto simp: nth_Cons' split: if_splits)
  have "broadcast_shapes (shape (h0 ! yp)) (shape (h0 ! yt)) = Some (shape (h0 ! x))"
    using sh Custom by (simp add: broadcast_shapes_Nil2)
  then have "broadcast_shapes (shape (h0 ! yt)) (shape (h0 ! yp)) = Some (shape (h0 ! x))"
    by (simp add: broadcast_shapes_commute)
  then have "shape (ts ! 2) = shape (h0 ! x)" and l: "length ts = 3"
    using ce_grad_shape[OF ts] k(3,4) by simp_all
  moreover have "shape (?k ! g) = []" using g(2) o by (simp add: shape_unop shape_tsum)
  ultimately have st: "shape t = shape (h0 ! x)"
    using shape_binop[OF t] by (simp add: broadcast_shapes_Nil1)
  have rr: "r = length ?k + 3" using r(1) i(3) ix by simp
  have "h' ! r = t" "r < length h'" unfolding r(2) rr using l by (simp_all add: nth_append)
  then show ?thesis using st by simp
qed


theorem gradient_has_shape_of_input_witness:
  "fn_apply MySub [T 0, T 1]
     [\<lparr>shape = [2], data = [Fin 5, Fin 6]\<rparr>,
      \<lparr>shape = [2, 2], data = [Fin 1, Fin 2, Fin 3, Fin 4]\<rparr>,
      \<lparr>shape = [2, 2], data = [Fin 1, Fin 1, Fin 1, Fin 1]\<rparr>] =
     Inr ((\<lparr>saved_tensors = [0, 1], ctx_constant = Some (Fin 1)\<rparr>, 4),
     [\<lparr>shape = [2], data = [Fin 5, Fin 6]\<rparr>,
      \<lparr>shape = [2, 2], data = [Fin 1, Fin 2, Fin 3, Fin 4]\<rparr>,
      \<lparr>shape = [2, 2], data = [Fin 1, Fin 1, Fin 1, Fin 1]\<rparr>,
      \<lparr>shape = [2, 2], data = [Fin 1, Fin 2, Fin 3, Fin 4]\<rparr>,
      \<lparr>shape = [2, 2], data = [Fin 4, Fin 4, Fin 2, Fin 2]\<rparr>]) \<and>
   fn_backward MySub \<lparr>saved_tensors = [0, 1], ctx_constant = Some (Fin 1)\<rparr> 2
     ([\<lparr>shape = [2], data = [Fin 5, Fin 6]\<rparr>,
      \<lparr>shape = [2, 2], data = [Fin 1, Fin 2, Fin 3, Fin 4]\<rparr>,
      \<lparr>shape = [2, 2], data = [Fin 1, Fin 1, Fin 1, Fin 1]\<rparr>,
      \<lparr>shape = [2, 2], data = [Fin 1, Fin 2, Fin 3, Fin 4]\<rparr>,
      \<lparr>shape = [2, 2], data = [Fin 4, Fin 4, Fin 2, Fin 2]\<rparr>] @ []) =
     Inr ([Some 6, Some 9, None],
     [\<lparr>shape = [2], data = [Fin 5, Fin 6]\<rparr>,
      \<lparr>shape = [2, 2], data = [Fin 1, Fin 2, Fin 3, Fin 4]\<rparr>,
      \<lparr>shape = [2, 2], data = [Fin 1, Fin 1, Fin 1, Fin 1]\<rparr>,
      \<lparr>shape = [2, 2], data = [Fin 1, Fin 2, Fin 3, Fin 4]\<rparr>,
      \<lparr>shape = [2, 2], data = [Fin 4, Fin 4, Fin 2, Fin 2]\<rparr>,
      \<lparr>shape = [2], data = [Fin 1, Fin 1]\<rparr>,
      \<lparr>shape = [2, 2], data = [Fin 1, Fin 1, Fin 1, Fin 1]\<rparr>,
      \<lparr>shape = [2, 2], data = [Fin (- 1), Fin (- 1), Fin (- 1), Fin (- 1)]\<rparr>,
      \<lparr>shape = [2, 2], data = [Fin 1, Fin 1, Fin 1, Fin 1]\<rparr>,
      \<lparr>shape = [2, 2], data = [Fin (- 1), Fin (- 1), Fin (- 1), Fin (- 1)]\<rparr>]) \<and>
   broadcast_all (map (\<lambda>y. shape ([\<lparr>shape = [2], data = [Fin 5, Fin 6]\<rparr>,
      \<lparr>shape = [2, 2], data = [Fin 1, Fin 2, Fin 3, Fin 4]\<rparr>,
      \<lparr>shape = [2, 2], data = [Fin 1, Fin 1, Fin 1, Fin 1]\<rparr>] ! y)) (tensor_args [T 0, T 1])) = Some [2, 2] \<and>
   shape ([\<lparr>shape = [2], data = [Fin 5, Fin 6]\<rparr>,
      \<lparr>shape = [2, 2], data = [Fin 1, Fin 2, Fin 3, Fin 4]\<rparr>,
      \<lparr>shape = [2, 2], data = [Fin 1, Fin 1, Fin 1, Fin 1]\<rparr>,
      \<lparr>shape = [2, 2], data = [Fin 1, Fin 2, Fin 3, Fin 4]\<rparr>,
      \<lparr>shape = [2, 2], data = [Fin 4, Fin 4, Fin 2, Fin 2]\<rparr>,
      \<lparr>shape = [2], data = [Fin 1, Fin 1]\<rparr>,
      \<lparr>shape = [2, 2], data = [Fin 1, Fin 1, Fin 1, Fin 1]\<rparr>,
      \<lparr>shape = [2, 2], data = [Fin (- 1), Fin (- 1), Fin (- 1), Fin (- 1)]\<rparr>,
      \<lparr>shape = [2, 2], data = [Fin 1, Fin 1, Fin 1, Fin 1]\<rparr>,
      \<lparr>shape = [2, 2], data = [Fin (- 1), Fin (- 1), Fin (- 1), Fin (- 1)]\<rparr>] ! 9) = [2, 2]"
proof -
  let ?init = "[\<lparr>shape = [2], data = [Fin 5, Fin 6]\<rparr>,
      \<lparr>shape = [2, 2], data = [Fin 1, Fin 2, Fin 3, Fin 4]\<rparr>,
      \<lparr>shape = [2, 2], data = [Fin 1, Fin 1, Fin 1, Fin 1]\<rparr>]"
  let ?after = "[\<lparr>shape = [2], data = [Fin 5, Fin 6]\<rparr>,
      \<lparr>shape = [2, 2], data = [Fin 1, Fin 2, Fin 3, Fin 4]\<rparr>,
      \<lparr>shape = [2, 2], data = [Fin 1, Fin 1, Fin 1, Fin 1]\<rparr>,
      \<lparr>shape = [2, 2], data = [Fin 1, Fin 2, Fin 3, Fin 4]\<rparr>,
      \<lparr>shape = [2, 2], data = [Fin 4, Fin 4, Fin 2, Fin 2]\<rparr>]"
  let ?final = "[\<lparr>shape = [2], data = [Fin 5, Fin 6]\<rparr>,
      \<lparr>shape = [2, 2], data = [Fin 1, Fin 2, Fin 3, Fin 4]\<rparr>,
      \<lparr>shape = [2, 2], data = [Fin 1, Fin 1, Fin 1, Fin 1]\<rparr>,
      \<lparr>shape = [2, 2], data = [Fin 1, Fin 2, Fin 3, Fin 4]\<rparr>,
      \<lparr>shape = [2, 2], data = [Fin 4, Fin 4, Fin 2, Fin 2]\<rparr>,
      \<lparr>shape = [2], data = [Fin 1, Fin 1]\<rparr>,
      \<lparr>shape = [2, 2], data = [Fin 1, Fin 1, Fin 1, Fin 1]\<rparr>,
      \<lparr>shape = [2, 2], data = [Fin (- 1), Fin (- 1), Fin (- 1), Fin (- 1)]\<rparr>,
      \<lparr>shape = [2, 2], data = [Fin 1, Fin 1, Fin 1, Fin 1]\<rparr>,
      \<lparr>shape = [2, 2], data = [Fin (- 1), Fin (- 1), Fin (- 1), Fin (- 1)]\<rparr>]"
  let ?c = "\<lparr>saved_tensors = [0, 1], ctx_constant = Some (Fin 1)\<rparr>"
  have a: "\<forall>y. T y \<in> set [T 0, T 1] \<longrightarrow> y < length ?init" by auto
  have app: "fn_apply MySub [T 0, T 1] ?init = Inr ((?c, 4), ?after)"
    using MySub_broadcast_example(1) by simp
  have g: "2 < length (?after @ [])" "shape ((?after @ []) ! 2) = shape (?after ! 4)" by simp_all
  have b: "fn_backward MySub ?c 2 (?after @ []) = Inr ([Some 6, Some 9, None], ?final)"
    using MySub_broadcast_example(2) by simp
  have i: "1 < length [T 0, T 1]" "[T 0, T 1] ! 1 = T 1" "[Some 6, Some 9, None] ! 1 = Some (9::nat)"
    by simp_all
  have "broadcast_shapes [2] [2, 2] = Some [2, 2]" by code_simp
  then have sh: "broadcast_all (map (\<lambda>y. shape (?init ! y)) (tensor_args [T 0, T 1])) =
      Some (shape (?init ! 1))"
    by (simp add: broadcast_shapes_Nil2)
  from gradient_has_shape_of_input[OF a app g b i sh]
  have "shape (?final ! 9) = shape (?init ! 1)" by blast
  with app b sh show ?thesis by simp
qed

subsection \<open>C2: backward and the derivative of forward\<close>

lemma sum_list_update_real:
  "j < length ys \<Longrightarrow> sum_list (ys[j := v]) = sum_list ys + (v - ys ! j)" for ys :: "real list"
  by (induction ys arbitrary: j) (auto split: nat.splits)

lemma map2_update_right:
  "j < length xs \<Longrightarrow> j < length ys \<Longrightarrow>
   map2 f xs (ys[j := v]) = (map2 f xs ys)[j := f (xs ! j) v]"
proof (induction xs arbitrary: ys j)
  case Nil
  then show ?case by simp
next
  case (Cons x xs)
  then show ?case by (cases ys; cases j) auto
qed

lemma weighted_update:
  assumes "j < length ys" "j < length g"
  shows "weighted g (ys[j := v]) = weighted g ys + g ! j * (v - ys ! j)"
proof -
  have "map2 (*) g (ys[j := v]) = (map2 (*) g ys)[j := g ! j * v]"
    using assms by (simp add: map2_update_right)
  then show ?thesis
    using assms by (simp add: weighted_def sum_list_update_real algebra_simps)
qed

lemma DERIV_affine:
  assumes "(\<phi> has_real_derivative d) (at x)"
  shows "((\<lambda>t. K + c * (\<phi> t - e)) has_real_derivative c * d) (at x)"
  using assms by (auto intro!: derivative_eq_intros)

lemma DERIV_relu:
  assumes "x \<noteq> 0"
  shows "((\<lambda>t. max t 0) has_real_derivative (if x < 0 then 0 else 1)) (at x)"
proof (cases "x < 0")
  case True
  have "((\<lambda>t. 0) has_real_derivative 0) (at x)" by simp
  moreover have "eventually (\<lambda>t. max t 0 = (0::real)) (nhds x)"
    using True by (intro eventually_nhds_in_open[of "{..<0}", THEN eventually_mono]) auto
  ultimately show ?thesis using True
    by (subst DERIV_cong_ev[OF refl _ refl]) auto
next
  case False
  then have pos: "0 < x" using assms by simp
  have "((\<lambda>t. t) has_real_derivative 1) (at x)" by simp
  moreover have "eventually (\<lambda>t. max t 0 = t) (nhds x)"
    using pos by (intro eventually_nhds_in_open[of "{0<..}", THEN eventually_mono]) auto
  ultimately show ?thesis using False
    by (subst DERIV_cong_ev[OF refl _ refl]) auto
qed

lemma DERIV_log_clip:
  assumes "eps < x" "x < 1 - eps"
  shows "((\<lambda>t. ln (min (max t eps) (1 - eps))) has_real_derivative 1 / x) (at x)"
proof -
  have x: "0 < x" using assms eps_bounds by simp
  have "(ln has_real_derivative 1 / x) (at x)"
    using x by (auto intro!: derivative_eq_intros)
  moreover have "eventually (\<lambda>t. ln (min (max t eps) (1 - eps)) = ln t) (nhds x)"
    using assms
    by (intro eventually_nhds_in_open[of "{eps<..<1 - eps}", THEN eventually_mono]) auto
  ultimately show ?thesis
    by (subst DERIV_cong_ev[OF refl _ refl]) auto
qed

lemma relu_not_differentiable:
  "\<not> ((\<lambda>t. K + max t 0) has_real_derivative 1) (at 0)"
proof
  assume "((\<lambda>t. K + max t 0) has_real_derivative 1) (at 0)"
  from DERIV_pos_inc_left[OF this] obtain d where
    d: "0 < d" "\<forall>h>0. h < d \<longrightarrow> K + max (0 - h) 0 < K + max 0 0" by auto
  from d(2)[rule_format, of "d / 2"] d(1)
  have "K + max (0 - d / 2) 0 < K + max 0 0" by simp
  then show False using d(1) by simp
qed

lemma chunks_map: "chunks n k (map f xs) = map (map f) (chunks n k xs)"
  by (simp add: chunks_def take_map drop_map)

lemma expand_map: "expand s t (map f xs) = map f (expand s t xs)"
proof (induction s t xs rule: expand.induct)
  case (1 s ss t ts xs)
  show ?case
  proof (cases "s = t")
    case True
    have "map (expand ss ts) (chunks (numel ss) s (map f xs)) =
        map (\<lambda>c. map f (expand ss ts c)) (chunks (numel ss) s xs)"
      using 1(1)[OF True] by (simp add: chunks_map)
    then show ?thesis using True by (simp add: map_concat comp_def)
  next
    case False
    then show ?thesis using 1(2) by (simp add: map_concat)
  qed
qed simp_all

lemma broadcast_to_unop: "broadcast_to s (unop f a) = map f (broadcast_to s a)"
  by (simp add: broadcast_to_def unop_def expand_map)

lemma broadcast_to_positions: "broadcast_to s a = map (\<lambda>i. data a ! i) (positions s a)"
proof -
  have "data a = map (\<lambda>i. data a ! i) [0..<length (data a)]" by (simp add: map_nth)
  then have "expand (pad (length s) (shape a)) s (data a) =
      map (\<lambda>i. data a ! i) (expand (pad (length s) (shape a)) s [0..<length (data a)])"
    using expand_map[of "pad (length s) (shape a)" s "\<lambda>i. data a ! i" "[0..<length (data a)]"]
    by simp
  then show ?thesis by (simp add: broadcast_to_def positions_def)
qed

lemma positions_bound: "i \<in> set (positions s a) \<Longrightarrow> i < length (data a)"
  using set_broadcast_to[of s "\<lparr>shape = shape a, data = [0..<length (data a)]\<rparr>"]
  by (auto simp: positions_def)

lemma length_positions: "length (positions s a) = length (broadcast_to s a)"
  by (simp add: broadcast_to_positions)

lemma positions_cong:
  "shape a = shape b \<Longrightarrow> length (data a) = length (data b) \<Longrightarrow> positions s a = positions s b"
  by (simp add: positions_def)

lemma weighted_nth:
  assumes "length g = n" "length ys = n"
  shows "weighted g ys = (\<Sum>k<n. g ! k * ys ! k)"
proof -
  have "sum_list (map2 (*) g ys) = (\<Sum>k = 0..<length (map2 (*) g ys). map2 (*) g ys ! k)"
    by (rule sum_list_sum_nth)
  also have "\<dots> = (\<Sum>k = 0..<n. g ! k * ys ! k)"
    using assms by (intro sum.cong) simp_all
  finally show ?thesis by (simp add: weighted_def atLeast0LessThan)
qed

lemma DERIV_positions:
  assumes "\<And>k. k < n \<Longrightarrow> I ! k = j \<Longrightarrow> (\<Psi> k has_real_derivative D k) (at x0)"
  shows "((\<lambda>t. \<Sum>k<n. w k * (if I ! k = j then \<Psi> k t else c k)) has_real_derivative
          (\<Sum>k<n. w k * (if I ! k = j then D k else 0))) (at x0)"
proof (rule DERIV_sum)
  fix k assume "k \<in> {..<n}"
  then have k: "k < n" by simp
  show "((\<lambda>t. w k * (if I ! k = j then \<Psi> k t else c k)) has_real_derivative
          w k * (if I ! k = j then D k else 0)) (at x0)"
  proof (cases "I ! k = j")
    case True
    then show ?thesis using DERIV_cmult[OF assms[OF k True], of "w k"] by simp
  next
    case False
    then show ?thesis by simp
  qed
qed

lemma applied_to_unit:
  assumes G: "length (data G) = n" and I: "length (positions (shape G) a) = n"
    and j: "j < length (data a)"
  shows "applied_to G (unit_at a j) =
     (\<Sum>k<n. real_of_fl (data G ! k) * (if positions (shape G) a ! k = j then 1 else 0))"
proof -
  let ?I = "positions (shape G) a"
  let ?u = "unit_at a j"
  have p: "positions (shape G) ?u = ?I"
    by (rule positions_cong) (simp_all add: unit_at_def)
  have b: "broadcast_to (shape G) ?u = map (\<lambda>i. data ?u ! i) ?I"
    using broadcast_to_positions[of "shape G" ?u] p by simp
  have "map real_of_fl (broadcast_to (shape G) ?u) ! k = (if ?I ! k = j then 1 else 0)"
    if "k < n" for k
  proof -
    have "?I ! k \<in> set ?I" using that I by simp
    then have "?I ! k < length (data a)" by (rule positions_bound)
    then have "data ?u ! (?I ! k) = (if ?I ! k = j then Fin 1 else Fin 0)"
      using j by (simp add: unit_at_def nth_list_update)
    then show ?thesis using that I by (simp add: b)
  qed
  moreover have "length (map real_of_fl (broadcast_to (shape G) ?u)) = n"
    using I by (simp add: b)
  ultimately show ?thesis
    unfolding applied_to_def using G
    by (subst weighted_nth[of _ n]) simp_all
qed

lemma positions_same: "wf a \<Longrightarrow> positions (shape a) a = [0..<length (data a)]"
  using broadcast_to_same[of "\<lparr>shape = shape a, data = [0..<length (data a)]\<rparr>"]
  by (simp add: positions_def wf_def)

lemma applied_to_unit_same:
  assumes "wf G" "wf a" "shape G = shape a" "j < length (data a)"
  shows "applied_to G (unit_at a j) = real_of_fl (data G ! j)"
proof -
  let ?n = "length (data a)"
  have l: "length (data G) = ?n" using assms(1-3) by (simp add: wf_def)
  have p: "positions (shape G) a = [0..<?n]" using positions_same[OF assms(2)] assms(3) by simp
  have "applied_to G (unit_at a j) =
      (\<Sum>k<?n. real_of_fl (data G ! k) * (if positions (shape G) a ! k = j then 1 else 0))"
    by (rule applied_to_unit[OF l _ assms(4)]) (simp add: p)
  also have "\<dots> = (\<Sum>k<?n. if k = j then real_of_fl (data G ! k) else 0)"
    by (intro sum.cong) (simp_all add: p)
  also have "\<dots> = real_of_fl (data G ! j)" using assms(4) by simp
  finally show ?thesis .
qed

lemma broadcast_to_perturbed:
  "broadcast_to s (perturbed a j t) =
     map (\<lambda>i. if i = j then Fin t else data a ! i) (positions s a)"
proof -
  have p: "positions s (perturbed a j t) = positions s a"
    by (rule positions_cong) (simp_all add: perturbed_def)
  have "map (\<lambda>i. data (perturbed a j t) ! i) (positions s a) =
      map (\<lambda>i. if i = j then Fin t else data a ! i) (positions s a)"
  proof (rule map_cong[OF refl])
    fix i assume "i \<in> set (positions s a)"
    then have "i < length (data a)" by (rule positions_bound)
    then show "data (perturbed a j t) ! i = (if i = j then Fin t else data a ! i)"
      by (simp add: perturbed_def nth_list_update)
  qed
  then show ?thesis using broadcast_to_positions[of s "perturbed a j t"] p by simp
qed

lemma shape_perturbed: "shape (perturbed a j t) = shape a"
  by (simp add: perturbed_def)

lemma forward_at_MyReLU:
  "x < length h \<Longrightarrow>
   forward_at MyReLU [T x] h 0 x j t =
     (map (\<lambda>v. real_of_fl (fclamp_min 0 v)) (data (h ! x)))[j := max t 0]"
  by (simp add: forward_at_def output_of_def MyReLU_forward_run unop_def perturbed_def
      nth_append map_update comp_def)

lemma relu_derivative:
  assumes x: "x < length h0" and j: "j < length (data (h0 ! x))" "j < length gR"
    and xj: "data (h0 ! x) ! j = Fin a" "a \<noteq> 0"
  shows "((\<lambda>t. weighted gR (forward_at MyReLU [T x] h0 0 x j t))
           has_real_derivative gR ! j * (if a < 0 then 0 else 1)) (at a)"
proof -
  let ?outs = "map (\<lambda>v. real_of_fl (fclamp_min 0 v)) (data (h0 ! x))"
  have "(\<lambda>t. weighted gR (forward_at MyReLU [T x] h0 0 x j t)) =
      (\<lambda>t. weighted gR ?outs + gR ! j * (max t 0 - ?outs ! j))"
    using j x by (simp add: forward_at_MyReLU weighted_update)
  then show ?thesis
    using DERIV_affine[OF DERIV_relu[OF xj(2)], of "weighted gR ?outs" "gR ! j" "?outs ! j"]
    by simp
qed

lemma forward_at_MatrixSum:
  "x < length h \<Longrightarrow>
   forward_at MatrixSum [T x] h 0 x j t =
     [real_of_fl (foldl fadd (Fin 0) ((data (h ! x))[j := Fin t]))]"
  by (simp add: forward_at_def output_of_def MatrixSum_forward_run tsum_def perturbed_def
      nth_append)

lemma sum_derivative:
  assumes x: "x < length h0" and j: "j < length (data (h0 ! x))"
    and fin: "\<forall>v\<in>set (data (h0 ! x)). is_finite v"
  shows "((\<lambda>t. weighted [gv] (forward_at MatrixSum [T x] h0 0 x j t))
           has_real_derivative gv) (at a)"
proof -
  let ?xs = "map real_of_fl (data (h0 ! x))"
  have d: "data (h0 ! x) = map Fin ?xs" using fin by (rule finite_data)
  have "(data (h0 ! x))[j := Fin t] = map Fin (?xs[j := t])" for t
    by (subst d) (simp add: map_update)
  then have "forward_at MatrixSum [T x] h0 0 x j t = [sum_list ?xs + (t - ?xs ! j)]" for t
    using x j
    by (simp add: forward_at_MatrixSum foldl_fadd_Fin sum_list_update_real del: map_map)
  then have "(\<lambda>t. weighted [gv] (forward_at MatrixSum [T x] h0 0 x j t)) =
      (\<lambda>t. gv * sum_list ?xs + gv * (t - ?xs ! j))"
    by (simp add: weighted_def algebra_simps)
  then show ?thesis
    using DERIV_affine[of "\<lambda>t. t" 1 a "gv * sum_list ?xs" gv "?xs ! j"] by simp
qed

lemma fill_one:
  "length bs = length xs \<Longrightarrow> fill (Suc 0) bs xs v = map2 (\<lambda>b x. if b then v else x) bs xs"
proof (induction bs arbitrary: xs)
  case Nil
  then show ?case by simp
next
  case (Cons b bs)
  then show ?case by (cases xs) auto
qed

lemma mask_assign_same_shape:
  assumes "shape m = shape t" "length (data m) = length (data t)"
  shows "mask_assign t m v =
     Inr (t\<lparr>data := map2 (\<lambda>b x. if b then v else x) (data m) (data t)\<rparr>)"
  using assms by (simp add: mask_assign_def numel_def fill_one)

lemma relu_backward_entry:
  assumes c: "saved_tensors c = [x]" and v: "x < length k" "g < length k"
    and w: "wf (k ! x)" "wf (k ! g)" "shape (k ! g) = shape (k ! x)"
    and b: "MyReLU_backward c g k = Inr (gs, h')"
    and j: "j < length (data (k ! x))" "data (k ! x) ! j = Fin a"
  shows "gs = [Some (length k)] \<and> wf (h' ! length k) \<and> shape (h' ! length k) = shape (k ! x) \<and>
     data (h' ! length k) ! j = (if a < 0 then Fin 0 else data (k ! g) ! j)"
proof -
  let ?m = "unop (\<lambda>v. flt v 0) (k ! x)"
  have len: "length (data (k ! g)) = length (data (k ! x))" using w by (simp add: wf_def)
  have "mask_assign (k ! g) ?m (Fin 0) =
      Inr ((k ! g)\<lparr>data := map2 (\<lambda>b x. if b then Fin 0 else x) (data ?m) (data (k ! g))\<rparr>)"
    by (rule mask_assign_same_shape) (simp_all add: unop_def w(3) len)
  with b have "gs = [Some (length k)]"
    "h' = k @ [(k ! g)\<lparr>data := map2 (\<lambda>b x. if b then Fin 0 else x) (data ?m) (data (k ! g))\<rparr>]"
    by (simp_all add: MyReLU_backward_run[OF c v])
  then show ?thesis using j len w by (simp add: unop_def wf_def)
qed

lemma sum_backward_entry:
  assumes c: "saved_tensors c = [x]" and v: "x < length k" "g < length k"
    and w: "wf (k ! x)" "shape (k ! g) = []" "data (k ! g) = [gv]"
    and b: "MatrixSum_backward c g k = Inr (gs, h')"
    and j: "j < length (data (k ! x))"
  shows "gs = [Some (Suc (length k))] \<and> wf (h' ! Suc (length k)) \<and>
     shape (h' ! Suc (length k)) = shape (k ! x) \<and> data (h' ! Suc (length k)) ! j = gv"
proof -
  have "binop RuntimeError fmul (k ! g) (ones_like (k ! x)) =
    Inr \<lparr>shape = shape (k ! x), data = replicate (numel (shape (k ! x))) gv\<rparr>"
    using binop_scalar_left[OF w(2,3) wf_ones_like[of "k ! x"], of RuntimeError fmul]
    by (simp add: ones_like_def fmul_one)
  with b have "gs = [Some (Suc (length k))]"
    "h' = k @ [ones_like (k ! x),
       \<lparr>shape = shape (k ! x), data = replicate (numel (shape (k ! x))) gv\<rparr>]"
    by (simp_all add: MatrixSum_backward_run[OF c v])
  then show ?thesis using j w(1) by (simp add: nth_append wf_def)
qed

lemma scalar_tensor:
  assumes "wf a" "shape a = []" "\<forall>v\<in>set (data a). is_finite v"
  shows "\<exists>r. data a = [Fin r]"
proof -
  have "length (data a) = 1" using assms(1,2) by (simp add: wf_def numel_def)
  then obtain v where v: "data a = [v]" by (cases "data a") auto
  then obtain r where "v = Fin r" using assms(3) by (cases v) auto
  with v show ?thesis by simp
qed

lemma finite_entry:
  "\<forall>v\<in>set xs. is_finite v \<Longrightarrow> j < length xs \<Longrightarrow> xs ! j = Fin (real_of_fl (xs ! j))"
proof -
  assume "\<forall>v\<in>set xs. is_finite v" "j < length xs"
  then have "is_finite (xs ! j)" by simp
  then show ?thesis by (cases "xs ! j") simp_all
qed

lemma relu_case:
  assumes x: "x < length h0" "wf (h0 ! x)"
    and app: "MyReLU_forward empty_ctx x h0 = Inr ((c, out), h)"
    and g: "g < length (h @ hs)" "wf ((h @ hs) ! g)" "shape ((h @ hs) ! g) = shape (h ! out)"
      "\<forall>v\<in>set (data ((h @ hs) ! g)). is_finite v"
    and b: "MyReLU_backward c g (h @ hs) = Inr (gs, h')"
    and r: "gs ! 0 = Some r"
    and j: "j < length (data (h0 ! x))" "data (h0 ! x) ! j = Fin x0" "x0 \<noteq> 0"
  shows "((\<lambda>t. weighted (map real_of_fl (data ((h @ hs) ! g)))
                (forward_at MyReLU [T x] h0 0 x j t))
           has_real_derivative applied_to (h' ! r) (unit_at (h0 ! x) j)) (at x0)"
proof -
  let ?k = "h @ hs"
  let ?gR = "map real_of_fl (data (?k ! g))"
  from app x have c: "saved_tensors c = [x]" and h: "h = h0 @ [unop (fclamp_min 0) (h0 ! x)]"
    and out: "out = length h0"
    by (auto simp: MyReLU_forward_run)
  have k: "x < length ?k" "?k ! x = h0 ! x" using x h by (simp_all add: nth_append)
  have sg: "shape (?k ! g) = shape (?k ! x)" using g(3) h out k(2) by (simp add: nth_append shape_unop)
  have jg: "j < length (data (?k ! g))" using g(2) x(2) sg k(2) j(1) by (simp add: wf_def)
  from relu_backward_entry[OF c k(1) g(1) _ g(2) sg b, of j x0] x(2) j k(2)
  have gs: "gs = [Some (length ?k)]"
    and w: "wf (h' ! length ?k)" "shape (h' ! length ?k) = shape (h0 ! x)"
    and e: "data (h' ! length ?k) ! j = (if x0 < 0 then Fin 0 else data (?k ! g) ! j)"
    by simp_all
  have rk: "r = length ?k" using gs r by simp
  have "applied_to (h' ! r) (unit_at (h0 ! x) j) = real_of_fl (data (h' ! r) ! j)"
    unfolding rk by (rule applied_to_unit_same[OF w(1) x(2) w(2) j(1)])
  then have "applied_to (h' ! r) (unit_at (h0 ! x) j) = ?gR ! j * (if x0 < 0 then 0 else 1)"
    using e jg rk by simp
  then show ?thesis
    using relu_derivative[OF x(1) j(1) _ j(2,3), of ?gR] jg by simp
qed

lemma sum_case:
  assumes x: "x < length h0" "wf (h0 ! x)" "\<forall>v\<in>set (data (h0 ! x)). is_finite v"
    and app: "MatrixSum_forward empty_ctx x h0 = Inr ((c, out), h)"
    and g: "g < length (h @ hs)" "wf ((h @ hs) ! g)" "shape ((h @ hs) ! g) = shape (h ! out)"
      "\<forall>v\<in>set (data ((h @ hs) ! g)). is_finite v"
    and b: "MatrixSum_backward c g (h @ hs) = Inr (gs, h')"
    and r: "gs ! 0 = Some r"
    and j: "j < length (data (h0 ! x))"
  shows "((\<lambda>t. weighted (map real_of_fl (data ((h @ hs) ! g)))
                (forward_at MatrixSum [T x] h0 0 x j t))
           has_real_derivative applied_to (h' ! r) (unit_at (h0 ! x) j)) (at x0)"
proof -
  let ?k = "h @ hs"
  from app x have c: "saved_tensors c = [x]" and h: "h = h0 @ [tsum (h0 ! x)]"
    and out: "out = length h0"
    by (auto simp: MatrixSum_forward_run)
  have k: "x < length ?k" "?k ! x = h0 ! x" using x h by (simp_all add: nth_append)
  have sg: "shape (?k ! g) = []" using g(3) h out by (simp add: nth_append shape_tsum)
  from scalar_tensor[OF g(2) sg g(4)] obtain gv where gv: "data (?k ! g) = [Fin gv]" by blast
  from sum_backward_entry[OF c k(1) g(1) _ sg gv b, of j] x(2) j k(2)
  have gs: "gs = [Some (Suc (length ?k))]"
    and w: "wf (h' ! Suc (length ?k))" "shape (h' ! Suc (length ?k)) = shape (h0 ! x)"
    and e: "data (h' ! Suc (length ?k)) ! j = Fin gv"
    by simp_all
  have rk: "r = Suc (length ?k)" using gs r by simp
  have "applied_to (h' ! r) (unit_at (h0 ! x) j) = real_of_fl (data (h' ! r) ! j)"
    unfolding rk by (rule applied_to_unit_same[OF w(1) x(2) w(2) j])
  then have "applied_to (h' ! r) (unit_at (h0 ! x) j) = gv" using e rk by simp
  then show ?thesis
    using sum_derivative[OF x(1) j x(3), of gv x0] gv by simp
qed

lemma weighted_map_upt:
  assumes "length g = n"
  shows "weighted g (map \<phi> [0..<n]) = (\<Sum>k<n. g ! k * \<phi> k)"
proof -
  have "weighted g (map \<phi> [0..<n]) = (\<Sum>k<n. g ! k * map \<phi> [0..<n] ! k)"
    using assms by (intro weighted_nth) simp_all
  also have "\<dots> = (\<Sum>k<n. g ! k * \<phi> k)" by (intro sum.cong) simp_all
  finally show ?thesis .
qed

lemma output_of_MySub:
  assumes "a < length k" "b < length k"
    and "broadcast_shapes (shape (k ! a)) (shape (k ! b)) = Some s"
  shows "output_of (MySub_apply a b ao) k =
     map real_of_fl (map2 fsub (broadcast_to s (k ! a))
                        (map (\<lambda>v. fmul v (alpha_of ao)) (broadcast_to s (k ! b))))"
  using assms
  by (simp add: output_of_def MySub_apply_run binop_def shape_unop broadcast_to_unop nth_append)

lemma finite_broadcast_entry:
  assumes "\<forall>v\<in>set (data a). is_finite v" "k < length (broadcast_to s a)"
  shows "broadcast_to s a ! k = Fin (real_of_fl (broadcast_to s a ! k))"
proof -
  have "\<forall>v\<in>set (broadcast_to s a). is_finite v"
    using assms(1) set_broadcast_to[of s a] by blast
  then show ?thesis using assms(2) by (rule finite_entry)
qed

lemma sub_output_left:
  assumes v: "p < length h0" "q < length h0"
    and w: "wf (h0 ! p)" "wf (h0 ! q)"
    and bs: "broadcast_shapes (shape (h0 ! p)) (shape (h0 ! q)) = Some s"
    and fin: "\<forall>v\<in>set (data (h0 ! p)). is_finite v" "\<forall>v\<in>set (data (h0 ! q)). is_finite v"
    and al: "alpha_of ao = Fin al"
  shows "output_of (MySub_apply (length h0) q ao) (h0 @ [perturbed (h0 ! p) j t]) =
     map (\<lambda>k. if positions s (h0 ! p) ! k = j
               then t - real_of_fl (broadcast_to s (h0 ! q) ! k) * al
               else real_of_fl (data (h0 ! p) ! (positions s (h0 ! p) ! k)) -
                    real_of_fl (broadcast_to s (h0 ! q) ! k) * al) [0..<numel s]"
proof -
  let ?P = "h0 ! p" and ?Q = "h0 ! q"
  let ?I = "positions s ?P"
  let ?Qb = "broadcast_to s ?Q"
  let ?k = "h0 @ [perturbed ?P j t]"
  have lI: "length ?I = numel s"
    using length_broadcast_to_left[OF w(1) bs] by (simp add: length_positions)
  have lQ: "length ?Qb = numel s" using w(2) bs by (rule length_broadcast_to_right)
  have r: "length h0 < length ?k" "q < length ?k" "?k ! length h0 = perturbed ?P j t"
    "?k ! q = ?Q"
    using v by (simp_all add: nth_append)
  have bs': "broadcast_shapes (shape (?k ! length h0)) (shape (?k ! q)) = Some s"
    using bs r(3,4) by (simp add: shape_perturbed)
  have "output_of (MySub_apply (length h0) q ao) ?k =
      map real_of_fl (map2 fsub (map (\<lambda>i. if i = j then Fin t else data ?P ! i) ?I)
                         (map (\<lambda>v. fmul v (Fin al)) ?Qb))"
    unfolding output_of_MySub[OF r(1,2) bs'] r(3,4) al broadcast_to_perturbed ..
  also have "\<dots> = map (\<lambda>k. if ?I ! k = j then t - real_of_fl (?Qb ! k) * al
                 else real_of_fl (data ?P ! (?I ! k)) - real_of_fl (?Qb ! k) * al) [0..<numel s]"
  proof (rule nth_equalityI)
    show "length (map real_of_fl (map2 fsub (map (\<lambda>i. if i = j then Fin t else data ?P ! i) ?I)
                         (map (\<lambda>v. fmul v (Fin al)) ?Qb))) =
        length (map (\<lambda>k. if ?I ! k = j then t - real_of_fl (?Qb ! k) * al
                 else real_of_fl (data ?P ! (?I ! k)) - real_of_fl (?Qb ! k) * al) [0..<numel s])"
      using lI lQ by simp
  next
    fix k
    assume "k < length (map real_of_fl (map2 fsub (map (\<lambda>i. if i = j then Fin t else data ?P ! i) ?I)
                         (map (\<lambda>v. fmul v (Fin al)) ?Qb)))"
    then have k: "k < numel s" using lI lQ by simp
    obtain qk where qk: "?Qb ! k = Fin qk"
      using finite_broadcast_entry[OF fin(2), of k s] k lQ by auto
    have "?I ! k \<in> set ?I" using k lI by simp
    then have "?I ! k < length (data ?P)" by (rule positions_bound)
    then obtain pk where pk: "data ?P ! (?I ! k) = Fin pk"
      using finite_entry[OF fin(1)] by blast
    show "map real_of_fl (map2 fsub (map (\<lambda>i. if i = j then Fin t else data ?P ! i) ?I)
                         (map (\<lambda>v. fmul v (Fin al)) ?Qb)) ! k =
        map (\<lambda>k. if ?I ! k = j then t - real_of_fl (?Qb ! k) * al
                 else real_of_fl (data ?P ! (?I ! k)) - real_of_fl (?Qb ! k) * al) [0..<numel s] ! k"
      using k lI lQ qk pk by (simp add: fsub_def)
  qed
  finally show ?thesis .
qed

lemma sub_output_right:
  assumes v: "p < length h0" "q < length h0"
    and w: "wf (h0 ! p)" "wf (h0 ! q)"
    and bs: "broadcast_shapes (shape (h0 ! p)) (shape (h0 ! q)) = Some s"
    and fin: "\<forall>v\<in>set (data (h0 ! p)). is_finite v" "\<forall>v\<in>set (data (h0 ! q)). is_finite v"
    and al: "alpha_of ao = Fin al"
  shows "output_of (MySub_apply p (length h0) ao) (h0 @ [perturbed (h0 ! q) j t]) =
     map (\<lambda>k. if positions s (h0 ! q) ! k = j
               then real_of_fl (broadcast_to s (h0 ! p) ! k) - t * al
               else real_of_fl (broadcast_to s (h0 ! p) ! k) -
                    real_of_fl (data (h0 ! q) ! (positions s (h0 ! q) ! k)) * al) [0..<numel s]"
proof -
  let ?P = "h0 ! p" and ?Q = "h0 ! q"
  let ?I = "positions s ?Q"
  let ?Pb = "broadcast_to s ?P"
  let ?k = "h0 @ [perturbed ?Q j t]"
  have lI: "length ?I = numel s"
    using length_broadcast_to_right[OF w(2) bs] by (simp add: length_positions)
  have lP: "length ?Pb = numel s" using w(1) bs by (rule length_broadcast_to_left)
  have r: "p < length ?k" "length h0 < length ?k" "?k ! length h0 = perturbed ?Q j t"
    "?k ! p = ?P"
    using v by (simp_all add: nth_append)
  have bs': "broadcast_shapes (shape (?k ! p)) (shape (?k ! length h0)) = Some s"
    using bs r(3,4) by (simp add: shape_perturbed)
  have "output_of (MySub_apply p (length h0) ao) ?k =
      map real_of_fl (map2 fsub ?Pb
          (map (\<lambda>v. fmul v (Fin al)) (map (\<lambda>i. if i = j then Fin t else data ?Q ! i) ?I)))"
    unfolding output_of_MySub[OF r(1,2) bs'] r(3,4) al broadcast_to_perturbed ..
  also have "\<dots> = map (\<lambda>k. if ?I ! k = j then real_of_fl (?Pb ! k) - t * al
                 else real_of_fl (?Pb ! k) - real_of_fl (data ?Q ! (?I ! k)) * al) [0..<numel s]"
  proof (rule nth_equalityI)
    show "length (map real_of_fl (map2 fsub ?Pb
          (map (\<lambda>v. fmul v (Fin al)) (map (\<lambda>i. if i = j then Fin t else data ?Q ! i) ?I)))) =
        length (map (\<lambda>k. if ?I ! k = j then real_of_fl (?Pb ! k) - t * al
                 else real_of_fl (?Pb ! k) - real_of_fl (data ?Q ! (?I ! k)) * al) [0..<numel s])"
      using lI lP by simp
  next
    fix k
    assume "k < length (map real_of_fl (map2 fsub ?Pb
          (map (\<lambda>v. fmul v (Fin al)) (map (\<lambda>i. if i = j then Fin t else data ?Q ! i) ?I))))"
    then have k: "k < numel s" using lI lP by simp
    obtain pk where pk: "?Pb ! k = Fin pk"
      using finite_broadcast_entry[OF fin(1), of k s] k lP by auto
    have "?I ! k \<in> set ?I" using k lI by simp
    then have "?I ! k < length (data ?Q)" by (rule positions_bound)
    then obtain qk where qk: "data ?Q ! (?I ! k) = Fin qk"
      using finite_entry[OF fin(2)] by blast
    show "map real_of_fl (map2 fsub ?Pb
          (map (\<lambda>v. fmul v (Fin al)) (map (\<lambda>i. if i = j then Fin t else data ?Q ! i) ?I))) ! k =
        map (\<lambda>k. if ?I ! k = j then real_of_fl (?Pb ! k) - t * al
                 else real_of_fl (?Pb ! k) - real_of_fl (data ?Q ! (?I ! k)) * al) [0..<numel s] ! k"
      using k lI lP qk pk by (simp add: fsub_def)
  qed
  finally show ?thesis .
qed

lemma sub_case:
  assumes f: "f = MySub"
    and ar: "args = [T p, T q] \<and> ao = None \<or> (\<exists>al. args = [T p, T q, S al] \<and> ao = Some al)"
    and v: "p < length h0" "q < length h0"
    and w: "wf (h0 ! p)" "wf (h0 ! q)"
    and fin: "\<forall>v\<in>set (data (h0 ! p)). is_finite v" "\<forall>v\<in>set (data (h0 ! q)). is_finite v"
    and al: "alpha_of ao = Fin al"
    and app: "MySub_apply p q ao h0 = Inr ((c, out), h)"
    and g: "g < length (h @ hs)" "wf ((h @ hs) ! g)" "shape ((h @ hs) ! g) = shape (h ! out)"
      "\<forall>v\<in>set (data ((h @ hs) ! g)). is_finite v"
    and b: "MySub_backward c g (h @ hs) = Inr (gs, h')"
    and i: "i = 0 \<and> x = p \<or> i = 1 \<and> x = q" "gs ! i = Some r"
    and j: "j < length (data (h0 ! x))"
  shows "((\<lambda>t. weighted (map real_of_fl (data ((h @ hs) ! g))) (forward_at f args h0 i x j t))
           has_real_derivative applied_to (h' ! r) (unit_at (h0 ! x) j)) (at x0)"
proof -
  let ?k = "h @ hs"
  let ?G = "?k ! g"
  let ?gR = "map real_of_fl (data ?G)"
  let ?S = "unop (\<lambda>x. fmul x (fneg (alpha_of ao))) ?G"
  let ?P = "h0 ! p" and ?Q = "h0 ! q"
  define s where "s = shape ?G"
  define N where "N = numel s"
  note run = MySub_run[OF v(1,2) app g(1-3)]
  have bs: "broadcast_shapes (shape ?P) (shape ?Q) = Some s"
    using shape_binop[OF run(1)] g(3) by (simp add: shape_unop s_def)
  have lG: "length (data ?G) = N" "length ?gR = N" using g(2) by (simp_all add: wf_def s_def N_def)
  from b run(2) have gs: "gs = [Some (length ?k + 1), Some (length ?k + 4), None]"
    and h': "h' = h @ hs @ [ones_like ?P, ?G, ?S, ones_like ?Q, ?S]"
    by simp_all
  from i(1) show ?thesis
  proof
    assume ix: "i = 0 \<and> x = p"
    let ?I = "positions s ?P"
    have lI: "length ?I = N"
      using length_broadcast_to_left[OF w(1) bs] by (simp add: length_positions N_def)
    have "fn_apply f (args[i := T (length h0)]) = MySub_apply (length h0) q ao"
      using f ar ix by auto
    then have out: "forward_at f args h0 i x j t =
        map (\<lambda>k. if ?I ! k = j then t - real_of_fl (broadcast_to s ?Q ! k) * al
               else real_of_fl (data ?P ! (?I ! k)) - real_of_fl (broadcast_to s ?Q ! k) * al)
            [0..<N]" for t
      using sub_output_left[OF v w bs fin al, of j t] ix by (simp add: forward_at_def N_def)
    have d: "((\<lambda>t. \<Sum>k<N. ?gR ! k *
                (if ?I ! k = j then t - real_of_fl (broadcast_to s ?Q ! k) * al
                 else real_of_fl (data ?P ! (?I ! k)) - real_of_fl (broadcast_to s ?Q ! k) * al))
            has_real_derivative (\<Sum>k<N. ?gR ! k * (if ?I ! k = j then 1 else 0))) (at x0)"
      by (rule DERIV_positions) (auto intro!: derivative_eq_intros)
    have "r = length ?k + 1" using gs i(2) ix by simp
    then have "h' ! r = ?G" unfolding h' by (simp add: nth_append)
    then have "applied_to (h' ! r) (unit_at (h0 ! x) j) =
        (\<Sum>k<N. real_of_fl (data ?G ! k) * (if ?I ! k = j then 1 else 0))"
      using applied_to_unit[OF lG(1), of ?P j] lI j ix by (simp add: s_def)
    also have "\<dots> = (\<Sum>k<N. ?gR ! k * (if ?I ! k = j then 1 else 0))"
      using lG by (intro sum.cong) simp_all
    finally show ?thesis
      using d by (simp add: out weighted_map_upt[OF lG(2)])
  next
    assume ix: "i = 1 \<and> x = q"
    let ?I = "positions s ?Q"
    have lI: "length ?I = N"
      using length_broadcast_to_right[OF w(2) bs] by (simp add: length_positions N_def)
    have "fn_apply f (args[i := T (length h0)]) = MySub_apply p (length h0) ao"
      using f ar ix by auto
    then have out: "forward_at f args h0 i x j t =
        map (\<lambda>k. if ?I ! k = j then real_of_fl (broadcast_to s ?P ! k) - t * al
               else real_of_fl (broadcast_to s ?P ! k) - real_of_fl (data ?Q ! (?I ! k)) * al)
            [0..<N]" for t
      using sub_output_right[OF v w bs fin al, of j t] ix by (simp add: forward_at_def N_def)
    have d: "((\<lambda>t. \<Sum>k<N. ?gR ! k *
                (if ?I ! k = j then real_of_fl (broadcast_to s ?P ! k) - t * al
                 else real_of_fl (broadcast_to s ?P ! k) - real_of_fl (data ?Q ! (?I ! k)) * al))
            has_real_derivative (\<Sum>k<N. ?gR ! k * (if ?I ! k = j then - al else 0))) (at x0)"
      by (rule DERIV_positions) (auto intro!: derivative_eq_intros)
    have "r = length ?k + 4" using gs i(2) ix by simp
    then have hr: "h' ! r = ?S" unfolding h' by (simp add: nth_append)
    have lS: "length (data ?S) = N" using lG by (simp add: unop_def)
    have "applied_to (h' ! r) (unit_at (h0 ! x) j) =
        (\<Sum>k<N. real_of_fl (data ?S ! k) * (if ?I ! k = j then 1 else 0))"
      unfolding hr using applied_to_unit[OF lS, of ?Q j] lI j ix by (simp add: s_def shape_unop)
    also have "\<dots> = (\<Sum>k<N. ?gR ! k * (if ?I ! k = j then - al else 0))"
    proof (intro sum.cong refl)
      fix k assume "k \<in> {..<N}"
      then have k: "k < length (data ?G)" using lG by simp
      obtain gk where gk: "data ?G ! k = Fin gk" using finite_entry[OF g(4) k] by blast
      show "real_of_fl (data ?S ! k) * (if ?I ! k = j then 1 else 0) =
          ?gR ! k * (if ?I ! k = j then - al else 0)"
        using k gk al by (simp add: unop_def)
    qed
    finally show ?thesis
      using d by (simp add: out weighted_map_upt[OF lG(2)])
  qed
qed

lemma sum_list_map_upt: "sum_list (map \<phi> [0..<n]) = (\<Sum>k<n. \<phi> k)" for \<phi> :: "nat \<Rightarrow> real"
  by (simp add: interv_sum_list_conv_sum_set_nat atLeast0LessThan)

lemma clip_positive: "0 < min (max p eps) (1 - eps)"
  using eps_bounds by (simp add: min_def max_def)

lemma output_of_ce:
  assumes refs: "yt < length k" "yp < length k"
    and f: "is_ce f args yt yp"
    and n: "shape0 (k ! yt) = Inr n"
    and bs: "broadcast_shapes (shape (k ! yt)) (shape (k ! yp)) = Some s"
  shows "output_of (fn_apply f args) k =
     map real_of_fl (data (unop (\<lambda>x. fdiv x (Fin (real n)))
        (tsum \<lparr>shape = s, data = map2 fmul (map fneg (broadcast_to s (k ! yt)))
                 (map (\<lambda>v. flog (fclamp eps (1 - eps) v)) (broadcast_to s (k ! yp)))\<rparr>)))"
proof -
  have l: "ce_loss e (k ! yt) (k ! yp) =
      Inr [unop (fclamp eps (1 - eps)) (k ! yp), unop fneg (k ! yt),
           unop flog (unop (fclamp eps (1 - eps)) (k ! yp)),
           \<lparr>shape = s, data = map2 fmul (map fneg (broadcast_to s (k ! yt)))
                 (map (\<lambda>v. flog (fclamp eps (1 - eps) v)) (broadcast_to s (k ! yp)))\<rparr>,
           tsum \<lparr>shape = s, data = map2 fmul (map fneg (broadcast_to s (k ! yt)))
                 (map (\<lambda>v. flog (fclamp eps (1 - eps) v)) (broadcast_to s (k ! yp)))\<rparr>,
           unop (\<lambda>x. fdiv x (Fin (real n)))
             (tsum \<lparr>shape = s, data = map2 fmul (map fneg (broadcast_to s (k ! yt)))
                 (map (\<lambda>v. flog (fclamp eps (1 - eps) v)) (broadcast_to s (k ! yp)))\<rparr>)]" for e
    using n bs by (simp add: ce_loss_def binop_def shape_unop broadcast_to_unop comp_def)
  from f consider (A) "f = CustomLoss" "args = [T yp, T yt]"
    | (B) "f = NonDiffCrossEntropy" "args = [T yt, T yp]"
    by (auto simp: is_ce_def)
  then show ?thesis
  proof cases
    case A
    then show ?thesis using refs
      by (simp add: output_of_def CustomLoss_forward_run l nth_append)
  next
    case B
    then show ?thesis using refs
      by (simp add: output_of_def NonDiffCrossEntropy_forward_run l nth_append)
  qed
qed

lemma ce_output_perturbed:
  assumes refs: "yt < length h0" "yp < length h0"
    and f: "is_ce f args yt (length h0)"
    and w: "wf (h0 ! yt)" "wf (h0 ! yp)"
    and n: "shape0 (h0 ! yt) = Inr n" "n \<noteq> 0"
    and bs: "broadcast_shapes (shape (h0 ! yt)) (shape (h0 ! yp)) = Some s"
    and fin: "\<forall>v\<in>set (data (h0 ! yt)). is_finite v" "\<forall>v\<in>set (data (h0 ! yp)). is_finite v"
  shows "output_of (fn_apply f args) (h0 @ [perturbed (h0 ! yp) j t]) =
     [(\<Sum>k<numel s. - real_of_fl (broadcast_to s (h0 ! yt) ! k) *
          (if positions s (h0 ! yp) ! k = j then ln (min (max t eps) (1 - eps))
           else ln (min (max (real_of_fl (data (h0 ! yp) ! (positions s (h0 ! yp) ! k))) eps)
                     (1 - eps)))) / real n]"
proof -
  let ?YT = "h0 ! yt" and ?YP = "h0 ! yp"
  let ?I = "positions s ?YP"
  let ?Tb = "broadcast_to s ?YT"
  let ?k = "h0 @ [perturbed ?YP j t]"
  let ?\<phi> = "\<lambda>k. - real_of_fl (?Tb ! k) *
          (if ?I ! k = j then ln (min (max t eps) (1 - eps))
           else ln (min (max (real_of_fl (data ?YP ! (?I ! k))) eps) (1 - eps)))"
  let ?ys = "map (\<lambda>i. if i = j then Fin t else data ?YP ! i) ?I"
  have lI: "length ?I = numel s"
    using length_broadcast_to_right[OF w(2) bs] by (simp add: length_positions)
  have lT: "length ?Tb = numel s" using w(1) bs by (rule length_broadcast_to_left)
  have r: "yt < length ?k" "length h0 < length ?k" "?k ! length h0 = perturbed ?YP j t"
    "?k ! yt = ?YT"
    using refs by (simp_all add: nth_append)
  have n': "shape0 (?k ! yt) = Inr n" using n(1) r(4) by simp
  have bs': "broadcast_shapes (shape (?k ! yt)) (shape (?k ! length h0)) = Some s"
    using bs r(3,4) by (simp add: shape_perturbed)
  have prods: "map2 fmul (map fneg ?Tb) (map (\<lambda>v. flog (fclamp eps (1 - eps) v)) ?ys) =
      map Fin (map ?\<phi> [0..<numel s])"
  proof (rule nth_equalityI)
    show "length (map2 fmul (map fneg ?Tb) (map (\<lambda>v. flog (fclamp eps (1 - eps) v)) ?ys)) =
        length (map Fin (map ?\<phi> [0..<numel s]))"
      using lI lT by simp
  next
    fix k
    assume "k < length (map2 fmul (map fneg ?Tb) (map (\<lambda>v. flog (fclamp eps (1 - eps) v)) ?ys))"
    then have k: "k < numel s" using lI lT by simp
    obtain tk where tk: "?Tb ! k = Fin tk"
      using finite_broadcast_entry[OF fin(1), of k s] k lT by auto
    have "?I ! k \<in> set ?I" using k lI by simp
    then have "?I ! k < length (data ?YP)" by (rule positions_bound)
    then obtain pk where pk: "data ?YP ! (?I ! k) = Fin pk"
      using finite_entry[OF fin(2)] by blast
    show "map2 fmul (map fneg ?Tb) (map (\<lambda>v. flog (fclamp eps (1 - eps) v)) ?ys) ! k =
        map Fin (map ?\<phi> [0..<numel s]) ! k"
      using k lI lT tk pk clip_positive by simp
  qed
  have "output_of (fn_apply f args) ?k =
     map real_of_fl (data (unop (\<lambda>x. fdiv x (Fin (real n)))
        (tsum \<lparr>shape = s, data = map2 fmul (map fneg ?Tb)
                 (map (\<lambda>v. flog (fclamp eps (1 - eps) v)) ?ys)\<rparr>)))"
    unfolding output_of_ce[OF r(1,2) f n' bs'] r(3,4) broadcast_to_perturbed ..
  also have "\<dots> = [(\<Sum>k<numel s. ?\<phi> k) / real n]"
    unfolding prods using n(2)
    by (simp add: tsum_def unop_def foldl_fadd_Fin sum_list_map_upt del: map_map)
  finally show ?thesis .
qed

lemma ce_backward_general:
  assumes f': "f = CustomLoss \<or> f = NonDiffCrossEntropy"
    and c: "saved_tensors c = (if f = CustomLoss then [yp, yt] else [yt, yp])"
    and refs: "yt < length k" "yp < length k" "g < length k"
    and w: "wf (k ! yt)" "wf (k ! yp)"
    and n: "shape0 (k ! yt) = Inr n"
    and bs: "broadcast_shapes (shape (k ! yt)) (shape (k ! yp)) = Some s"
    and g: "shape (k ! g) = []" "data (k ! g) = [Fin gv]"
    and b: "fn_backward f c g k = Inr (gs, h')"
    and r: "Some r \<in> set gs"
  shows "h' ! r = \<lparr>shape = s,
      data = map (\<lambda>x. fmul (Fin gv) (fdiv x (Fin (real n))))
               (map2 fdiv (map fneg (broadcast_to s (k ! yt))) (broadcast_to s (k ! yp)))\<rparr>"
proof -
  let ?q = "\<lparr>shape = s,
      data = map2 fdiv (map fneg (broadcast_to s (k ! yt))) (broadcast_to s (k ! yp))\<rparr>"
  let ?dq = "unop (\<lambda>x. fdiv x (Fin (real n))) ?q"
  let ?res = "\<lparr>shape = s,
      data = map (\<lambda>x. fmul (Fin gv) (fdiv x (Fin (real n)))) (data ?q)\<rparr>"
  have gr: "ce_grad (k ! yt) (k ! yp) = Inr [unop fneg (k ! yt), ?q, ?dq]"
    using n bs by (simp add: ce_grad_def binop_def shape_unop broadcast_to_unop)
  have "length (broadcast_to s (k ! yt)) = numel s" using w(1) bs by (rule length_broadcast_to_left)
  moreover have "length (broadcast_to s (k ! yp)) = numel s"
    using w(2) bs by (rule length_broadcast_to_right)
  ultimately have wq: "wf ?dq" by (simp add: wf_def unop_def)
  have l: "binop e fmul (k ! g) ?dq = Inr ?res" for e
    using binop_scalar_left[OF g wq, of e fmul] by (simp add: unop_def comp_def)
  have c': "(\<lambda>x. fmul x (Fin gv)) = fmul (Fin gv)" by (rule ext) (rule fmul_commute)
  have rr: "binop e fmul ?dq (k ! g) = Inr ?res" for e
    using binop_scalar_right[OF g wq, of e fmul] by (simp add: unop_def comp_def c')
  from f' show ?thesis
  proof
    assume A: "f = CustomLoss"
    then have cs: "saved_tensors c = [yp, yt]" using c by simp
    from b A have "gs = [Some (length k + 3), None]"
      "h' = k @ [unop fneg (k ! yt), ?q, ?dq] @ [?res]"
      by (simp_all add: CustomLoss_backward_run[OF cs refs(2,1,3)] gr l)
    then show ?thesis using r by (auto simp: nth_append)
  next
    assume B: "f = NonDiffCrossEntropy"
    then have cs: "saved_tensors c = [yt, yp]" using c by simp
    from b B have "gs = [None, Some (length k + 3)]"
      "h' = k @ [unop fneg (k ! yt), ?q, ?dq] @ [?res]"
      by (simp_all add: NonDiffCrossEntropy_backward_run[OF cs refs(2,1,3)] gr rr)
    then show ?thesis using r by (auto simp: nth_append)
  qed
qed

lemma ce_batch_nonempty:
  assumes w: "wf yt" and n: "shape0 yt = Inr n"
    and p: "binop e fmul (unop fneg yt) lg = Inr prods"
    and fo: "\<forall>v\<in>set (data (unop (\<lambda>x. fdiv x (Fin (real n))) (tsum prods))). is_finite v"
  shows "n \<noteq> 0"
proof
  assume z: "n = 0"
  then have "shape yt = 0 # tl (shape yt)" using shape0_Inr[OF n] by (cases "shape yt") auto
  then have "data yt = []" using w map2_eq_empty_numel by blast
  then have "set (broadcast_to s (unop fneg yt)) = {}" for s
    using set_broadcast_to[of s "unop fneg yt"] by (simp add: unop_def)
  then have "data prods = []" using p by (auto simp: binop_def split: option.splits)
  then have "data (unop (\<lambda>x. fdiv x (Fin (real n))) (tsum prods)) = [NaN]"
    using z by (simp add: unop_def tsum_def inf_signed_def)
  then show False using fo by simp
qed

lemma ce_case:
  assumes refs: "yt < length h0" "yp < length h0"
    and f: "is_ce f args yt yp" and f2: "is_ce f (args[i := T (length h0)]) yt (length h0)"
    and w: "wf (h0 ! yt)" "wf (h0 ! yp)"
    and fin: "\<forall>v\<in>set (data (h0 ! yt)). is_finite v" "\<forall>v\<in>set (data (h0 ! yp)). is_finite v"
    and app: "fn_apply f args h0 = Inr ((c, out), h)"
    and fo: "\<forall>v\<in>set (data (h ! out)). is_finite v"
    and g: "g < length (h @ hs)" "wf ((h @ hs) ! g)" "shape ((h @ hs) ! g) = shape (h ! out)"
      "\<forall>v\<in>set (data ((h @ hs) ! g)). is_finite v"
    and b: "fn_backward f c g (h @ hs) = Inr (gs, h')"
    and r: "Some r \<in> set gs"
    and j: "j < length (data (h0 ! yp))" "data (h0 ! yp) ! j = Fin x0" "eps < x0" "x0 < 1 - eps"
  shows "((\<lambda>t. weighted (map real_of_fl (data ((h @ hs) ! g))) (forward_at f args h0 i yp j t))
           has_real_derivative applied_to (h' ! r) (unit_at (h0 ! yp) j)) (at x0)"
proof -
  let ?k = "h @ hs"
  let ?YT = "h0 ! yt" and ?YP = "h0 ! yp"
  from ce_apply_facts[OF refs f app] obtain n prods e hs' where
    n: "shape0 ?YT = Inr n" and h: "h = h0 @ hs'"
    and p: "binop e fmul (unop fneg ?YT) (unop flog (unop (fclamp eps (1 - eps)) ?YP)) = Inr prods"
    and o: "h ! out = unop (\<lambda>x. fdiv x (Fin (real n))) (tsum prods)"
    and c: "saved_tensors c = (if f = CustomLoss then [yp, yt] else [yt, yp])"
    by blast
  define s where "s = shape prods"
  define N where "N = numel s"
  let ?I = "positions s ?YP"
  let ?Tb = "broadcast_to s ?YT"
  have bs: "broadcast_shapes (shape ?YT) (shape ?YP) = Some s"
    using shape_binop[OF p] by (simp add: shape_unop s_def)
  have n0: "n \<noteq> 0" using ce_batch_nonempty[OF w(1) n p] fo o by simp
  have k: "yt < length ?k" "yp < length ?k" "?k ! yt = ?YT" "?k ! yp = ?YP"
    using refs h by (simp_all add: nth_append)
  have f': "f = CustomLoss \<or> f = NonDiffCrossEntropy" using f by (auto simp: is_ce_def)
  have sg: "shape (?k ! g) = []" using g(3) o by (simp add: shape_unop shape_tsum)
  from scalar_tensor[OF g(2) sg g(4)] obtain gv where gv: "data (?k ! g) = [Fin gv]" by blast
  have lI: "length ?I = N"
    using length_broadcast_to_right[OF w(2) bs] by (simp add: length_positions N_def)
  have lT: "length ?Tb = N" using w(1) bs by (simp add: length_broadcast_to_left N_def)
  have lY: "length (broadcast_to s ?YP) = N"
    using w(2) bs by (simp add: length_broadcast_to_right N_def)
  define m where "m = (\<lambda>k. - real_of_fl (?Tb ! k))"
  define cst where "cst = (\<lambda>k. ln (min (max (real_of_fl (data ?YP ! (?I ! k))) eps) (1 - eps)))"
  define lc where "lc = (\<lambda>t. ln (min (max t eps) (1 - eps)))"
  have out: "forward_at f args h0 i yp j t =
      [(\<Sum>k<N. m k * (if ?I ! k = j then lc t else cst k)) / real n]" for t
    unfolding forward_at_def m_def cst_def lc_def N_def
    by (rule ce_output_perturbed[OF refs f2 w n n0 bs fin])
  have "weighted [gv] (forward_at f args h0 i yp j t) =
      (\<Sum>k<N. (gv * m k / real n) * (if ?I ! k = j then lc t else cst k))" for t
    unfolding out by (simp add: weighted_def sum_distrib_left sum_divide_distrib algebra_simps)
  then have eq: "(\<lambda>t. weighted (map real_of_fl (data (?k ! g))) (forward_at f args h0 i yp j t)) =
      (\<lambda>t. \<Sum>k<N. (gv * m k / real n) * (if ?I ! k = j then lc t else cst k))"
    using gv by simp
  have d: "((\<lambda>t. \<Sum>k<N. (gv * m k / real n) * (if ?I ! k = j then lc t else cst k))
      has_real_derivative (\<Sum>k<N. (gv * m k / real n) * (if ?I ! k = j then 1 / x0 else 0))) (at x0)"
    unfolding lc_def by (rule DERIV_positions) (rule DERIV_log_clip[OF j(3,4)])
  have raw: "h' ! r = \<lparr>shape = s,
      data = map (\<lambda>x. fmul (Fin gv) (fdiv x (Fin (real n))))
               (map2 fdiv (map fneg ?Tb) (broadcast_to s ?YP))\<rparr>"
    using ce_backward_general[OF f' c k(1,2) g(1) _ _ _ _ sg gv b r, of n s] w n bs k(3,4)
    by simp
  have lr: "length (data (h' ! r)) = N" unfolding raw using lT lY by simp
  have sr: "shape (h' ! r) = s" unfolding raw by simp
  have x0: "x0 \<noteq> 0" using j(3) eps_bounds(1) by simp
  have "applied_to (h' ! r) (unit_at ?YP j) =
      (\<Sum>k<N. real_of_fl (data (h' ! r) ! k) * (if ?I ! k = j then 1 else 0))"
    using applied_to_unit[OF lr, of ?YP j] lI j(1) by (simp add: sr)
  also have "\<dots> = (\<Sum>k<N. (gv * m k / real n) * (if ?I ! k = j then 1 / x0 else 0))"
  proof (intro sum.cong refl)
    fix k assume "k \<in> {..<N}"
    then have kN: "k < N" by simp
    show "real_of_fl (data (h' ! r) ! k) * (if ?I ! k = j then 1 else 0) =
        (gv * m k / real n) * (if ?I ! k = j then 1 / x0 else 0)"
    proof (cases "?I ! k = j")
      case True
      obtain tk where tk: "?Tb ! k = Fin tk"
        using finite_broadcast_entry[OF fin(1), of k s] kN lT by auto
      have "broadcast_to s ?YP ! k = data ?YP ! (?I ! k)"
        using kN lI by (simp add: broadcast_to_positions[of s ?YP])
      then have yk: "broadcast_to s ?YP ! k = Fin x0" using True j(2) by simp
      have "data (h' ! r) ! k = Fin (gv * (- tk / x0 / real n))"
        unfolding raw using kN lT lY tk yk x0 n0 by simp
      then show ?thesis using True tk by (simp add: m_def)
    next
      case False
      then show ?thesis by simp
    qed
  qed
  finally show ?thesis using d unfolding eq by simp
qed

lemma binop_pair:
  "binop e f \<lparr>shape = [2], data = [a, b]\<rparr> \<lparr>shape = [2], data = [c, d]\<rparr> =
     Inr \<lparr>shape = [2], data = [f a c, f b d]\<rparr>"
  using binop_same_shape[of "\<lparr>shape = [2], data = [a, b]\<rparr>" "\<lparr>shape = [2], data = [c, d]\<rparr>" e f]
  by (simp add: wf_def numel_def)

lemma trunc_small: "0 \<le> a \<Longrightarrow> a < 1 \<Longrightarrow> trunc a = 0"
  by (simp add: trunc_def floor_eq_iff)

lemma integral_forward_run:
  assumes "yt < length k" "yp < length k" "k ! yt = \<lparr>shape = [2], data = [Fin 1, Fin 0]\<rparr>"
    "k ! yp = \<lparr>shape = [2], data = [Fin t, Fin (1 / 4)]\<rparr>"
  shows "NonDiffCrossEntropy_forward Integral c yt yp k =
     Inr ((c\<lparr>saved_tensors := [yt, yp]\<rparr>, length k + 6),
          k @ [\<lparr>shape = [2], data = [Fin (min (max t eps) (1 - eps)), Fin (1 / 4)]\<rparr>,
               \<lparr>shape = [2], data = [Fin (- 1), Fin 0]\<rparr>,
               \<lparr>shape = [2], data = [Fin (ln (min (max t eps) (1 - eps))), Fin (ln (1 / 4))]\<rparr>,
               \<lparr>shape = [2], data = [Fin (- ln (min (max t eps) (1 - eps))), Fin 0]\<rparr>,
               \<lparr>shape = [], data = [Fin (- ln (min (max t eps) (1 - eps)))]\<rparr>,
               \<lparr>shape = [], data = [Fin (trunc (- ln (min (max t eps) (1 - eps))))]\<rparr>,
               \<lparr>shape = [], data = [Fin (trunc (- ln (min (max t eps) (1 - eps))) / 2)]\<rparr>])"
proof -
  define u where "u = min (max t eps) (1 - eps)"
  have u: "0 < u" unfolding u_def by (rule clip_positive)
  have q: "fclamp eps (1 - eps) (Fin (1 / 4)) = Fin (1 / 4)" by (simp add: eps_def)
  have c: "fclamp eps (1 - eps) (Fin t) = Fin u" by (simp add: u_def)
  show ?thesis
    unfolding u_def[symmetric] using assms u
    by (simp add: NonDiffCrossEntropy_forward_def nondiff_crossentropyloss_def Let_def
      prog_defs op_defs t_tensor_def as_dtype_def unop_def tsum_def shape0_def binop_pair
      nth_append q c del: fclamp.simps)
qed

lemma integral_backward_run:
  assumes "yt < length k" "yp < length k" "g < length k"
    "k ! yt = \<lparr>shape = [2], data = [Fin 1, Fin 0]\<rparr>"
    "k ! yp = \<lparr>shape = [2], data = [Fin (3 / 4), Fin (1 / 4)]\<rparr>"
    "k ! g = \<lparr>shape = [], data = [Fin 1]\<rparr>"
  shows "NonDiffCrossEntropy_backward \<lparr>saved_tensors = [yt, yp], ctx_constant = None\<rparr> g k =
     Inr ([None, Some (length k + 3)],
          k @ [\<lparr>shape = [2], data = [Fin (- 1), Fin 0]\<rparr>,
               \<lparr>shape = [2], data = [Fin (- (4 / 3)), Fin 0]\<rparr>,
               \<lparr>shape = [2], data = [Fin (- (2 / 3)), Fin 0]\<rparr>,
               \<lparr>shape = [2], data = [Fin (- (2 / 3)), Fin 0]\<rparr>])"
proof -
  have r: "binop e fmul \<lparr>shape = [2], data = [Fin (- (2 / 3)), Fin 0]\<rparr> \<lparr>shape = [], data = [Fin 1]\<rparr> =
      Inr \<lparr>shape = [2], data = [Fin (- (2 / 3)), Fin 0]\<rparr>" for e
    using binop_scalar_right[of "\<lparr>shape = [], data = [Fin 1]\<rparr>" "Fin 1"
        "\<lparr>shape = [2], data = [Fin (- (2 / 3)), Fin 0]\<rparr>" e fmul]
    by (simp add: wf_def numel_def)
  show ?thesis
    using assms
    by (simp add: NonDiffCrossEntropy_backward_run ce_grad_def shape0_def unop_def binop_pair r)
qed

text \<open>
  Claim C2 as it is written fails in two places. \<open>MyReLU.forward\<close> has no derivative at
  an entry 0, where \<open>backward\<close> passes the upstream gradient on: at the input \<open>[0, 3]\<close>
  with the upstream gradient \<open>[1, 1]\<close> it returns 1 for the first entry. And
  \<open>NonDiffCrossEntropy.forward\<close> converts the sum to the element type of \<open>y_true\<close>: with
  labels of an integer type, \<open>y_true = [1, 0]\<close>, and \<open>y_pred = [3/4, 1/4]\<close> the sum
  \<open>-log(3/4)\<close> becomes 0 and so does the loss, for every first entry of \<open>y_pred\<close>
  between \<open>1/2\<close> and \<open>1 - eps\<close>; the derivative of \<open>forward\<close> in that entry is 0, and
  \<open>backward\<close> returns \<open>-2/3\<close> for the upstream gradient 1.
\<close>

theorem backward_not_derivative:
  "fn_apply MyReLU [T 0]
     [\<lparr>shape = [2], data = [Fin 0, Fin 3]\<rparr>,
      \<lparr>shape = [2], data = [Fin 1, Fin 1]\<rparr>] =
     Inr ((\<lparr>saved_tensors = [0], ctx_constant = None\<rparr>, 2),
     [\<lparr>shape = [2], data = [Fin 0, Fin 3]\<rparr>,
      \<lparr>shape = [2], data = [Fin 1, Fin 1]\<rparr>,
      \<lparr>shape = [2], data = [Fin 0, Fin 3]\<rparr>]) \<and>
   fn_backward MyReLU \<lparr>saved_tensors = [0], ctx_constant = None\<rparr> 1
     [\<lparr>shape = [2], data = [Fin 0, Fin 3]\<rparr>,
      \<lparr>shape = [2], data = [Fin 1, Fin 1]\<rparr>,
      \<lparr>shape = [2], data = [Fin 0, Fin 3]\<rparr>] =
     Inr ([Some 3],
     [\<lparr>shape = [2], data = [Fin 0, Fin 3]\<rparr>,
      \<lparr>shape = [2], data = [Fin 1, Fin 1]\<rparr>,
      \<lparr>shape = [2], data = [Fin 0, Fin 3]\<rparr>,
      \<lparr>shape = [2], data = [Fin 1, Fin 1]\<rparr>]) \<and>
   applied_to ([\<lparr>shape = [2], data = [Fin 0, Fin 3]\<rparr>,
      \<lparr>shape = [2], data = [Fin 1, Fin 1]\<rparr>,
      \<lparr>shape = [2], data = [Fin 0, Fin 3]\<rparr>,
      \<lparr>shape = [2], data = [Fin 1, Fin 1]\<rparr>] ! 3)
     (unit_at ([\<lparr>shape = [2], data = [Fin 0, Fin 3]\<rparr>,
      \<lparr>shape = [2], data = [Fin 1, Fin 1]\<rparr>] ! 0) 0) = 1 \<and>
   \<not> ((\<lambda>t. weighted (map real_of_fl (data ([\<lparr>shape = [2], data = [Fin 0, Fin 3]\<rparr>,
      \<lparr>shape = [2], data = [Fin 1, Fin 1]\<rparr>,
      \<lparr>shape = [2], data = [Fin 0, Fin 3]\<rparr>] ! 1)))
                 (forward_at MyReLU [T 0]
                    [\<lparr>shape = [2], data = [Fin 0, Fin 3]\<rparr>,
      \<lparr>shape = [2], data = [Fin 1, Fin 1]\<rparr>] 0 0 0 t))
        has_real_derivative
          applied_to ([\<lparr>shape = [2], data = [Fin 0, Fin 3]\<rparr>,
      \<lparr>shape = [2], data = [Fin 1, Fin 1]\<rparr>,
      \<lparr>shape = [2], data = [Fin 0, Fin 3]\<rparr>,
      \<lparr>shape = [2], data = [Fin 1, Fin 1]\<rparr>] ! 3)
            (unit_at ([\<lparr>shape = [2], data = [Fin 0, Fin 3]\<rparr>,
      \<lparr>shape = [2], data = [Fin 1, Fin 1]\<rparr>] ! 0) 0)) (at 0) \<and>
   NonDiffCrossEntropy_forward Integral empty_ctx 0 1
     [\<lparr>shape = [2], data = [Fin 1, Fin 0]\<rparr>,
      \<lparr>shape = [2], data = [Fin (3 / 4), Fin (1 / 4)]\<rparr>,
      \<lparr>shape = [], data = [Fin 1]\<rparr>] =
     Inr ((\<lparr>saved_tensors = [0, 1], ctx_constant = None\<rparr>, 9),
     [\<lparr>shape = [2], data = [Fin 1, Fin 0]\<rparr>,
      \<lparr>shape = [2], data = [Fin (3 / 4), Fin (1 / 4)]\<rparr>,
      \<lparr>shape = [], data = [Fin 1]\<rparr>,
      \<lparr>shape = [2], data = [Fin (3 / 4), Fin (1 / 4)]\<rparr>,
      \<lparr>shape = [2], data = [Fin (- 1), Fin 0]\<rparr>,
      \<lparr>shape = [2], data = [Fin (ln (3 / 4)), Fin (ln (1 / 4))]\<rparr>,
      \<lparr>shape = [2], data = [Fin (- ln (3 / 4)), Fin 0]\<rparr>,
      \<lparr>shape = [], data = [Fin (- ln (3 / 4))]\<rparr>,
      \<lparr>shape = [], data = [Fin 0]\<rparr>,
      \<lparr>shape = [], data = [Fin 0]\<rparr>]) \<and>
   NonDiffCrossEntropy_backward \<lparr>saved_tensors = [0, 1], ctx_constant = None\<rparr> 2
     [\<lparr>shape = [2], data = [Fin 1, Fin 0]\<rparr>,
      \<lparr>shape = [2], data = [Fin (3 / 4), Fin (1 / 4)]\<rparr>,
      \<lparr>shape = [], data = [Fin 1]\<rparr>,
      \<lparr>shape = [2], data = [Fin (3 / 4), Fin (1 / 4)]\<rparr>,
      \<lparr>shape = [2], data = [Fin (- 1), Fin 0]\<rparr>,
      \<lparr>shape = [2], data = [Fin (ln (3 / 4)), Fin (ln (1 / 4))]\<rparr>,
      \<lparr>shape = [2], data = [Fin (- ln (3 / 4)), Fin 0]\<rparr>,
      \<lparr>shape = [], data = [Fin (- ln (3 / 4))]\<rparr>,
      \<lparr>shape = [], data = [Fin 0]\<rparr>,
      \<lparr>shape = [], data = [Fin 0]\<rparr>] =
     Inr ([None, Some 13],
     [\<lparr>shape = [2], data = [Fin 1, Fin 0]\<rparr>,
      \<lparr>shape = [2], data = [Fin (3 / 4), Fin (1 / 4)]\<rparr>,
      \<lparr>shape = [], data = [Fin 1]\<rparr>,
      \<lparr>shape = [2], data = [Fin (3 / 4), Fin (1 / 4)]\<rparr>,
      \<lparr>shape = [2], data = [Fin (- 1), Fin 0]\<rparr>,
      \<lparr>shape = [2], data = [Fin (ln (3 / 4)), Fin (ln (1 / 4))]\<rparr>,
      \<lparr>shape = [2], data = [Fin (- ln (3 / 4)), Fin 0]\<rparr>,
      \<lparr>shape = [], data = [Fin (- ln (3 / 4))]\<rparr>,
      \<lparr>shape = [], data = [Fin 0]\<rparr>,
      \<lparr>shape = [], data = [Fin 0]\<rparr>,
      \<lparr>shape = [2], data = [Fin (- 1), Fin 0]\<rparr>,
      \<lparr>shape = [2], data = [Fin (- (4 / 3)), Fin 0]\<rparr>,
      \<lparr>shape = [2], data = [Fin (- (2 / 3)), Fin 0]\<rparr>,
      \<lparr>shape = [2], data = [Fin (- (2 / 3)), Fin 0]\<rparr>]) \<and>
   ((\<lambda>t. weighted (map real_of_fl (data ([\<lparr>shape = [2], data = [Fin 1, Fin 0]\<rparr>,
      \<lparr>shape = [2], data = [Fin (3 / 4), Fin (1 / 4)]\<rparr>,
      \<lparr>shape = [], data = [Fin 1]\<rparr>,
      \<lparr>shape = [2], data = [Fin (3 / 4), Fin (1 / 4)]\<rparr>,
      \<lparr>shape = [2], data = [Fin (- 1), Fin 0]\<rparr>,
      \<lparr>shape = [2], data = [Fin (ln (3 / 4)), Fin (ln (1 / 4))]\<rparr>,
      \<lparr>shape = [2], data = [Fin (- ln (3 / 4)), Fin 0]\<rparr>,
      \<lparr>shape = [], data = [Fin (- ln (3 / 4))]\<rparr>,
      \<lparr>shape = [], data = [Fin 0]\<rparr>,
      \<lparr>shape = [], data = [Fin 0]\<rparr>] ! 2)))
            (output_of (NonDiffCrossEntropy_forward Integral empty_ctx 0 3)
               ([\<lparr>shape = [2], data = [Fin 1, Fin 0]\<rparr>,
      \<lparr>shape = [2], data = [Fin (3 / 4), Fin (1 / 4)]\<rparr>,
      \<lparr>shape = [], data = [Fin 1]\<rparr>] @
                [perturbed ([\<lparr>shape = [2], data = [Fin 1, Fin 0]\<rparr>,
      \<lparr>shape = [2], data = [Fin (3 / 4), Fin (1 / 4)]\<rparr>,
      \<lparr>shape = [], data = [Fin 1]\<rparr>] ! 1) 0 t])))
      has_real_derivative 0) (at (3 / 4)) \<and>
   applied_to ([\<lparr>shape = [2], data = [Fin 1, Fin 0]\<rparr>,
      \<lparr>shape = [2], data = [Fin (3 / 4), Fin (1 / 4)]\<rparr>,
      \<lparr>shape = [], data = [Fin 1]\<rparr>,
      \<lparr>shape = [2], data = [Fin (3 / 4), Fin (1 / 4)]\<rparr>,
      \<lparr>shape = [2], data = [Fin (- 1), Fin 0]\<rparr>,
      \<lparr>shape = [2], data = [Fin (ln (3 / 4)), Fin (ln (1 / 4))]\<rparr>,
      \<lparr>shape = [2], data = [Fin (- ln (3 / 4)), Fin 0]\<rparr>,
      \<lparr>shape = [], data = [Fin (- ln (3 / 4))]\<rparr>,
      \<lparr>shape = [], data = [Fin 0]\<rparr>,
      \<lparr>shape = [], data = [Fin 0]\<rparr>,
      \<lparr>shape = [2], data = [Fin (- 1), Fin 0]\<rparr>,
      \<lparr>shape = [2], data = [Fin (- (4 / 3)), Fin 0]\<rparr>,
      \<lparr>shape = [2], data = [Fin (- (2 / 3)), Fin 0]\<rparr>,
      \<lparr>shape = [2], data = [Fin (- (2 / 3)), Fin 0]\<rparr>] ! 13)
     (unit_at ([\<lparr>shape = [2], data = [Fin 1, Fin 0]\<rparr>,
      \<lparr>shape = [2], data = [Fin (3 / 4), Fin (1 / 4)]\<rparr>,
      \<lparr>shape = [], data = [Fin 1]\<rparr>] ! 1) 0) = - (2 / 3)"
proof -
  let ?init = "[\<lparr>shape = [2], data = [Fin 0, Fin 3]\<rparr>,
      \<lparr>shape = [2], data = [Fin 1, Fin 1]\<rparr>]"
  let ?after = "[\<lparr>shape = [2], data = [Fin 0, Fin 3]\<rparr>,
      \<lparr>shape = [2], data = [Fin 1, Fin 1]\<rparr>,
      \<lparr>shape = [2], data = [Fin 0, Fin 3]\<rparr>]"
  let ?final = "[\<lparr>shape = [2], data = [Fin 0, Fin 3]\<rparr>,
      \<lparr>shape = [2], data = [Fin 1, Fin 1]\<rparr>,
      \<lparr>shape = [2], data = [Fin 0, Fin 3]\<rparr>,
      \<lparr>shape = [2], data = [Fin 1, Fin 1]\<rparr>]"
  have app: "fn_apply MyReLU [T 0] ?init = Inr ((\<lparr>saved_tensors = [0], ctx_constant = None\<rparr>, 2), ?after)"
    by (simp add: MyReLU_forward_run empty_ctx_def unop_def)
  have b: "fn_backward MyReLU \<lparr>saved_tensors = [0], ctx_constant = None\<rparr> 1 ?after = Inr ([Some 3], ?final)"
    by (simp add: MyReLU_backward_run mask_assign_def unop_def numel_def)
  have ap: "applied_to (?final ! 3) (unit_at (?init ! 0) 0) = 1"
    using applied_to_unit_same[of "?final ! 3" "?init ! 0" 0] by (simp add: wf_def numel_def)
  have "forward_at MyReLU [T 0] ?init 0 0 0 t = [max t 0, 3]" for t
    by (simp add: forward_at_MyReLU)
  then have "(\<lambda>t. weighted (map real_of_fl (data (?after ! 1)))
                 (forward_at MyReLU [T 0] ?init 0 0 0 t)) = (\<lambda>t. 3 + max t 0)"
    by (simp add: weighted_def add.commute)
  then have nd: "\<not> ((\<lambda>t. weighted (map real_of_fl (data (?after ! 1)))
                 (forward_at MyReLU [T 0] ?init 0 0 0 t))
        has_real_derivative applied_to (?final ! 3) (unit_at (?init ! 0) 0)) (at 0)"
    unfolding ap using relu_not_differentiable[of 3] by simp
  let ?before = "[\<lparr>shape = [2], data = [Fin 1, Fin 0]\<rparr>,
      \<lparr>shape = [2], data = [Fin (3 / 4), Fin (1 / 4)]\<rparr>,
      \<lparr>shape = [], data = [Fin 1]\<rparr>]"
  let ?middle = "[\<lparr>shape = [2], data = [Fin 1, Fin 0]\<rparr>,
      \<lparr>shape = [2], data = [Fin (3 / 4), Fin (1 / 4)]\<rparr>,
      \<lparr>shape = [], data = [Fin 1]\<rparr>,
      \<lparr>shape = [2], data = [Fin (3 / 4), Fin (1 / 4)]\<rparr>,
      \<lparr>shape = [2], data = [Fin (- 1), Fin 0]\<rparr>,
      \<lparr>shape = [2], data = [Fin (ln (3 / 4)), Fin (ln (1 / 4))]\<rparr>,
      \<lparr>shape = [2], data = [Fin (- ln (3 / 4)), Fin 0]\<rparr>,
      \<lparr>shape = [], data = [Fin (- ln (3 / 4))]\<rparr>,
      \<lparr>shape = [], data = [Fin 0]\<rparr>,
      \<lparr>shape = [], data = [Fin 0]\<rparr>]"
  let ?later = "[\<lparr>shape = [2], data = [Fin 1, Fin 0]\<rparr>,
      \<lparr>shape = [2], data = [Fin (3 / 4), Fin (1 / 4)]\<rparr>,
      \<lparr>shape = [], data = [Fin 1]\<rparr>,
      \<lparr>shape = [2], data = [Fin (3 / 4), Fin (1 / 4)]\<rparr>,
      \<lparr>shape = [2], data = [Fin (- 1), Fin 0]\<rparr>,
      \<lparr>shape = [2], data = [Fin (ln (3 / 4)), Fin (ln (1 / 4))]\<rparr>,
      \<lparr>shape = [2], data = [Fin (- ln (3 / 4)), Fin 0]\<rparr>,
      \<lparr>shape = [], data = [Fin (- ln (3 / 4))]\<rparr>,
      \<lparr>shape = [], data = [Fin 0]\<rparr>,
      \<lparr>shape = [], data = [Fin 0]\<rparr>,
      \<lparr>shape = [2], data = [Fin (- 1), Fin 0]\<rparr>,
      \<lparr>shape = [2], data = [Fin (- (4 / 3)), Fin 0]\<rparr>,
      \<lparr>shape = [2], data = [Fin (- (2 / 3)), Fin 0]\<rparr>,
      \<lparr>shape = [2], data = [Fin (- (2 / 3)), Fin 0]\<rparr>]"
  have tr: "trunc (- ln t) = 0" if "1 / 2 < t" "t < 1" for t :: real
  proof -
    have "ln (1 / 2) < ln t" using that by (subst ln_less_cancel_iff) simp_all
    moreover have "ln (1 / 2 :: real) = - ln 2" by (simp add: ln_div)
    ultimately have "- ln t < 1" using ln_2_less_1 by linarith
    moreover have "ln t < 0" using that by (simp add: ln_less_zero)
    ultimately show ?thesis by (intro trunc_small) simp_all
  qed
  have c34: "min (max (3 / 4) eps) (1 - eps) = 3 / 4" by (simp add: eps_def)
  have fw: "NonDiffCrossEntropy_forward Integral empty_ctx 0 1 ?before =
      Inr ((\<lparr>saved_tensors = [0, 1], ctx_constant = None\<rparr>, 9), ?middle)"
    using tr[of "3 / 4"]
      integral_forward_run[where yt = 0 and yp = 1 and k = ?before and t = "3 / 4" and c = empty_ctx]
    by (simp add: c34 empty_ctx_def)
  have bw: "NonDiffCrossEntropy_backward \<lparr>saved_tensors = [0, 1], ctx_constant = None\<rparr> 2 ?middle = Inr ([None, Some 13], ?later)"
    using integral_backward_run[where yt = 0 and yp = 1 and g = 2 and k = ?middle] by simp
  have out: "output_of (NonDiffCrossEntropy_forward Integral empty_ctx 0 3)
               (?before @ [perturbed (?before ! 1) 0 t]) = [0]"
    if "1 / 2 < t" "t < 1 - eps" for t
  proof -
    have u: "min (max t eps) (1 - eps) = t" using that by (simp add: eps_def)
    have "t < 1" using that(2) eps_bounds(1) by linarith
    then have "trunc (- ln t) = 0" using that(1) by (intro tr)
    then show ?thesis
      using integral_forward_run[where yt = 0 and yp = 3 and t = t and c = empty_ctx
          and k = "?before @ [perturbed (?before ! 1) 0 t]"]
      by (simp add: output_of_def perturbed_def u)
  qed
  have "eventually (\<lambda>t. weighted (map real_of_fl (data (?middle ! 2)))
            (output_of (NonDiffCrossEntropy_forward Integral empty_ctx 0 3)
               (?before @ [perturbed (?before ! 1) 0 t])) = 0) (nhds (3 / 4))"
  proof (rule eventually_nhds_in_open[of "{1 / 2<..<1 - eps}", THEN eventually_mono])
    show "open {1 / 2<..<1 - eps}" by simp
    show "3 / 4 \<in> {1 / 2<..<1 - eps}" by (simp add: eps_def)
    fix t assume "t \<in> {1 / 2<..<1 - eps}"
    then have "1 / 2 < t" "t < 1 - eps" by simp_all
    from out[OF this]
    show "weighted (map real_of_fl (data (?middle ! 2)))
            (output_of (NonDiffCrossEntropy_forward Integral empty_ctx 0 3)
               (?before @ [perturbed (?before ! 1) 0 t])) = 0"
      by (simp add: weighted_def)
  qed
  moreover have "((\<lambda>t. 0 :: real) has_real_derivative 0) (at (3 / 4))" by simp
  ultimately have dv: "((\<lambda>t. weighted (map real_of_fl (data (?middle ! 2)))
            (output_of (NonDiffCrossEntropy_forward Integral empty_ctx 0 3)
               (?before @ [perturbed (?before ! 1) 0 t])))
      has_real_derivative 0) (at (3 / 4))"
    by (subst DERIV_cong_ev[OF refl _ refl]) auto
  have ap2: "applied_to (?later ! 13) (unit_at (?before ! 1) 0) = - (2 / 3)"
    using applied_to_unit_same[of "?later ! 13" "?before ! 1" 0] by (simp add: wf_def numel_def)
  show ?thesis
    using app b ap nd fw bw dv ap2 by blast
qed

text \<open>
  Claim C2, amended. Take any of the five functions, called on floating-point tensors
  (for \<open>NonDiffCrossEntropy\<close>: labels of a floating-point type) that are well formed and
  have finite entries, with a finite \<open>alpha\<close>, such that \<open>forward\<close> returns finite
  values (for the cross-entropy functions: \<open>N\<close> is not 0), and an upstream gradient \<open>g\<close>
  with finite entries and the shape of the output. The tensor arguments may have
  different shapes that \<open>forward\<close> broadcasts, and may be the same object. For every
  input slot \<open>i\<close> for which \<open>backward\<close> returns a tensor and every entry \<open>j\<close> of that
  input, the derivative, in entry \<open>j\<close> of argument \<open>i\<close>, of the sum of the
  \<open>g\<^sub>k * forward(inputs)\<^sub>k\<close> is the returned gradient applied to the change of that
  entry: to first order the change of \<open>forward\<close> is the returned gradient applied to the
  change of the input. When the returned gradient has the shape of the input, this is
  its entry \<open>j\<close> (lemma \<open>applied_to_unit_same\<close>); when \<open>forward\<close> has broadcast the input,
  it is the sum of the entries of the returned gradient at the copies of entry \<open>j\<close>. For
  \<open>MyReLU\<close> the entry of the input must not be 0, and for the cross-entropy functions
  the entry of \<open>y_pred\<close> must lie strictly inside the clip interval \<open>(eps, 1 - eps)\<close>.
\<close>

theorem backward_is_derivative:
  assumes a: "\<forall>y. T y \<in> set args \<longrightarrow>
                 y < length h0 \<and> wf (h0 ! y) \<and> (\<forall>v\<in>set (data (h0 ! y)). is_finite v)"
    and al: "\<forall>v. S v \<in> set args \<longrightarrow> is_finite v"
    and app: "fn_apply f args h0 = Inr ((c, out), h)"
    and fo: "\<forall>v\<in>set (data (h ! out)). is_finite v"
    and g: "g < length (h @ hs)" "wf ((h @ hs) ! g)" "shape ((h @ hs) ! g) = shape (h ! out)"
      "\<forall>v\<in>set (data ((h @ hs) ! g)). is_finite v"
    and b: "fn_backward f c g (h @ hs) = Inr (gs, h')"
    and i: "i < length args" "args ! i = T x" "gs ! i = Some r"
    and j: "j < length (data (h0 ! x))" "data (h0 ! x) ! j = Fin x0"
    and relu: "f = MyReLU \<longrightarrow> x0 \<noteq> 0"
    and ce: "f = CustomLoss \<or> f = NonDiffCrossEntropy \<longrightarrow> eps < x0 \<and> x0 < 1 - eps"
  shows "((\<lambda>t. weighted (map real_of_fl (data ((h @ hs) ! g))) (forward_at f args h0 i x j t))
           has_real_derivative applied_to (h' ! r) (unit_at (h0 ! x) j)) (at x0)"
  using app
proof (cases rule: apply_cases)
  case (ReLU x')
  then have x: "x' = x" "i = 0" using i by auto
  have ax: "x < length h0" "wf (h0 ! x)" using a ReLU x by auto
  have app': "MyReLU_forward empty_ctx x h0 = Inr ((c, out), h)" using app ReLU x by simp
  have b': "MyReLU_backward c g (h @ hs) = Inr (gs, h')" using b ReLU by simp
  have r0: "gs ! 0 = Some r" using i(3) x by simp
  have nz: "x0 \<noteq> 0" using relu ReLU by simp
  show ?thesis using relu_case[OF ax app' g b' r0 j nz] ReLU x by simp
next
  case (Sum x')
  then have x: "x' = x" "i = 0" using i by auto
  have ax: "x < length h0" "wf (h0 ! x)" "\<forall>v\<in>set (data (h0 ! x)). is_finite v"
    using a Sum x by auto
  have app': "MatrixSum_forward empty_ctx x h0 = Inr ((c, out), h)" using app Sum x by simp
  have b': "MatrixSum_backward c g (h @ hs) = Inr (gs, h')" using b Sum by simp
  have r0: "gs ! 0 = Some r" using i(3) x by simp
  show ?thesis using sum_case[OF ax app' g b' r0 j(1), of x0] Sum x by simp
next
  case (Sub p q ao)
  then have ap: "fn_apply f args = MySub_apply p q ao" by auto
  have m: "T p \<in> set args" "T q \<in> set args" using Sub by auto
  have v: "p < length h0" "q < length h0" and w: "wf (h0 ! p)" "wf (h0 ! q)"
    and fin: "\<forall>v\<in>set (data (h0 ! p)). is_finite v" "\<forall>v\<in>set (data (h0 ! q)). is_finite v"
    using a m by auto
  have "is_finite (alpha_of ao)" using Sub al by (auto simp: alpha_of_def)
  then obtain al' where al': "alpha_of ao = Fin al'" by (cases "alpha_of ao") auto
  have ix: "i = 0 \<and> x = p \<or> i = 1 \<and> x = q"
    using i Sub by (auto simp: nth_Cons' split: if_splits)
  have app': "MySub_apply p q ao h0 = Inr ((c, out), h)" using app ap by simp
  have b': "MySub_backward c g (h @ hs) = Inr (gs, h')" using b Sub by simp
  show ?thesis
    by (rule sub_case[OF Sub(1,2) v w fin al' app' g b' ix i(3) j(1)])
next
  case (NonDiff yt yp)
  then have isce: "is_ce f args yt yp" by (simp add: is_ce_def)
  have m: "T yt \<in> set args" "T yp \<in> set args" using NonDiff by auto
  have v: "yt < length h0" "yp < length h0" and w: "wf (h0 ! yt)" "wf (h0 ! yp)"
    and fin: "\<forall>v\<in>set (data (h0 ! yt)). is_finite v" "\<forall>v\<in>set (data (h0 ! yp)). is_finite v"
    using a m by auto
  from backward_slots[OF b] NonDiff obtain r' where gs: "gs = [None, Some r']" by auto
  then have x: "x = yp" "i = 1" "Some r \<in> set gs"
    using i NonDiff by (auto simp: nth_Cons' split: if_splits)
  have isce2: "is_ce f (args[i := T (length h0)]) yt (length h0)"
    using NonDiff x by (simp add: is_ce_def)
  have dom: "eps < x0" "x0 < 1 - eps" using ce NonDiff by simp_all
  have jx: "j < length (data (h0 ! yp))" "data (h0 ! yp) ! j = Fin x0" using j x(1) by simp_all
  show ?thesis
    using ce_case[OF v isce isce2 w fin app fo g b x(3) jx dom] x(1) by simp
next
  case (Custom yp yt)
  then have isce: "is_ce f args yt yp" by (simp add: is_ce_def)
  have m: "T yt \<in> set args" "T yp \<in> set args" using Custom by auto
  have v: "yt < length h0" "yp < length h0" and w: "wf (h0 ! yt)" "wf (h0 ! yp)"
    and fin: "\<forall>v\<in>set (data (h0 ! yt)). is_finite v" "\<forall>v\<in>set (data (h0 ! yp)). is_finite v"
    using a m by auto
  from backward_slots[OF b] Custom obtain r' where gs: "gs = [Some r', None]" by auto
  then have x: "x = yp" "i = 0" "Some r \<in> set gs"
    using i Custom by (auto simp: nth_Cons' split: if_splits)
  have isce2: "is_ce f (args[i := T (length h0)]) yt (length h0)"
    using Custom x by (simp add: is_ce_def)
  have dom: "eps < x0" "x0 < 1 - eps" using ce Custom by simp_all
  have jx: "j < length (data (h0 ! yp))" "data (h0 ! yp) ! j = Fin x0" using j x(1) by simp_all
  show ?thesis
    using ce_case[OF v isce isce2 w fin app fo g b x(3) jx dom] x(1) by simp
qed

theorem backward_is_derivative_witness:
  "fn_apply MySub [T 0, T 1]
     [\<lparr>shape = [2], data = [Fin 5, Fin 6]\<rparr>,
      \<lparr>shape = [2, 2], data = [Fin 1, Fin 2, Fin 3, Fin 4]\<rparr>,
      \<lparr>shape = [2, 2], data = [Fin 1, Fin 1, Fin 1, Fin 1]\<rparr>] =
     Inr ((\<lparr>saved_tensors = [0, 1], ctx_constant = Some (Fin 1)\<rparr>, 4),
     [\<lparr>shape = [2], data = [Fin 5, Fin 6]\<rparr>,
      \<lparr>shape = [2, 2], data = [Fin 1, Fin 2, Fin 3, Fin 4]\<rparr>,
      \<lparr>shape = [2, 2], data = [Fin 1, Fin 1, Fin 1, Fin 1]\<rparr>,
      \<lparr>shape = [2, 2], data = [Fin 1, Fin 2, Fin 3, Fin 4]\<rparr>,
      \<lparr>shape = [2, 2], data = [Fin 4, Fin 4, Fin 2, Fin 2]\<rparr>]) \<and>
   fn_backward MySub \<lparr>saved_tensors = [0, 1], ctx_constant = Some (Fin 1)\<rparr> 2
     ([\<lparr>shape = [2], data = [Fin 5, Fin 6]\<rparr>,
      \<lparr>shape = [2, 2], data = [Fin 1, Fin 2, Fin 3, Fin 4]\<rparr>,
      \<lparr>shape = [2, 2], data = [Fin 1, Fin 1, Fin 1, Fin 1]\<rparr>,
      \<lparr>shape = [2, 2], data = [Fin 1, Fin 2, Fin 3, Fin 4]\<rparr>,
      \<lparr>shape = [2, 2], data = [Fin 4, Fin 4, Fin 2, Fin 2]\<rparr>] @ []) =
     Inr ([Some 6, Some 9, None],
     [\<lparr>shape = [2], data = [Fin 5, Fin 6]\<rparr>,
      \<lparr>shape = [2, 2], data = [Fin 1, Fin 2, Fin 3, Fin 4]\<rparr>,
      \<lparr>shape = [2, 2], data = [Fin 1, Fin 1, Fin 1, Fin 1]\<rparr>,
      \<lparr>shape = [2, 2], data = [Fin 1, Fin 2, Fin 3, Fin 4]\<rparr>,
      \<lparr>shape = [2, 2], data = [Fin 4, Fin 4, Fin 2, Fin 2]\<rparr>,
      \<lparr>shape = [2], data = [Fin 1, Fin 1]\<rparr>,
      \<lparr>shape = [2, 2], data = [Fin 1, Fin 1, Fin 1, Fin 1]\<rparr>,
      \<lparr>shape = [2, 2], data = [Fin (- 1), Fin (- 1), Fin (- 1), Fin (- 1)]\<rparr>,
      \<lparr>shape = [2, 2], data = [Fin 1, Fin 1, Fin 1, Fin 1]\<rparr>,
      \<lparr>shape = [2, 2], data = [Fin (- 1), Fin (- 1), Fin (- 1), Fin (- 1)]\<rparr>]) \<and>
   ((\<lambda>t. weighted (map real_of_fl (data (([\<lparr>shape = [2], data = [Fin 5, Fin 6]\<rparr>,
      \<lparr>shape = [2, 2], data = [Fin 1, Fin 2, Fin 3, Fin 4]\<rparr>,
      \<lparr>shape = [2, 2], data = [Fin 1, Fin 1, Fin 1, Fin 1]\<rparr>,
      \<lparr>shape = [2, 2], data = [Fin 1, Fin 2, Fin 3, Fin 4]\<rparr>,
      \<lparr>shape = [2, 2], data = [Fin 4, Fin 4, Fin 2, Fin 2]\<rparr>] @ []) ! 2)))
            (forward_at MySub [T 0, T 1]
               [\<lparr>shape = [2], data = [Fin 5, Fin 6]\<rparr>,
      \<lparr>shape = [2, 2], data = [Fin 1, Fin 2, Fin 3, Fin 4]\<rparr>,
      \<lparr>shape = [2, 2], data = [Fin 1, Fin 1, Fin 1, Fin 1]\<rparr>] 0 0 0 t))
      has_real_derivative
        applied_to ([\<lparr>shape = [2], data = [Fin 5, Fin 6]\<rparr>,
      \<lparr>shape = [2, 2], data = [Fin 1, Fin 2, Fin 3, Fin 4]\<rparr>,
      \<lparr>shape = [2, 2], data = [Fin 1, Fin 1, Fin 1, Fin 1]\<rparr>,
      \<lparr>shape = [2, 2], data = [Fin 1, Fin 2, Fin 3, Fin 4]\<rparr>,
      \<lparr>shape = [2, 2], data = [Fin 4, Fin 4, Fin 2, Fin 2]\<rparr>,
      \<lparr>shape = [2], data = [Fin 1, Fin 1]\<rparr>,
      \<lparr>shape = [2, 2], data = [Fin 1, Fin 1, Fin 1, Fin 1]\<rparr>,
      \<lparr>shape = [2, 2], data = [Fin (- 1), Fin (- 1), Fin (- 1), Fin (- 1)]\<rparr>,
      \<lparr>shape = [2, 2], data = [Fin 1, Fin 1, Fin 1, Fin 1]\<rparr>,
      \<lparr>shape = [2, 2], data = [Fin (- 1), Fin (- 1), Fin (- 1), Fin (- 1)]\<rparr>] ! 6)
          (unit_at ([\<lparr>shape = [2], data = [Fin 5, Fin 6]\<rparr>,
      \<lparr>shape = [2, 2], data = [Fin 1, Fin 2, Fin 3, Fin 4]\<rparr>,
      \<lparr>shape = [2, 2], data = [Fin 1, Fin 1, Fin 1, Fin 1]\<rparr>] ! 0) 0)) (at 5) \<and>
   applied_to ([\<lparr>shape = [2], data = [Fin 5, Fin 6]\<rparr>,
      \<lparr>shape = [2, 2], data = [Fin 1, Fin 2, Fin 3, Fin 4]\<rparr>,
      \<lparr>shape = [2, 2], data = [Fin 1, Fin 1, Fin 1, Fin 1]\<rparr>,
      \<lparr>shape = [2, 2], data = [Fin 1, Fin 2, Fin 3, Fin 4]\<rparr>,
      \<lparr>shape = [2, 2], data = [Fin 4, Fin 4, Fin 2, Fin 2]\<rparr>,
      \<lparr>shape = [2], data = [Fin 1, Fin 1]\<rparr>,
      \<lparr>shape = [2, 2], data = [Fin 1, Fin 1, Fin 1, Fin 1]\<rparr>,
      \<lparr>shape = [2, 2], data = [Fin (- 1), Fin (- 1), Fin (- 1), Fin (- 1)]\<rparr>,
      \<lparr>shape = [2, 2], data = [Fin 1, Fin 1, Fin 1, Fin 1]\<rparr>,
      \<lparr>shape = [2, 2], data = [Fin (- 1), Fin (- 1), Fin (- 1), Fin (- 1)]\<rparr>] ! 6)
     (unit_at ([\<lparr>shape = [2], data = [Fin 5, Fin 6]\<rparr>,
      \<lparr>shape = [2, 2], data = [Fin 1, Fin 2, Fin 3, Fin 4]\<rparr>,
      \<lparr>shape = [2, 2], data = [Fin 1, Fin 1, Fin 1, Fin 1]\<rparr>] ! 0) 0) = 2"
proof -
  let ?before = "[\<lparr>shape = [2], data = [Fin 5, Fin 6]\<rparr>,
      \<lparr>shape = [2, 2], data = [Fin 1, Fin 2, Fin 3, Fin 4]\<rparr>,
      \<lparr>shape = [2, 2], data = [Fin 1, Fin 1, Fin 1, Fin 1]\<rparr>]"
  let ?middle = "[\<lparr>shape = [2], data = [Fin 5, Fin 6]\<rparr>,
      \<lparr>shape = [2, 2], data = [Fin 1, Fin 2, Fin 3, Fin 4]\<rparr>,
      \<lparr>shape = [2, 2], data = [Fin 1, Fin 1, Fin 1, Fin 1]\<rparr>,
      \<lparr>shape = [2, 2], data = [Fin 1, Fin 2, Fin 3, Fin 4]\<rparr>,
      \<lparr>shape = [2, 2], data = [Fin 4, Fin 4, Fin 2, Fin 2]\<rparr>]"
  let ?later = "[\<lparr>shape = [2], data = [Fin 5, Fin 6]\<rparr>,
      \<lparr>shape = [2, 2], data = [Fin 1, Fin 2, Fin 3, Fin 4]\<rparr>,
      \<lparr>shape = [2, 2], data = [Fin 1, Fin 1, Fin 1, Fin 1]\<rparr>,
      \<lparr>shape = [2, 2], data = [Fin 1, Fin 2, Fin 3, Fin 4]\<rparr>,
      \<lparr>shape = [2, 2], data = [Fin 4, Fin 4, Fin 2, Fin 2]\<rparr>,
      \<lparr>shape = [2], data = [Fin 1, Fin 1]\<rparr>,
      \<lparr>shape = [2, 2], data = [Fin 1, Fin 1, Fin 1, Fin 1]\<rparr>,
      \<lparr>shape = [2, 2], data = [Fin (- 1), Fin (- 1), Fin (- 1), Fin (- 1)]\<rparr>,
      \<lparr>shape = [2, 2], data = [Fin 1, Fin 1, Fin 1, Fin 1]\<rparr>,
      \<lparr>shape = [2, 2], data = [Fin (- 1), Fin (- 1), Fin (- 1), Fin (- 1)]\<rparr>]"
  let ?args = "[T 0, T 1]"
  let ?c = "\<lparr>saved_tensors = [0, 1], ctx_constant = Some (Fin 1)\<rparr>"
  have a: "\<forall>y. T y \<in> set ?args \<longrightarrow>
      y < length ?before \<and> wf (?before ! y) \<and> (\<forall>v\<in>set (data (?before ! y)). is_finite v)"
    by (auto simp: wf_def numel_def)
  have al: "\<forall>v. S v \<in> set ?args \<longrightarrow> is_finite v" by simp
  have app: "fn_apply MySub ?args ?before = Inr ((?c, 4), ?middle)"
    using MySub_broadcast_example(1) by simp
  have fo: "\<forall>v\<in>set (data (?middle ! 4)). is_finite v" by simp
  have g: "2 < length (?middle @ [])" "wf ((?middle @ []) ! 2)"
    "shape ((?middle @ []) ! 2) = shape (?middle ! 4)"
    "\<forall>v\<in>set (data ((?middle @ []) ! 2)). is_finite v"
    by (simp_all add: wf_def numel_def)
  have b: "fn_backward MySub ?c 2 (?middle @ []) = Inr ([Some 6, Some 9, None], ?later)"
    using MySub_broadcast_example(2) by simp
  have i: "0 < length ?args" "?args ! 0 = T 0" "[Some 6, Some 9, None] ! 0 = Some (6::nat)"
    by simp_all
  have j: "0 < length (data (?before ! 0))" "data (?before ! 0) ! 0 = Fin 5" by simp_all
  have relu: "MySub = MyReLU \<longrightarrow> (5 :: real) \<noteq> 0" by simp
  have ce: "MySub = CustomLoss \<or> MySub = NonDiffCrossEntropy \<longrightarrow> eps < 5 \<and> 5 < 1 - eps" by simp
  have bt: "broadcast_to [2, 2] \<lparr>shape = [2], data = [u, v]\<rparr> = [u, v, u, v]" for u v :: fl
    by (simp add: broadcast_to_def pad_def chunks_def numel_def numeral_2_eq_2)
  have v: "applied_to (?later ! 6) (unit_at (?before ! 0) 0) = 2"
    by (simp add: applied_to_def unit_at_def bt weighted_def)
  from backward_is_derivative[OF a al app fo g b i j relu ce] app b v
  show ?thesis by blast
qed

end
